(* ===== verification/Go_Prelude.thy ===== *)
theory Go_Prelude
  imports Main "HOL-Library.Word" "HOL-Library.Sublist" "HOL-Library.AList"
begin

text \<open>
  The parts of the Go language and of its standard library that the components of Shiyao
  use: strings as byte sequences, UTF-8 decoding, the \<open>strings\<close>, \<open>strconv\<close>,
  \<open>encoding/hex\<close> and \<open>unicode/utf8\<close> functions, and generic lemmas about them.
  A Go string is a \<^typ>\<open>string\<close> whose characters are its bytes.
\<close>

named_theorems go_defs "definitions of the Go string library, unfolded by component proofs"

type_synonym byte = "8 word"

section \<open>Bytes and runes\<close>

abbreviation code :: "char \<Rightarrow> nat" where
  "code c \<equiv> of_char c"

definition is_ascii :: "char \<Rightarrow> bool" where
  "is_ascii c \<longleftrightarrow> code c < 128"

definition ascii :: "string \<Rightarrow> bool" where
  "ascii s \<longleftrightarrow> list_all is_ascii s"

text \<open>\<open>utf8.RuneError\<close>, the replacement character U+FFFD.\<close>

definition RuneError :: nat where
  "RuneError = 65533"

definition cont :: "char \<Rightarrow> bool" where
  "cont c \<longleftrightarrow> 128 \<le> code c \<and> code c \<le> 191"

text \<open>
  \<open>utf8.DecodeRuneInString\<close>: the first rune and its width in bytes; an invalid encoding
  gives \<^const>\<open>RuneError\<close> with width 1.
\<close>

definition decode2 :: "char \<Rightarrow> string \<Rightarrow> nat \<times> nat" where
  "decode2 b0 bs = (case bs of
     b1 # _ \<Rightarrow> if cont b1 then ((code b0 - 192) * 64 + (code b1 - 128), 2) else (RuneError, 1)
   | [] \<Rightarrow> (RuneError, 1))"

definition decode3 :: "nat \<Rightarrow> nat \<Rightarrow> char \<Rightarrow> string \<Rightarrow> nat \<times> nat" where
  "decode3 lo hi b0 bs = (case bs of
     b1 # b2 # _ \<Rightarrow>
       if lo \<le> code b1 \<and> code b1 \<le> hi \<and> cont b2
       then ((code b0 - 224) * 4096 + (code b1 - 128) * 64 + (code b2 - 128), 3)
       else (RuneError, 1)
   | _ \<Rightarrow> (RuneError, 1))"

definition decode4 :: "nat \<Rightarrow> nat \<Rightarrow> char \<Rightarrow> string \<Rightarrow> nat \<times> nat" where
  "decode4 lo hi b0 bs = (case bs of
     b1 # b2 # b3 # _ \<Rightarrow>
       if lo \<le> code b1 \<and> code b1 \<le> hi \<and> cont b2 \<and> cont b3
       then ((code b0 - 240) * 262144 + (code b1 - 128) * 4096
             + (code b2 - 128) * 64 + (code b3 - 128), 4)
       else (RuneError, 1)
   | _ \<Rightarrow> (RuneError, 1))"

definition decode_rune :: "char \<Rightarrow> string \<Rightarrow> nat \<times> nat" where
  "decode_rune b0 bs =
     (if code b0 < 128 then (code b0, 1)
      else if code b0 < 194 then (RuneError, 1)
      else if code b0 < 224 then decode2 b0 bs
      else if code b0 = 224 then decode3 160 191 b0 bs
      else if code b0 = 237 then decode3 128 159 b0 bs
      else if code b0 < 240 then decode3 128 191 b0 bs
      else if code b0 = 240 then decode4 144 191 b0 bs
      else if code b0 < 244 then decode4 128 191 b0 bs
      else if code b0 = 244 then decode4 128 143 b0 bs
      else (RuneError, 1))"

text \<open>The iteration \<open>for _, r := range s\<close>: each rune with the bytes it stands for.\<close>

fun runes :: "string \<Rightarrow> (nat \<times> string) list" where
  "runes [] = []"
| "runes (b # bs) =
     (let (r, n) = decode_rune b bs
      in (r, b # take (n - 1) bs) # runes (drop (n - 1) bs))"

text \<open>\<open>utf8.RuneCountInString\<close>\<close>

definition RuneCountInString :: "string \<Rightarrow> nat" where
  "RuneCountInString s = length (runes s)"

text \<open>\<open>unicode.IsSpace\<close>\<close>

definition is_space :: "nat \<Rightarrow> bool" where
  "is_space r \<longleftrightarrow>
     9 \<le> r \<and> r \<le> 13 \<or> r = 32 \<or> r = 133 \<or> r = 160 \<or> r = 5760
     \<or> 8192 \<le> r \<and> r \<le> 8202 \<or> r = 8232 \<or> r = 8233 \<or> r = 8239 \<or> r = 8287 \<or> r = 12288"

definition bytes_of_runes :: "(nat \<times> string) list \<Rightarrow> string" where
  "bytes_of_runes rs = concat (map snd rs)"

section \<open>The strings package\<close>

definition trim_both :: "('a \<Rightarrow> bool) \<Rightarrow> 'a list \<Rightarrow> 'a list" where
  "trim_both P xs = rev (dropWhile P (rev (dropWhile P xs)))"

definition TrimSpace :: "string \<Rightarrow> string" where
  "TrimSpace s = bytes_of_runes (trim_both (\<lambda>(r, _). is_space r) (runes s))"

definition ascii_lower :: "char \<Rightarrow> char" where
  "ascii_lower c = (if 65 \<le> code c \<and> code c \<le> 90 then char_of (code c + 32) else c)"

text \<open>
  \<open>strings.ToLower\<close>: an ASCII string is lowered byte by byte; any other one goes through
  the Unicode case tables, which are the argument \<open>ul\<close>.
\<close>

definition ToLower :: "(string \<Rightarrow> string) \<Rightarrow> string \<Rightarrow> string" where
  "ToLower ul s = (if ascii s then map ascii_lower s else ul s)"

definition HasPrefix :: "string \<Rightarrow> string \<Rightarrow> bool" where
  "HasPrefix s p \<longleftrightarrow> prefix p s"

definition HasSuffix :: "string \<Rightarrow> string \<Rightarrow> bool" where
  "HasSuffix s p \<longleftrightarrow> suffix p s"

text \<open>\<open>strings.ContainsAny\<close> with an ASCII character set.\<close>

definition ContainsAny :: "string \<Rightarrow> string \<Rightarrow> bool" where
  "ContainsAny s cs \<longleftrightarrow> list_ex (\<lambda>c. c \<in> set cs) s"

fun Join :: "string list \<Rightarrow> string \<Rightarrow> string" where
  "Join [] sep = []"
| "Join [x] sep = x"
| "Join (x # y # xs) sep = x @ sep @ Join (y # xs) sep"

text \<open>\<open>strings.Split\<close> on a one-byte separator.\<close>

fun split_on :: "char \<Rightarrow> string \<Rightarrow> string list" where
  "split_on sep [] = [[]]"
| "split_on sep (c # cs) =
     (if c = sep then [] # split_on sep cs
      else case split_on sep cs of [] \<Rightarrow> [[c]] | w # ws \<Rightarrow> (c # w) # ws)"

text \<open>\<open>strings.Fields\<close>: the maximal runs of runes that are not white space.\<close>

fun fields_acc :: "string \<Rightarrow> (nat \<times> string) list \<Rightarrow> string list" where
  "fields_acc acc [] = (if acc = [] then [] else [acc])"
| "fields_acc acc ((r, bs) # rs) =
     (if is_space r then (if acc = [] then fields_acc [] rs else acc # fields_acc [] rs)
      else fields_acc (acc @ bs) rs)"

definition Fields :: "string \<Rightarrow> string list" where
  "Fields s = fields_acc [] (runes s)"

text \<open>\<open>strings.ReplaceAll\<close> of one byte by a string.\<close>

definition replace_byte :: "char \<Rightarrow> string \<Rightarrow> string \<Rightarrow> string" where
  "replace_byte c new s = concat (map (\<lambda>d. if d = c then new else [d]) s)"

section \<open>Numbers and hexadecimal text\<close>

definition digit :: "nat \<Rightarrow> char" where
  "digit d = char_of (48 + d)"

fun nat_str :: "nat \<Rightarrow> string" where
  "nat_str n = (if n < 10 then [digit n] else nat_str (n div 10) @ [digit (n mod 10)])"

declare nat_str.simps [simp del]

text \<open>\<open>strconv.Itoa\<close> and the verb \<open>%d\<close>\<close>

definition Itoa :: "int \<Rightarrow> string" where
  "Itoa i = (if i < 0 then ''-'' @ nat_str (nat (- i)) else nat_str (nat i))"

definition is_digit :: "char \<Rightarrow> bool" where
  "is_digit c \<longleftrightarrow> 48 \<le> code c \<and> code c \<le> 57"

definition is_lower :: "char \<Rightarrow> bool" where
  "is_lower c \<longleftrightarrow> 97 \<le> code c \<and> code c \<le> 122"

definition is_upper :: "char \<Rightarrow> bool" where
  "is_upper c \<longleftrightarrow> 65 \<le> code c \<and> code c \<le> 90"

definition is_alnum :: "char \<Rightarrow> bool" where
  "is_alnum c \<longleftrightarrow> is_digit c \<or> is_lower c \<or> is_upper c"

definition digit_val :: "char \<Rightarrow> nat" where
  "digit_val c = code c - 48"

definition dec_val :: "string \<Rightarrow> nat" where
  "dec_val s = foldl (\<lambda>n c. n * 10 + digit_val c) 0 s"

definition hex_digit :: "nat \<Rightarrow> char" where
  "hex_digit d = (if d < 10 then char_of (48 + d) else char_of (87 + d))"

definition hex_byte :: "byte \<Rightarrow> string" where
  "hex_byte b = [hex_digit (unat b div 16), hex_digit (unat b mod 16)]"

text \<open>\<open>hex.EncodeToString\<close>\<close>

definition hex_encode :: "byte list \<Rightarrow> string" where
  "hex_encode bs = concat (map hex_byte bs)"

definition hex_val :: "char \<Rightarrow> nat option" where
  "hex_val c =
     (if 48 \<le> code c \<and> code c \<le> 57 then Some (code c - 48)
      else if 97 \<le> code c \<and> code c \<le> 102 then Some (code c - 87)
      else if 65 \<le> code c \<and> code c \<le> 70 then Some (code c - 55)
      else None)"

text \<open>\<open>hex.DecodeString\<close>; an odd length or a byte that is no hex digit is an error.\<close>

fun hex_decode :: "string \<Rightarrow> byte list option" where
  "hex_decode [] = Some []"
| "hex_decode [c] = None"
| "hex_decode (c # d # cs) =
     (case (hex_val c, hex_val d, hex_decode cs) of
        (Some h, Some l, Some bs) \<Rightarrow> Some (word_of_nat (16 * h + l) # bs)
      | _ \<Rightarrow> None)"

text \<open>\<open>[]byte(s)\<close> and \<open>string(b)\<close>\<close>

definition bytes_of :: "string \<Rightarrow> byte list" where
  "bytes_of s = map (\<lambda>c. word_of_nat (code c)) s"

definition string_of :: "byte list \<Rightarrow> string" where
  "string_of bs = map (\<lambda>b. char_of (unat b)) bs"

text \<open>
  \<open>strconv.Quote\<close>, the verb \<open>%q\<close>, which occurs in error texts only. Runes
  beyond ASCII are kept as they are; an invalid byte is written \<open>\x\<close> and its two digits.
\<close>

definition quote_rune :: "nat \<times> string \<Rightarrow> string" where
  "quote_rune rb = (case rb of (r, bs) \<Rightarrow>
     if r = 34 then [CHR 0x5C, CHR 0x22]
     else if r = 92 then [CHR 0x5C, CHR 0x5C]
     else if r = 7 then [CHR 0x5C] @ ''a'' else if r = 8 then [CHR 0x5C] @ ''b''
     else if r = 9 then [CHR 0x5C] @ ''t'' else if r = 10 then [CHR 0x5C] @ ''n''
     else if r = 11 then [CHR 0x5C] @ ''v'' else if r = 12 then [CHR 0x5C] @ ''f''
     else if r = 13 then [CHR 0x5C] @ ''r''
     else if r < 32 \<or> r = 127 \<or> r = RuneError \<and> length bs = 1
       then [CHR 0x5C] @ ''x'' @ hex_encode (map (\<lambda>c. word_of_nat (code c)) bs)
     else bs)"

definition Quote :: "string \<Rightarrow> string" where
  "Quote s = [CHR 0x22] @ concat (map quote_rune (runes s)) @ [CHR 0x22]"

section \<open>Paths\<close>

text \<open>
  \<open>path/filepath\<close> on Unix. \<open>clean_segs\<close> is the loop of \<open>Clean\<close> over the elements of a path, with the elements
  kept so far in reverse: empty elements and dots are dropped, and two dots take an element back.
\<close>

fun clean_segs :: "bool \<Rightarrow> string list \<Rightarrow> string list \<Rightarrow> string list" where
  "clean_segs rooted acc [] = rev acc"
| "clean_segs rooted acc (s # ss) =
     (if s = [] \<or> s = ''.'' then clean_segs rooted acc ss
      else if s = ''..'' then
        (case acc of
           [] \<Rightarrow> clean_segs rooted (if rooted then [] else [''..'']) ss
         | a # as \<Rightarrow> clean_segs rooted (if a = ''..'' then ''..'' # acc else as) ss)
      else clean_segs rooted (s # acc) ss)"

definition is_rooted :: "string \<Rightarrow> bool" where
  "is_rooted p \<longleftrightarrow> HasPrefix p ''/''"

definition path_segs :: "string \<Rightarrow> string list" where
  "path_segs p = clean_segs (is_rooted p) [] (split_on (CHR ''/'') p)"

definition filepath_Clean :: "string \<Rightarrow> string" where
  "filepath_Clean p =
     (let body = Join (path_segs p) ''/'' in
      if is_rooted p then ''/'' @ body else if body = [] then ''.'' else body)"

definition filepath_Join :: "string list \<Rightarrow> string" where
  "filepath_Join es =
     (case dropWhile (\<lambda>e. e = []) es of [] \<Rightarrow> [] | es \<Rightarrow> filepath_Clean (Join es ''/''))"

definition filepath_Dir :: "string \<Rightarrow> string" where
  "filepath_Dir p = filepath_Clean (rev (dropWhile (\<lambda>c. c \<noteq> CHR ''/'') (rev p)))"

text \<open>An element that names an entry of its directory.\<close>

definition real_seg :: "string \<Rightarrow> bool" where
  "real_seg s \<longleftrightarrow> s \<noteq> [] \<and> s \<noteq> ''.'' \<and> s \<noteq> ''..''"

section \<open>Maps with a size: association lists\<close>

text \<open>
  A Go map whose length or iteration the code uses is an association list with distinct keys
  (\<open>AList.update\<close>, \<open>AList.delete\<close>). The iteration order is the order of the list;
  Go leaves it open, so properties are stated for every such list.
\<close>

type_synonym ('k, 'v) gomap = "('k \<times> 'v) list"

definition gomap_wf :: "('k, 'v) gomap \<Rightarrow> bool" where
  "gomap_wf m \<longleftrightarrow> distinct (map fst m)"


section \<open>Lemmas: UTF-8\<close>

lemma decode_rune_width: "snd (decode_rune b bs) \<in> {1, 2, 3, 4}"
  by (auto simp: decode_rune_def decode2_def decode3_def decode4_def split: list.splits)

lemma bytes_of_runes_runes [simp]: "bytes_of_runes (runes s) = s"
proof (induction s rule: runes.induct)
  case 1
  show ?case by (simp add: bytes_of_runes_def)
next
  case (2 b bs)
  then show ?case
    by (cases "decode_rune b bs") (simp add: bytes_of_runes_def)
qed

lemma is_ascii_decode: "is_ascii b \<Longrightarrow> decode_rune b bs = (code b, 1)"
  by (simp add: is_ascii_def decode_rune_def)

lemma ascii_simps [simp]:
  "ascii []"
  "ascii (c # s) \<longleftrightarrow> is_ascii c \<and> ascii s"
  "ascii (s @ t) \<longleftrightarrow> ascii s \<and> ascii t"
  by (simp_all add: ascii_def)

lemma runes_ascii: "ascii s \<Longrightarrow> runes s = map (\<lambda>c. (code c, [c])) s"
  by (induction s) (simp_all add: is_ascii_decode)

lemma decode_small: "fst (decode_rune b bs) < 128 \<Longrightarrow> is_ascii b"
  by (auto simp: decode_rune_def decode2_def decode3_def decode4_def RuneError_def is_ascii_def split: list.splits if_splits)

lemma runes_small: "list_all (\<lambda>(r, _). r < 128) (runes s) \<Longrightarrow> ascii s"
proof (induction s rule: runes.induct)
  case (2 b bs)
  then have "is_ascii b" using decode_small [of b bs] by (simp split: prod.splits)
  with 2 show ?case by (simp add: is_ascii_decode)
qed simp

lemma RuneCountInString_ascii: "ascii s \<Longrightarrow> RuneCountInString s = length s"
  by (simp add: RuneCountInString_def runes_ascii)

lemma length_runes_le: "length (runes s) \<le> length s"
proof (induction s rule: runes.induct)
  case 1
  show ?case by simp
next
  case (2 b bs)
  show ?case
  proof (cases "decode_rune b bs")
    case (Pair r n)
    have "length (drop (n - 1) bs) \<le> length bs" by simp
    with 2 [of "(r, n)" r n] Pair show ?thesis by simp
  qed
qed

text \<open>A tail of the decoded runes is what its own bytes decode to.\<close>

lemma runes_suffix: "runes s = xs @ ys \<Longrightarrow> runes (bytes_of_runes ys) = ys"
proof (induction s arbitrary: xs rule: runes.induct)
  case 1
  then show ?case by (simp add: bytes_of_runes_def)
next
  case (2 b bs)
  obtain r n where d: "decode_rune b bs = (r, n)" by (cases "decode_rune b bs")
  show ?case
  proof (cases xs)
    case Nil
    with "2.prems" have "bytes_of_runes ys = b # bs"
      using bytes_of_runes_runes [of "b # bs"] by simp
    with Nil "2.prems" show ?thesis by simp
  next
    case (Cons x xs')
    with "2.prems" d have "runes (drop (n - 1) bs) = xs' @ ys" by simp
    with "2.IH" [OF d [symmetric] refl] show ?thesis by simp
  qed
qed

section \<open>Lemmas: strings\<close>

lemma trim_both_sub: "\<exists>us vs. xs = us @ trim_both P xs @ vs"
proof -
  let ?ys = "dropWhile P xs"
  have "xs = takeWhile P xs @ ?ys" by simp
  moreover have "?ys = rev (dropWhile P (rev ?ys)) @ rev (takeWhile P (rev ?ys))"
    by (metis rev_append rev_rev_ident takeWhile_dropWhile_id)
  ultimately show ?thesis
    unfolding trim_both_def by metis
qed

lemma trim_both_set: "set (trim_both P xs) \<subseteq> set xs"
proof -
  obtain us vs where "xs = us @ trim_both P xs @ vs" using trim_both_sub by blast
  then show ?thesis by (metis Un_iff set_append subsetI)
qed

lemma trim_both_id:
  "xs \<noteq> [] \<Longrightarrow> \<not> P (hd xs) \<Longrightarrow> \<not> P (last xs) \<Longrightarrow> trim_both P xs = xs"
proof -
  assume a: "xs \<noteq> []" "\<not> P (hd xs)" "\<not> P (last xs)"
  then have "dropWhile P xs = xs" by (cases xs) auto
  moreover have "dropWhile P (rev xs) = rev xs"
    using a by (cases xs rule: rev_cases) auto
  ultimately show ?thesis by (simp add: trim_both_def)
qed

lemma TrimSpace_Nil [simp]: "TrimSpace [] = []"
  by (simp add: TrimSpace_def trim_both_def bytes_of_runes_def)

lemma bytes_of_runes_ascii [simp]: "bytes_of_runes (map (\<lambda>c. (code c, [c])) s) = s"
  by (induction s) (simp_all add: bytes_of_runes_def)

lemma trim_both_map: "trim_both P (map f xs) = map f (trim_both (P \<circ> f) xs)"
  by (simp add: trim_both_def dropWhile_map rev_map)

text \<open>On ASCII text \<^const>\<open>TrimSpace\<close> drops the white space bytes at both ends.\<close>

lemma TrimSpace_ascii:
  "ascii s \<Longrightarrow> TrimSpace s = trim_both (\<lambda>c. is_space (code c)) s"
  by (simp add: TrimSpace_def runes_ascii trim_both_map comp_def)

lemma TrimSpace_length: "length (TrimSpace s) \<le> length s"
proof -
  obtain us vs where "runes s = us @ trim_both (\<lambda>(r, _). is_space r) (runes s) @ vs"
    using trim_both_sub by blast
  then have "s = bytes_of_runes us @ TrimSpace s @ bytes_of_runes vs"
    unfolding TrimSpace_def bytes_of_runes_def
    by (metis bytes_of_runes_def bytes_of_runes_runes concat_append map_append)
  then have "length s = length (bytes_of_runes us) + length (TrimSpace s) + length (bytes_of_runes vs)"
    by (metis add.assoc length_append)
  then show ?thesis by simp
qed

lemma concat_map_filter:
  "concat (map f (filter P xs)) = concat (map (\<lambda>x. if P x then f x else []) xs)"
  by (induction xs) auto

lemma until_sep:
  assumes "\<forall>c \<in> set a. c \<noteq> x"
  shows "takeWhile (\<lambda>c. c \<noteq> x) (a @ x # b) = a" "dropWhile (\<lambda>c. c \<noteq> x) (a @ x # b) = x # b"
  using assms by (induction a) auto

lemma split_on_not_Nil [simp]: "split_on sep s \<noteq> []"
  by (induction s) (auto split: list.splits)

lemma split_on_no_sep: "sep \<notin> set s \<Longrightarrow> split_on sep s = [s]"
  by (induction s) auto

lemma split_on_append:
  "sep \<notin> set s \<Longrightarrow> split_on sep (s @ sep # t) = s # split_on sep t"
  by (induction s) auto

lemma byte_bound [simp]: "unat (b :: byte) < 256"
proof -
  have "unat b < 2 ^ LENGTH(8)" by (rule unsigned_less)
  then show ?thesis by simp
qed

lemma nibble_bounds: "unat (b :: byte) div 16 < 16" "unat (b :: byte) mod 16 < 16"
  using byte_bound [of b] by (simp_all add: less_mult_imp_div_less)

lemma concat_hex_set: "c \<in> set (hex_encode bs) \<Longrightarrow> \<exists>d < 16. c = hex_digit d"
proof -
  assume "c \<in> set (hex_encode bs)"
  then obtain b where "c \<in> set (hex_byte b)" by (auto simp: hex_encode_def)
  then consider "c = hex_digit (unat b div 16)" | "c = hex_digit (unat b mod 16)"
    by (auto simp: hex_byte_def)
  then show ?thesis using nibble_bounds [of b] by cases blast+
qed

lemma hex_encode_simps [simp]:
  "hex_encode [] = []"
  "hex_encode (b # bs) = hex_byte b @ hex_encode bs"
  by (simp_all add: hex_encode_def)

lemma length_hex_encode [simp]: "length (hex_encode bs) = 2 * length bs"
  by (induction bs) (simp_all add: hex_byte_def)

lemma hex_val_hex_digit: "d < 16 \<Longrightarrow> hex_val (hex_digit d) = Some d"
  by (auto simp: hex_val_def hex_digit_def)

lemma hex_decode_encode [simp]: "hex_decode (hex_encode bs) = Some bs"
proof (induction bs)
  case Nil
  show ?case by simp
next
  case (Cons b bs)
  have lt: "unat b div 16 < 16" "unat b mod 16 < 16"
    by (rule nibble_bounds)+
  have "16 * (unat b div 16) + unat b mod 16 = unat b" by simp
  with Cons lt show ?case by (simp add: hex_byte_def hex_val_hex_digit)
qed

lemma hex_digit_neq: "d < 16 \<Longrightarrow> hex_digit d \<noteq> CHR ''$''"
  by (auto simp: hex_digit_def dest: arg_cong [where f = "of_char :: char \<Rightarrow> nat"])

section \<open>Lemmas: decimal text\<close>

lemma code_digit [simp]: "d < 10 \<Longrightarrow> code (digit d) = 48 + d"
  by (simp add: digit_def)

lemma nat_str_digits: "list_all is_digit (nat_str n)"
proof (induction n rule: nat_str.induct)
  case (1 n)
  then show ?case
    by (cases "n < 10") (simp_all add: nat_str.simps [of n] is_digit_def)
qed

lemma digits_ascii: "list_all is_digit s \<Longrightarrow> ascii s"
  by (induction s) (auto simp: is_digit_def is_ascii_def)

lemma nat_str_ascii: "ascii (nat_str n)"
  by (rule digits_ascii [OF nat_str_digits])

lemma nat_str_not_Nil [simp]: "nat_str n \<noteq> []"
  by (simp add: nat_str.simps [of n])

lemma dec_val_snoc: "dec_val (s @ [c]) = dec_val s * 10 + digit_val c"
  by (simp add: dec_val_def)

lemma dec_val_nat_str [simp]: "dec_val (nat_str n) = n"
proof (induction n rule: nat_str.induct)
  case (1 n)
  show ?case
  proof (cases "n < 10")
    case True
    then show ?thesis by (simp add: nat_str.simps [of n] dec_val_def digit_val_def)
  next
    case False
    with 1 show ?thesis
      by (simp add: nat_str.simps [of n] dec_val_snoc digit_val_def)
  qed
qed

lemma nat_str_inject [simp]: "nat_str m = nat_str n \<longleftrightarrow> m = n"
  by (metis dec_val_nat_str)

lemma nat_str_length: "n < 10 ^ k \<Longrightarrow> 0 < k \<Longrightarrow> length (nat_str n) \<le> k"
proof (induction n arbitrary: k rule: nat_str.induct)
  case (1 n)
  show ?case
  proof (cases "n < 10")
    case True
    with "1.prems" show ?thesis by (simp add: nat_str.simps [of n])
  next
    case False
    then have "k \<noteq> 1" using "1.prems" by auto
    then obtain k' where k: "k = Suc k'" "0 < k'" using "1.prems" by (cases k) auto
    have "n div 10 < 10 ^ k'" using "1.prems"(1) k by (simp add: less_mult_imp_div_less mult.commute)
    with "1.IH" [OF False] k have "length (nat_str (n div 10)) \<le> k'" by blast
    with False k show ?thesis by (simp add: nat_str.simps [of n])
  qed
qed

lemma nat_str_no_leading_zero: "0 < n \<Longrightarrow> hd (nat_str n) \<noteq> CHR ''0''"
proof (induction n rule: nat_str.induct)
  case (1 n)
  show ?case
  proof (cases "n < 10")
    case True
    have "code (digit n) \<noteq> code CHR ''0''" using True "1.prems" by simp
    then have "digit n \<noteq> CHR ''0''" by metis
    with True show ?thesis by (simp add: nat_str.simps [of n])
  next
    case False
    with 1 show ?thesis by (simp add: nat_str.simps [of n] hd_append)
  qed
qed

section \<open>Lemmas: association lists\<close>

lemma gomap_wf_Nil [simp]: "gomap_wf []"
  by (simp add: gomap_wf_def)

lemma gomap_wf_update [intro]: "gomap_wf m \<Longrightarrow> gomap_wf (AList.update k v m)"
  by (simp add: gomap_wf_def distinct_update)

lemma gomap_wf_delete [intro]: "gomap_wf m \<Longrightarrow> gomap_wf (AList.delete k m)"
  by (simp add: gomap_wf_def distinct_delete)

lemma length_update_new: "map_of m k = None \<Longrightarrow> length (AList.update k v m) = Suc (length m)"
  by (induction m) (auto split: if_splits)

lemma update_new: "map_of m k = None \<Longrightarrow> AList.update k v m = m @ [(k, v)]"
  by (induction m) (auto split: if_splits)

lemma set_delete_subset: "set (AList.delete k m) \<subseteq> set m"
  by (auto simp: AList.delete_eq)

lemma distinct_snd_delete: "distinct (map snd m) \<Longrightarrow> distinct (map snd (AList.delete k m))"
  by (induction m) (auto simp: AList.delete_eq)

lemma length_delete_le: "length (AList.delete k m) \<le> length m"
  by (simp add: AList.delete_eq)

lemma delete_absent: "map_of m k = None \<Longrightarrow> AList.delete k m = m"
  by (induction m) (auto simp: AList.delete_eq)

lemma map_of_delete_iff: "map_of (AList.delete k m) j = (if j = k then None else map_of m j)"
  by (simp add: AList.delete_conv')

lemma map_of_update_iff: "map_of (AList.update k v m) j = (if j = k then Some v else map_of m j)"
  by (simp add: AList.update_conv')

section \<open>Lemmas: paths\<close>

lemma split_on_sep: "split_on sep (s @ sep # t) = split_on sep s @ split_on sep t"
  by (induction s) (auto split: list.splits)

lemma split_on_set: "w \<in> set (split_on sep s) \<Longrightarrow> sep \<notin> set w"
proof (induction s arbitrary: w)
  case (Cons c s)
  then show ?case by (cases "split_on sep s") (auto split: if_splits)
qed simp

lemma split_on_Join: "xs \<noteq> [] \<Longrightarrow> \<forall>x \<in> set xs. sep \<notin> set x \<Longrightarrow> split_on sep (Join xs [sep]) = xs"
  by (induction xs "[sep]" rule: Join.induct) (auto simp: split_on_no_sep split_on_append)

lemma clean_segs_real:
  assumes "''..'' \<notin> set ys"
  shows "clean_segs rooted acc (xs @ ys) = clean_segs rooted acc xs @ filter real_seg ys"
proof (induction xs arbitrary: acc)
  case Nil
  have "clean_segs rooted acc ys = rev acc @ filter real_seg ys"
    using assms by (induction ys arbitrary: acc) (auto simp: real_seg_def)
  then show ?case by simp
next
  case (Cons x xs)
  then show ?case by (auto split: list.splits)
qed

text \<open>The elements of a cleaned path are real ones, after some leading pairs of dots if the path is relative.\<close>

lemma clean_segs_form:
  assumes "acc = rev (replicate n ''..'' @ rs)" "list_all real_seg rs" "rooted \<longrightarrow> n = 0"
  shows "\<exists>n rs. clean_segs rooted acc ss = replicate n ''..'' @ rs \<and> list_all real_seg rs \<and> (rooted \<longrightarrow> n = 0)"
  using assms
proof (induction ss arbitrary: acc n rs)
  case Nil
  then show ?case by auto
next
  case (Cons s ss)
  consider "s = [] \<or> s = ''.''" | "s = ''..''" "rs = []" | r rs' where "s = ''..''" "rs = rs' @ [r]" | "real_seg s"
    by (cases rs rule: rev_cases) (auto simp: real_seg_def)
  then show ?case
  proof cases
    case 1
    then show ?thesis using Cons by auto
  next
    case 2
    show ?thesis
    proof (cases n)
      case 0
      then show ?thesis using 2 Cons.prems Cons.IH [of "[]" 0 "[]"] Cons.IH [of "[''..'']" 1 "[]"] by (cases rooted) auto
    next
      case (Suc m)
      then have "\<not> rooted" "acc = ''..'' # replicate m ''..''" using 2 Cons.prems by (auto simp: replicate_append_same)
      then show ?thesis using 2 Suc Cons.IH [of "''..'' # acc" "Suc n" "[]"]
        by (simp add: replicate_append_same)
    qed
  next
    case 3
    then have "real_seg r" "acc = r # rev (replicate n ''..'' @ rs')" using Cons.prems by auto
    moreover from this(1) have "r \<noteq> ''..''" by (simp add: real_seg_def)
    ultimately show ?thesis using 3 Cons.prems Cons.IH [of "rev (replicate n ''..'' @ rs')" n rs'] by simp
  next
    case 4
    then show ?thesis using Cons.prems Cons.IH [of "s # acc" n "rs @ [s]"] by (auto simp: real_seg_def)
  qed
qed

lemma clean_segs_elems:
  assumes "list_all P acc" "list_all (\<lambda>s. s = [] \<or> P s) ss" "P ''..''"
  shows "list_all P (clean_segs rooted acc ss)"
  using assms
proof (induction ss arbitrary: acc)
  case (Cons s ss)
  then have "list_all P (case acc of [] \<Rightarrow> if rooted then [] else [''..''] | a # as \<Rightarrow> if a = ''..'' then ''..'' # acc else as)"
    "list_all (\<lambda>s. s = [] \<or> P s) ss" "s = [] \<or> list_all P (s # acc)" by (cases acc; simp)+
  then show ?case using Cons.IH Cons.prems(1,3) by (cases acc) auto
qed simp

lemma path_segs_elems: "s \<in> set (path_segs p) \<Longrightarrow> s \<noteq> [] \<and> CHR ''/'' \<notin> set s"
  using clean_segs_elems [of "\<lambda>s. s \<noteq> [] \<and> CHR ''/'' \<notin> set s" "[]" "split_on (CHR ''/'') p" "is_rooted p"]
    split_on_set [of _ "CHR ''/''" p]
  by (auto simp: path_segs_def list_all_iff)

lemma Join_Nil_iff: "\<forall>x \<in> set xs. x \<noteq> [] \<Longrightarrow> Join xs sep = [] \<longleftrightarrow> xs = []"
  by (induction xs sep rule: Join.induct) auto

lemma filepath_Clean_eq:
  assumes "filepath_Clean p = filepath_Clean q" "is_rooted p = is_rooted q"
  shows "path_segs p = path_segs q"
proof -
  have elems: "\<forall>x \<in> set (path_segs r). x \<noteq> []" "\<forall>x \<in> set (path_segs r). CHR ''/'' \<notin> set x" for r
    using path_segs_elems by blast+
  have split: "path_segs r \<noteq> [] \<Longrightarrow> split_on (CHR ''/'') (Join (path_segs r) ''/'') = path_segs r" for r
    using split_on_Join elems(2) by blast
  have dot: "Join (path_segs r) ''/'' \<noteq> ''.''" for r
  proof
    assume "Join (path_segs r) ''/'' = ''.''"
    with split [of r] have "path_segs r = [''.'']" by (cases "path_segs r = []") auto
    moreover obtain n rs where "path_segs r = replicate n ''..'' @ rs" "list_all real_seg rs"
      using clean_segs_form [of "[]" 0 "[]" "is_rooted r" "split_on (CHR ''/'') r"] by (auto simp: path_segs_def)
    ultimately show False by (cases n) (auto simp: real_seg_def)
  qed
  have "Join (path_segs p) ''/'' = Join (path_segs q) ''/''"
    using assms dot [of p] dot [of q] by (auto simp: filepath_Clean_def Let_def split: if_splits)
  then show ?thesis
    using split [of p] split [of q] Join_Nil_iff [OF elems(1), of p] Join_Nil_iff [OF elems(1), of q] by metis
qed

text \<open>A key without two dots stays below the directory it is joined to.\<close>

lemma path_segs_below:
  assumes "root \<noteq> []" "''..'' \<notin> set (split_on (CHR ''/'') key)"
  shows "filepath_Join [root, key] = filepath_Clean (root @ ''/'' @ key)"
    "path_segs (root @ ''/'' @ key) = path_segs root @ filter real_seg (split_on (CHR ''/'') key)"
    "is_rooted (root @ ''/'' @ key) = is_rooted root"
proof -
  show "filepath_Join [root, key] = filepath_Clean (root @ ''/'' @ key)" using assms(1) by (simp add: filepath_Join_def)
  show r: "is_rooted (root @ ''/'' @ key) = is_rooted root"
    using assms(1) by (cases root) (simp_all add: is_rooted_def HasPrefix_def)
  show "path_segs (root @ ''/'' @ key) = path_segs root @ filter real_seg (split_on (CHR ''/'') key)"
    using clean_segs_real [OF assms(2), of "is_rooted root" "[]" "split_on (CHR ''/'') root"] r
    by (simp add: path_segs_def split_on_sep)
qed

lemma clean_segs_fix:
  assumes "list_all real_seg rs" "rooted \<longrightarrow> n = 0"
  shows "clean_segs rooted [] (replicate n ''..'' @ rs) = replicate n ''..'' @ rs"
proof -
  have dots: "clean_segs False (replicate k ''..'') (replicate n ''..'') = replicate (k + n) ''..''" for k n
  proof (induction n arbitrary: k)
    case (Suc n)
    then show ?case using Suc [of "Suc k"] by (cases k) simp_all
  qed simp
  have "''..'' \<notin> set rs" "filter real_seg rs = rs" using assms(1) by (auto simp: list_all_iff real_seg_def filter_id_conv)
  then show ?thesis using assms(2) dots [of 0 n] clean_segs_real [of rs rooted "[]" "replicate n ''..''"] by (cases rooted) auto
qed

lemma path_segs_form: "\<exists>n rs. path_segs p = replicate n ''..'' @ rs \<and> list_all real_seg rs \<and> (is_rooted p \<longrightarrow> n = 0)"
  using clean_segs_form [of "[]" 0 "[]" "is_rooted p" "split_on (CHR ''/'') p"] by (simp add: path_segs_def)

lemma path_segs_Clean: "is_rooted (filepath_Clean p) = is_rooted p" "path_segs (filepath_Clean p) = path_segs p"
proof -
  let ?segs = "path_segs p"
  let ?body = "Join ?segs ''/''"
  have split: "split_on (CHR ''/'') ?body = (if ?segs = [] then [[]] else ?segs)"
    using split_on_Join [of ?segs] path_segs_elems by auto
  obtain n rs where "?segs = replicate n ''..'' @ rs" "list_all real_seg rs" "is_rooted p \<longrightarrow> n = 0"
    using path_segs_form [of p] by blast
  with clean_segs_fix [of rs "is_rooted p" n] have fx: "clean_segs (is_rooted p) [] ?segs = ?segs" by simp
  have nil: "?body = [] \<longleftrightarrow> ?segs = []" using Join_Nil_iff path_segs_elems by blast
  have "\<not> is_rooted ?body"
  proof
    assume "is_rooted ?body"
    then obtain t where t: "?body = CHR ''/'' # t" by (auto simp: is_rooted_def HasPrefix_def prefix_def)
    then have "[] \<in> set (split_on (CHR ''/'') ?body)" by simp
    with split t nil path_segs_elems [of "[]" p] show False by (auto split: if_splits)
  qed
  then show r: "is_rooted (filepath_Clean p) = is_rooted p"
    by (auto simp: filepath_Clean_def Let_def is_rooted_def HasPrefix_def)
  show "path_segs (filepath_Clean p) = ?segs"
    using r split fx nil unfolding path_segs_def [of "filepath_Clean p"] by (auto simp: filepath_Clean_def Let_def)
qed

end
