(* ===== verification/Go_Errors.thy ===== *)
theory Go_Errors
  imports Go_Prelude
begin

text \<open>
  Go error values and the application errors of \<open>pkg/errors\<close>, with the response
  envelope of \<open>pkg/httputil\<close>. An \<open>error\<close> result is \<^typ>\<open>'e option\<close>
  (\<^const>\<open>None\<close> is \<open>nil\<close>), a pair \<open>(T, error)\<close> is a sum with \<^const>\<open>Inl\<close> the error.
\<close>

section \<open>Error values\<close>

text \<open>
  \<open>Sentinel\<close> is a package-level \<open>errors.New\<close> value, compared by identity;
  \<open>Errorf\<close> an error that wraps nothing; \<open>Wrapf pre e post\<close> the result of
  \<open>fmt.Errorf\<close> with the verb \<open>%w\<close> between two texts; \<open>Joined\<close> the result
  of \<open>errors.Join\<close>; \<open>AppError\<close> the struct of \<open>pkg/errors\<close>.
\<close>

datatype error =
    Sentinel string
  | Errorf string
  | Wrapf string error string
  | Joined "error list"
  | AppError (err_code: string) (err_message: string) (err_status: nat) (err_cause: "error option")

type_synonym 'a result = "error + 'a"

fun join_lines :: "string list \<Rightarrow> string" where
  "join_lines [] = []"
| "join_lines [x] = x"
| "join_lines (x # y # ys) = x @ [CHR 0x0A] @ join_lines (y # ys)"

text \<open>The method \<open>Error\<close> of every kind of error.\<close>

fun Error :: "error \<Rightarrow> string" where
  "Error (Sentinel m) = m"
| "Error (Errorf m) = m"
| "Error (Wrapf pre e post) = pre @ Error e @ post"
| "Error (Joined es) = join_lines (map Error es)"
| "Error (AppError c m s (Some e)) = c @ '': '' @ m @ '': '' @ Error e"
| "Error (AppError c m s None) = c @ '': '' @ m"

text \<open>\<open>errors.Is\<close> for a sentinel target, and \<open>errors.AsType[*AppError]\<close>.\<close>

fun errors_Is :: "string \<Rightarrow> error \<Rightarrow> bool" where
  "errors_Is t (Sentinel m) = (m = t)"
| "errors_Is t (Errorf m) = False"
| "errors_Is t (Wrapf pre e post) = errors_Is t e"
| "errors_Is t (Joined es) = list_ex (errors_Is t) es"
| "errors_Is t (AppError c m s (Some e)) = errors_Is t e"
| "errors_Is t (AppError c m s None) = False"

fun first_some :: "'a option list \<Rightarrow> 'a option" where
  "first_some [] = None"
| "first_some (Some x # xs) = Some x"
| "first_some (None # xs) = first_some xs"

fun as_app :: "error \<Rightarrow> (string \<times> string \<times> nat) option" where
  "as_app (AppError c m s e) = Some (c, m, s)"
| "as_app (Wrapf pre e post) = as_app e"
| "as_app (Joined es) = first_some (map as_app es)"
| "as_app _ = None"

text \<open>\<open>errors.Join\<close> leaves out \<open>nil\<close> values and is \<open>nil\<close> when nothing is left.\<close>

definition errors_Join :: "error option list \<Rightarrow> error option" where
  "errors_Join es = (case List.map_filter id es of [] \<Rightarrow> None | xs \<Rightarrow> Some (Joined xs))"

section \<open>pkg/errors\<close>

definition NewBadRequest :: "string \<Rightarrow> error" where
  "NewBadRequest m = AppError ''BAD_REQUEST'' m 400 None"

definition NewUnauthorized :: "string \<Rightarrow> error" where
  "NewUnauthorized m = AppError ''UNAUTHORIZED'' m 401 None"

definition NewForbidden :: "string \<Rightarrow> error" where
  "NewForbidden m = AppError ''FORBIDDEN'' m 403 None"

definition NewNotFound :: "string \<Rightarrow> error" where
  "NewNotFound m = AppError ''NOT_FOUND'' m 404 None"

definition NewConflict :: "string \<Rightarrow> error" where
  "NewConflict m = AppError ''CONFLICT'' m 409 None"

definition NewPaymentRequired :: "string \<Rightarrow> error" where
  "NewPaymentRequired m = AppError ''PAYMENT_REQUIRED'' m 402 None"

definition NewPayloadTooLarge :: "string \<Rightarrow> error" where
  "NewPayloadTooLarge m = AppError ''PAYLOAD_TOO_LARGE'' m 413 None"

definition NewTooManyRequests :: "string \<Rightarrow> error" where
  "NewTooManyRequests m = AppError ''TOO_MANY_REQUESTS'' m 429 None"

definition NewStepUpRequired :: "string \<Rightarrow> error" where
  "NewStepUpRequired m = AppError ''STEP_UP_REQUIRED'' m 403 None"

definition NewNotImplemented :: "string \<Rightarrow> error" where
  "NewNotImplemented m = AppError ''NOT_IMPLEMENTED'' m 501 None"

definition NewInternal :: "string \<Rightarrow> error option \<Rightarrow> error" where
  "NewInternal m e = AppError ''INTERNAL_ERROR'' m 500 e"

definition NewServiceUnavailable :: "string \<Rightarrow> error option \<Rightarrow> error" where
  "NewServiceUnavailable m e = AppError ''SERVICE_UNAVAILABLE'' m 503 e"

lemmas app_error_defs =
  NewBadRequest_def NewUnauthorized_def NewForbidden_def NewNotFound_def NewConflict_def
  NewPaymentRequired_def NewPayloadTooLarge_def NewTooManyRequests_def NewStepUpRequired_def
  NewNotImplemented_def NewInternal_def NewServiceUnavailable_def

section \<open>pkg/httputil\<close>

record error_obj =
  obj_code :: string
  obj_message :: string

text \<open>The JSON envelope with its HTTP status; \<open>Data\<close> is of the type of the handler.\<close>

record 'd response =
  resp_status :: nat
  resp_success :: bool
  resp_data :: "'d option"
  resp_error :: "error_obj option"

definition http_OK :: "'d \<Rightarrow> 'd response" where
  "http_OK d = \<lparr>resp_status = 200, resp_success = True, resp_data = Some d, resp_error = None\<rparr>"

definition http_Created :: "'d \<Rightarrow> 'd response" where
  "http_Created d =
     \<lparr>resp_status = 201, resp_success = True, resp_data = Some d, resp_error = None\<rparr>"

definition http_Accepted :: "'d \<Rightarrow> 'd response" where
  "http_Accepted d =
     \<lparr>resp_status = 202, resp_success = True, resp_data = Some d, resp_error = None\<rparr>"

definition internal_obj :: error_obj where
  "internal_obj =
     \<lparr>obj_code = ''INTERNAL_ERROR'', obj_message = ''An unexpected error occurred''\<rparr>"

definition http_Partial :: "nat \<Rightarrow> 'd \<Rightarrow> error \<Rightarrow> 'd response" where
  "http_Partial status d e =
     (let obj = (case as_app e of
                   Some (c, m, _) \<Rightarrow> \<lparr>obj_code = c, obj_message = m\<rparr>
                 | None \<Rightarrow> internal_obj)
      in \<lparr>resp_status = status, resp_success = False, resp_data = Some d, resp_error = Some obj\<rparr>)"

definition http_Error :: "error \<Rightarrow> 'd response" where
  "http_Error e =
     (case as_app e of
        Some (c, m, s) \<Rightarrow>
          \<lparr>resp_status = s, resp_success = False, resp_data = None,
           resp_error = Some \<lparr>obj_code = c, obj_message = m\<rparr>\<rparr>
      | None \<Rightarrow>
          \<lparr>resp_status = 500, resp_success = False, resp_data = None,
           resp_error = Some internal_obj\<rparr>)"

section \<open>Lemmas\<close>

lemma errors_Join_simps [simp]:
  "errors_Join [] = None"
  "errors_Join [None] = None"
  "errors_Join [Some e] = Some (Joined [e])"
  "errors_Join [Some e, Some f] = Some (Joined [e, f])"
  "errors_Join [Some e, None] = Some (Joined [e])"
  by (simp_all add: errors_Join_def)

lemma errors_Join_None_iff: "errors_Join es = None \<longleftrightarrow> (\<forall>e \<in> set es. e = None)"
proof -
  have "List.map_filter id es = [] \<longleftrightarrow> (\<forall>e \<in> set es. e = None)"
    by (induction es) (auto simp: List.map_filter_simps split: option.splits)
  then show ?thesis by (auto simp: errors_Join_def split: list.splits)
qed

lemma errors_Join_Some_map [simp]: "es \<noteq> [] \<Longrightarrow> errors_Join (map Some es) = Some (Joined es)"
proof -
  assume "es \<noteq> []"
  moreover have "List.map_filter id (map Some es) = es"
    by (induction es) (simp_all add: List.map_filter_simps)
  ultimately show ?thesis by (simp add: errors_Join_def split: list.splits)
qed

text \<open>
  The cause of an internal error is never shown to the client: the body depends on the code
  and the message only.
\<close>

lemma http_Error_hides_cause:
  "http_Error (NewInternal m e) = http_Error (NewInternal m e')"
  by (simp add: http_Error_def NewInternal_def)

lemma http_Error_not_success [simp]:
  "resp_success (http_Error e) = False" "resp_data (http_Error e) = None"
  by (simp_all add: http_Error_def split: option.splits)

end
