(* ===== verification/Net_Addr.thy ===== *)
theory Net_Addr
  imports Go_Prelude
begin

unbundle bit_operations_syntax

text \<open>
  IP addresses as the standard packages \<open>net\<close> and \<open>net/netip\<close> have them: parsing
  of IPv4 and IPv6 text, CIDR prefixes, the four-byte view \<open>To4\<close> and \<open>IPNet.Contains\<close>.
  A \<open>net.IP\<close> is the list of its bytes, sixteen of them when it comes from a parser.
\<close>

section \<open>Addresses\<close>

text \<open>\<open>netip.Addr\<close>: four bytes, or sixteen bytes with a zone.\<close>

datatype netip = V4 "byte list" | V6 "byte list" string

definition parse_octet :: "string \<Rightarrow> byte option" where
  "parse_octet s =
     (if s = [] \<or> \<not> list_all is_digit s then None
      else if 1 < length s \<and> hd s = CHR ''0'' then None
      else if 255 < dec_val s then None
      else Some (word_of_nat (dec_val s)))"

fun all_some :: "'a option list \<Rightarrow> 'a list option" where
  "all_some [] = Some []"
| "all_some (None # xs) = None"
| "all_some (Some x # xs) = map_option ((#) x) (all_some xs)"

definition parse_ipv4 :: "string \<Rightarrow> byte list option" where
  "parse_ipv4 s =
     (let fs = split_on CHR ''.'' s
      in if length fs = 4 then all_some (map parse_octet fs) else None)"

definition is_hex :: "char \<Rightarrow> bool" where
  "is_hex c \<longleftrightarrow> hex_val c \<noteq> None"

definition hex_num :: "string \<Rightarrow> nat" where
  "hex_num s = foldl (\<lambda>n c. n * 16 + the (hex_val c)) 0 s"

lemma dropWhile_two: "c # d # t = dropWhile P s \<Longrightarrow> length t + 2 \<le> length s"
  by (metis add_2_eq_Suc' length_Cons length_dropWhile_le)

text \<open>
  The loop of \<open>netip.parseIPv6\<close>: the bytes so far, the position of the ellipsis, the
  text that is left.
\<close>

function parse6 :: "byte list \<Rightarrow> nat option \<Rightarrow> string \<Rightarrow> (byte list \<times> nat option \<times> string) option"
where
  "parse6 acc ell s =
     (if 16 \<le> length acc then Some (acc, ell, s)
      else let run = takeWhile is_hex s; rest = dropWhile is_hex s in
        if run = [] \<or> 4 < length run then None
        else if rest \<noteq> [] \<and> hd rest = CHR ''.'' then
          (if ell = None \<and> length acc \<noteq> 12 \<or> 12 < length acc then None
           else case parse_ipv4 s of None \<Rightarrow> None | Some bs \<Rightarrow> Some (acc @ bs, ell, []))
        else let acc' = acc @ [word_of_nat (hex_num run div 256), word_of_nat (hex_num run mod 256)] in
          case rest of
            [] \<Rightarrow> Some (acc', ell, [])
          | [c] \<Rightarrow> None
          | c # d # t \<Rightarrow>
              if c \<noteq> CHR '':'' then None
              else if d = CHR '':'' then
                (if ell \<noteq> None then None
                 else if t = [] then Some (acc', Some (length acc'), [])
                 else parse6 acc' (Some (length acc')) t)
              else parse6 acc' ell (d # t))"
  by pat_completeness auto
termination
  by (relation "measure (\<lambda>(acc, ell, s). length s)") (auto dest: dropWhile_two)

declare parse6.simps [simp del]

definition expand_ellipsis :: "byte list \<Rightarrow> nat option \<Rightarrow> byte list option" where
  "expand_ellipsis acc ell =
     (if length acc < 16 then
        (case ell of None \<Rightarrow> None
         | Some e \<Rightarrow> Some (take e acc @ replicate (16 - length acc) 0 @ drop e acc))
      else if ell \<noteq> None then None else Some acc)"

definition parse_ipv6 :: "string \<Rightarrow> netip option" where
  "parse_ipv6 inp =
     (let s = takeWhile (\<lambda>c. c \<noteq> CHR ''%'') inp;
          z = dropWhile (\<lambda>c. c \<noteq> CHR ''%'') inp;
          zone = tl z;
          lead = (2 \<le> length s \<and> take 2 s = ''::'')
      in if z \<noteq> [] \<and> zone = [] then None
         else if lead \<and> length s = 2 then Some (V6 (replicate 16 0) zone)
         else case parse6 [] (if lead then Some 0 else None) (if lead then drop 2 s else s) of
             None \<Rightarrow> None
           | Some (acc, ell, rest) \<Rightarrow>
               if rest \<noteq> [] then None
               else map_option (\<lambda>bs. V6 bs zone) (expand_ellipsis acc ell))"

text \<open>\<open>netip.ParseAddr\<close>: the first of the three characters decides the syntax.\<close>

definition ParseAddr :: "string \<Rightarrow> netip option" where
  "ParseAddr s =
     (case dropWhile (\<lambda>c. c \<notin> set ''.:%'') s of
        [] \<Rightarrow> None
      | c # _ \<Rightarrow>
          if c = CHR ''.'' then map_option V4 (parse_ipv4 s)
          else if c = CHR '':'' then parse_ipv6 s
          else None)"

definition v4_prefix :: "byte list" where
  "v4_prefix = replicate 10 0 @ [255, 255]"

fun As16 :: "netip \<Rightarrow> byte list" where
  "As16 (V4 bs) = v4_prefix @ bs"
| "As16 (V6 bs z) = bs"

fun zone_of :: "netip \<Rightarrow> string" where
  "zone_of (V4 bs) = []"
| "zone_of (V6 bs z) = z"

fun bit_len :: "netip \<Rightarrow> nat" where
  "bit_len (V4 bs) = 32"
| "bit_len (V6 bs z) = 128"

text \<open>\<open>net.ParseIP\<close>: sixteen bytes; an address with a zone is refused.\<close>

definition ParseIP :: "string \<Rightarrow> byte list option" where
  "ParseIP s =
     (case ParseAddr s of
        None \<Rightarrow> None
      | Some a \<Rightarrow> if zone_of a \<noteq> [] then None else Some (As16 a))"

definition To4 :: "byte list \<Rightarrow> byte list option" where
  "To4 ip =
     (if length ip = 4 then Some ip
      else if length ip = 16 \<and> take 12 ip = v4_prefix then Some (drop 12 ip)
      else None)"

text \<open>\<open>IP.Equal\<close>: an IPv4 address and its IPv6 form are equal.\<close>

definition ip_Equal :: "byte list \<Rightarrow> byte list \<Rightarrow> bool" where
  "ip_Equal a b \<longleftrightarrow>
     (if length a = length b then a = b
      else if length a = 4 \<and> length b = 16 then v4_prefix @ a = b
      else if length a = 16 \<and> length b = 4 then a = v4_prefix @ b
      else False)"

section \<open>Networks\<close>

record ipnet =
  net_ip :: "byte list"
  net_mask :: "byte list"

definition mask_byte :: "nat \<Rightarrow> byte" where
  "mask_byte k = (if 8 \<le> k then 255 else NOT (drop_bit k 255))"

definition CIDRMask :: "nat \<Rightarrow> nat \<Rightarrow> byte list" where
  "CIDRMask ones bits = map (\<lambda>i. mask_byte (ones - 8 * i)) [0..<bits div 8]"

definition and_bytes :: "byte list \<Rightarrow> byte list \<Rightarrow> byte list" where
  "and_bytes xs ys = map2 (AND) xs ys"

text \<open>\<open>IP.Mask\<close> of a sixteen-byte address.\<close>

definition ip_Mask :: "byte list \<Rightarrow> byte list \<Rightarrow> byte list" where
  "ip_Mask ip m =
     (let ip' = (if length m = 4 \<and> length ip = 16 \<and> take 12 ip = v4_prefix then drop 12 ip else ip)
      in if length ip' \<noteq> length m then [] else and_bytes ip' m)"

definition ParseCIDR :: "string \<Rightarrow> (byte list \<times> ipnet) option" where
  "ParseCIDR s =
     (let addr = takeWhile (\<lambda>c. c \<noteq> CHR ''/'') s; r = dropWhile (\<lambda>c. c \<noteq> CHR ''/'') s
      in case r of
           [] \<Rightarrow> None
         | _ # len \<Rightarrow>
             (case ParseAddr addr of
                None \<Rightarrow> None
              | Some a \<Rightarrow>
                  if zone_of a \<noteq> [] then None
                  else if len = [] \<or> \<not> list_all is_digit len \<or> bit_len a < dec_val len then None
                  else let m = CIDRMask (dec_val len) (bit_len a)
                       in Some (As16 a, \<lparr>net_ip = ip_Mask (As16 a) m, net_mask = m\<rparr>)))"

definition network_number_and_mask :: "ipnet \<Rightarrow> (byte list \<times> byte list) option" where
  "network_number_and_mask n =
     (let ip = (case To4 (net_ip n) of Some x \<Rightarrow> x | None \<Rightarrow> net_ip n)
      in if length ip \<noteq> 4 \<and> length ip \<noteq> 16 then None
         else if length (net_mask n) = 4 then
           (if length ip \<noteq> 4 then None else Some (ip, net_mask n))
         else if length (net_mask n) = 16 then
           Some (ip, if length ip = 4 then drop 12 (net_mask n) else net_mask n)
         else None)"

definition Contains :: "ipnet \<Rightarrow> byte list \<Rightarrow> bool" where
  "Contains n ip =
     (case network_number_and_mask n of
        None \<Rightarrow> False
      | Some (nn, m) \<Rightarrow>
          (let x = (case To4 ip of Some y \<Rightarrow> y | None \<Rightarrow> ip)
           in length x = length nn \<and> and_bytes nn m = and_bytes x m))"

text \<open>
  Printing: \<open>IP.String\<close> and \<open>IPNet.String\<close>. An IPv6 address elides its first longest run
  of at least two zero groups. The masks of \<open>ParseCIDR\<close> are all of the form of \<open>CIDRMask\<close>.
\<close>

definition pop_count8 :: "nat \<Rightarrow> nat" where
  "pop_count8 b = sum_list (map (\<lambda>k. b div 2 ^ k mod 2) [0..<8])"

fun groups16 :: "byte list \<Rightarrow> nat list" where
  "groups16 (a # b # r) = (unat a * 256 + unat b) # groups16 r"
| "groups16 _ = []"

fun strip_zeros :: "string \<Rightarrow> string" where
  "strip_zeros [] = []"
| "strip_zeros [c] = [c]"
| "strip_zeros (c # d # s) = (if c = CHR ''0'' then strip_zeros (d # s) else c # d # s)"

definition hex_group :: "nat \<Rightarrow> string" where
  "hex_group n = strip_zeros (map (\<lambda>k. hex_digit (n div 16 ^ k mod 16)) [3, 2, 1, 0])"

definition zero_run :: "nat list \<Rightarrow> nat \<Rightarrow> nat" where
  "zero_run gs i = length (takeWhile (\<lambda>g. g = 0) (drop i gs))"

definition longest_zero_run :: "nat list \<Rightarrow> nat \<times> nat" where
  "longest_zero_run gs =
     foldl (\<lambda>(start, n) i. let l = zero_run gs i in if 2 \<le> l \<and> n < l then (i, l) else (start, n))
       (0, 0) [0..<length gs]"

definition ipv6_text :: "byte list \<Rightarrow> string" where
  "ipv6_text bs =
     (let gs = groups16 bs; (start, n) = longest_zero_run gs
      in if n = 0 then Join (map hex_group gs) '':''
         else Join (map hex_group (take start gs)) '':'' @ ''::''
              @ Join (map hex_group (drop (start + n) gs)) '':'')"

definition ip_text :: "byte list \<Rightarrow> string" where
  "ip_text ip = (case To4 ip of
     Some bs \<Rightarrow> Join (map (\<lambda>b. nat_str (unat b)) bs) ''.''
   | None \<Rightarrow> ipv6_text ip)"

definition ipnet_text :: "ipnet \<Rightarrow> string" where
  "ipnet_text n =
     (case network_number_and_mask n of
        None \<Rightarrow> ''<nil>''
      | Some (nn, m) \<Rightarrow> ip_text nn @ ''/'' @ nat_str (sum_list (map (\<lambda>b. pop_count8 (unat b)) m)))"

section \<open>Lemmas\<close>

lemma parse_octet_nat_str: "n < 256 \<Longrightarrow> parse_octet (nat_str n) = Some (word_of_nat n)"
proof -
  assume n: "n < 256"
  have "hd (nat_str n) \<noteq> CHR ''0''" if "1 < length (nat_str n)"
  proof (cases "n = 0")
    case True
    with that show ?thesis by (simp add: nat_str.simps)
  next
    case False
    then show ?thesis by (simp add: nat_str_no_leading_zero)
  qed
  with n show ?thesis by (auto simp: parse_octet_def nat_str_digits)
qed

lemma digit_set_not: "\<not> is_digit c \<Longrightarrow> c \<notin> set (nat_str n)"
  using nat_str_digits [of n] by (auto simp: list_all_iff)

lemma split_on_dotted4:
  "split_on CHR ''.'' (nat_str a @ ''.'' @ nat_str b @ ''.'' @ nat_str c @ ''.'' @ nat_str d)
   = [nat_str a, nat_str b, nat_str c, nat_str d]"
proof -
  have "CHR ''.'' \<notin> set (nat_str n)" for n
    by (rule digit_set_not) (simp add: is_digit_def)
  then show ?thesis by (simp add: split_on_append split_on_no_sep)
qed

text \<open>Dotted decimal text of four bytes parses to these bytes.\<close>

lemma parse_ipv4_dotted:
  "a < 256 \<Longrightarrow> b < 256 \<Longrightarrow> c < 256 \<Longrightarrow> d < 256 \<Longrightarrow>
   parse_ipv4 (nat_str a @ ''.'' @ nat_str b @ ''.'' @ nat_str c @ ''.'' @ nat_str d)
   = Some [word_of_nat a, word_of_nat b, word_of_nat c, word_of_nat d]"
  unfolding parse_ipv4_def split_on_dotted4 by (simp add: parse_octet_nat_str)

lemma dropWhile_dotted:
  "dropWhile (\<lambda>c. c \<notin> set ''.:%'') (nat_str a @ ''.'' @ s) = ''.'' @ s"
proof -
  have "\<forall>c \<in> set (nat_str a). c \<notin> set ''.:%''"
    using digit_set_not by (auto simp: is_digit_def)
  then show ?thesis by (simp add: dropWhile_append2)
qed

lemma ParseAddr_dotted:
  "a < 256 \<Longrightarrow> b < 256 \<Longrightarrow> c < 256 \<Longrightarrow> d < 256 \<Longrightarrow>
   ParseAddr (nat_str a @ ''.'' @ nat_str b @ ''.'' @ nat_str c @ ''.'' @ nat_str d)
   = Some (V4 [word_of_nat a, word_of_nat b, word_of_nat c, word_of_nat d])"
  unfolding ParseAddr_def dropWhile_dotted
  by (simp only: append_Cons append_Nil list.case parse_ipv4_dotted [unfolded append_Cons append_Nil]) simp

lemma To4_v4 [simp]: "length bs = 4 \<Longrightarrow> To4 (v4_prefix @ bs) = Some bs"
  by (simp add: To4_def v4_prefix_def)

end
