(* ===== verification/Net_Config.thy ===== *)
theory Net_Config
  imports Go_Errors Net_Addr
begin

text \<open>
  \<open>internal/core/network/config.go\<close> and \<open>policy.go\<close>: the description of a guest's
  network interface, its validation, and the egress contract it stands for.
\<close>

record net_config =
  TapName :: string
  HostIP :: string
  GuestIP :: string
  AllowedPorts :: "int list"
  UplinkInterface :: string

definition net_DefaultConfig :: "string \<Rightarrow> net_config" where
  "net_DefaultConfig tap =
     \<lparr>TapName = tap, HostIP = ''172.16.0.1'', GuestIP = ''172.16.0.2/24'',
      AllowedPorts = [443, 80, 53], UplinkInterface = ''eth0''\<rparr>"

fun check_ports :: "int list \<Rightarrow> error option" where
  "check_ports [] = None"
| "check_ports (p # ps) =
     (if p < 1 \<or> 65535 < p then Some (Errorf (''invalid allowed port '' @ Itoa p))
      else check_ports ps)"

definition net_Validate :: "net_config \<Rightarrow> error option" where
  "net_Validate n =
     (if TapName n = [] then Some (Errorf ''tap name is required'')
      else if UplinkInterface n = [] then Some (Errorf ''uplink interface is required'')
      else case ParseIP (HostIP n) of
        None \<Rightarrow> Some (Errorf (''invalid host IP '' @ Quote (HostIP n)))
      | Some hostIP \<Rightarrow>
          if To4 hostIP = None
          then Some (Errorf (''IPv6 host IP '' @ Quote (HostIP n) @ '' is unsupported''))
          else case ParseCIDR (GuestIP n) of
            None \<Rightarrow> Some (Wrapf (''invalid guest IP/CIDR '' @ Quote (GuestIP n) @ '': '')
                         (Errorf (''invalid CIDR address: '' @ GuestIP n)) [])
          | Some (guestIP, guestNet) \<Rightarrow>
              if To4 guestIP = None
              then Some (Errorf (''IPv6 guest IP '' @ Quote (GuestIP n) @ '' is unsupported''))
              else if \<not> Contains guestNet guestIP
              then Some (Errorf (''guest IP '' @ Quote (ip_text guestIP) @ '' is not valid for network ''
                                  @ Quote (ipnet_text guestNet)))
              else if \<not> Contains guestNet hostIP
              then Some (Errorf (''host IP '' @ Quote (HostIP n) @ '' is not in guest network ''
                                  @ Quote (ipnet_text guestNet)))
              else check_ports (AllowedPorts n))"

text \<open>
  \<open>AllowsTCPDestination\<close>: the allowed ports are ports of the host gateway only. The
  destination is a \<open>net.IP\<close>, or \<open>nil\<close>.
\<close>

definition AllowsTCPDestination :: "net_config \<Rightarrow> byte list option \<Rightarrow> int \<Rightarrow> bool" where
  "AllowsTCPDestination c destination port =
     (case (ParseIP (HostIP c), destination) of
        (Some gateway, Some dst) \<Rightarrow>
          if \<not> ip_Equal gateway dst then False
          else list_ex (\<lambda>allowed. allowed = port) (AllowedPorts c)
      | _ \<Rightarrow> False)"

section \<open>Lemmas\<close>

lemma check_ports_None_iff: "check_ports ps = None \<longleftrightarrow> (\<forall>p \<in> set ps. 1 \<le> p \<and> p \<le> 65535)"
  by (induction ps) auto

lemma Contains_own:
  "length a = 4 \<Longrightarrow> length m = 4 \<Longrightarrow>
   Contains \<lparr>net_ip = and_bytes a m, net_mask = m\<rparr> ip \<longleftrightarrow>
     (let x = (case To4 ip of Some y \<Rightarrow> y | None \<Rightarrow> ip)
      in length x = 4 \<and> and_bytes (and_bytes a m) m = and_bytes x m)"
  by (simp add: Contains_def network_number_and_mask_def To4_def and_bytes_def Let_def)

lemma and_bytes_idem: "length a = length m \<Longrightarrow> and_bytes (and_bytes a m) m = and_bytes a m"
  by (induction a m rule: list_induct2) (simp_all add: and_bytes_def and.assoc)

end
