(* ===== verification/Ipam.thy ===== *)
theory Ipam
  imports Net_Config
begin

text \<open>
  \<open>internal/core/network/ipam.go\<close>: the pool of guest subnets and VSOCK context
  identifiers. Both free lists are stacks whose top is the end of the slice. The hash of
  \<open>crypto/sha256\<close> is the argument \<open>sha\<close>.
\<close>

section \<open>The pool\<close>

definition MaxSubnets :: nat where "MaxSubnets = 256"
definition MinGuestCID :: nat where "MinGuestCID = 3"
definition MaxGuestCID :: nat where "MaxGuestCID = 1024"

record ipam =
  freeSubnets :: "16 word list"
  usedSubnets :: "16 word set"
  freeCIDs :: "32 word list"
  usedCIDs :: "32 word set"

definition NewIPAMPool :: ipam where
  "NewIPAMPool =
     \<lparr>freeSubnets = map word_of_nat [0..<MaxSubnets], usedSubnets = {},
      freeCIDs = map word_of_nat [MinGuestCID..<Suc MaxGuestCID], usedCIDs = {}\<rparr>"

type_synonym hash = "byte list \<Rightarrow> byte list"

definition uniqueTapName :: "hash \<Rightarrow> string \<Rightarrow> string" where
  "uniqueTapName sha vmID = ''shy'' @ hex_encode (take 4 (sha (bytes_of vmID)))"

definition host_ip_text :: "16 word \<Rightarrow> string" where
  "host_ip_text i = ''172.16.'' @ nat_str (unat i) @ ''.1''"

definition guest_ip_text :: "16 word \<Rightarrow> string" where
  "guest_ip_text i = ''172.16.'' @ nat_str (unat i) @ ''.2/24''"

definition Allocate ::
  "hash \<Rightarrow> string \<Rightarrow> net_config \<Rightarrow> ipam \<Rightarrow> (net_config \<times> 32 word) result \<times> ipam" where
  "Allocate sha vmID baseNet p =
     (if freeSubnets p = [] then
        (Inl (Errorf (''ipam: subnet pool exhausted (max '' @ nat_str MaxSubnets @ '' active VMs)'')), p)
      else if freeCIDs p = [] then
        (Inl (Errorf ''ipam: VSOCK CID pool exhausted''), p)
      else
        let subnetIdx = last (freeSubnets p); cid = last (freeCIDs p);
            cfg = baseNet\<lparr>HostIP := host_ip_text subnetIdx, GuestIP := guest_ip_text subnetIdx,
                          TapName := uniqueTapName sha vmID\<rparr>
        in (Inr (cfg, cid),
            p\<lparr>freeSubnets := butlast (freeSubnets p), usedSubnets := insert subnetIdx (usedSubnets p),
              freeCIDs := butlast (freeCIDs p), usedCIDs := insert cid (usedCIDs p)\<rparr>))"

text \<open>The subnet index that \<open>Release\<close> reads back from the guest address.\<close>

definition subnet_of :: "string \<Rightarrow> 16 word option" where
  "subnet_of guestIP =
     (case ParseCIDR guestIP of
        None \<Rightarrow> None
      | Some (ip, _) \<Rightarrow>
          (case To4 ip of None \<Rightarrow> None | Some ip4 \<Rightarrow> Some (word_of_nat (unat (ip4 ! 2)))))"

definition release_subnet :: "16 word option \<Rightarrow> ipam \<Rightarrow> ipam" where
  "release_subnet idx p =
     (case idx of
        None \<Rightarrow> p
      | Some i \<Rightarrow>
          if i \<in> usedSubnets p
          then p\<lparr>usedSubnets := usedSubnets p - {i}, freeSubnets := freeSubnets p @ [i]\<rparr>
          else p)"

definition release_cid :: "32 word \<Rightarrow> ipam \<Rightarrow> ipam" where
  "release_cid cid p =
     (if cid \<in> usedCIDs p
      then p\<lparr>usedCIDs := usedCIDs p - {cid}, freeCIDs := freeCIDs p @ [cid]\<rparr>
      else p)"

definition ipam_Release :: "string \<Rightarrow> 32 word \<Rightarrow> ipam \<Rightarrow> ipam" where
  "ipam_Release guestIP cid p = release_cid cid (release_subnet (subnet_of guestIP) p)"

section \<open>Invariant\<close>

text \<open>
  Every subnet index and every guest CID is either free, exactly once, or in use.
\<close>

definition all_subnets :: "16 word set" where
  "all_subnets = word_of_nat ` {0..<MaxSubnets}"

definition all_cids :: "32 word set" where
  "all_cids = word_of_nat ` {MinGuestCID..MaxGuestCID}"

definition partitioned :: "'a set \<Rightarrow> 'a list \<Rightarrow> 'a set \<Rightarrow> bool" where
  "partitioned U free used \<longleftrightarrow>
     distinct free \<and> set free \<inter> used = {} \<and> set free \<union> used = U"

definition ipam_inv :: "ipam \<Rightarrow> bool" where
  "ipam_inv p \<longleftrightarrow>
     partitioned all_subnets (freeSubnets p) (usedSubnets p)
     \<and> partitioned all_cids (freeCIDs p) (usedCIDs p)"

section \<open>Lemmas\<close>

lemma partitioned_take:
  "partitioned U free used \<Longrightarrow> free \<noteq> [] \<Longrightarrow>
   partitioned U (butlast free) (insert (last free) used)"
  by (cases free rule: rev_cases) (auto simp: partitioned_def)

lemma partitioned_put:
  "partitioned U free used \<Longrightarrow> x \<in> used \<Longrightarrow> partitioned U (free @ [x]) (used - {x})"
  by (auto simp: partitioned_def)

lemma partitioned_last:
  "partitioned U free used \<Longrightarrow> free \<noteq> [] \<Longrightarrow> last free \<in> U - used"
  using last_in_set [of free] unfolding partitioned_def by blast

lemma subnet_unat: "i \<in> all_subnets \<Longrightarrow> unat i < 256"
  by (auto simp: all_subnets_def MaxSubnets_def unat_of_nat take_bit_nat_eq_self_iff)

lemma octet_texts: "nat_str 172 = ''172''" "nat_str 16 = ''16''" "nat_str 2 = ''2''" "nat_str 1 = ''1''"
  by code_simp+

lemma guest_ip_text_dotted:
  "guest_ip_text i =
     (nat_str 172 @ ''.'' @ nat_str 16 @ ''.'' @ nat_str (unat i) @ ''.'' @ nat_str 2) @ ''/24''"
  unfolding guest_ip_text_def octet_texts by simp

lemma host_ip_text_dotted:
  "host_ip_text i = nat_str 172 @ ''.'' @ nat_str 16 @ ''.'' @ nat_str (unat i) @ ''.'' @ nat_str 1"
  unfolding host_ip_text_def octet_texts by simp

lemma ParseIP_host: "unat i < 256 \<Longrightarrow>
   ParseIP (host_ip_text i) = Some (v4_prefix @ [172, 16, word_of_nat (unat i), 1])"
  unfolding host_ip_text_dotted ParseIP_def
  using ParseAddr_dotted [of 172 16 "unat i" 1] by simp

lemma guest_slash: "CHR ''/'' \<notin> set (nat_str a @ ''.'' @ nat_str b @ ''.'' @ nat_str c @ ''.'' @ nat_str d)"
  using digit_set_not [of "CHR ''/''"] by (simp add: is_digit_def)

lemma takeWhile_guest:
  "takeWhile (\<lambda>c. c \<noteq> CHR ''/'') (guest_ip_text i)
     = nat_str 172 @ ''.'' @ nat_str 16 @ ''.'' @ nat_str (unat i) @ ''.'' @ nat_str 2"
  "dropWhile (\<lambda>c. c \<noteq> CHR ''/'') (guest_ip_text i) = ''/24''"
proof -
  let ?a = "nat_str 172 @ ''.'' @ nat_str 16 @ ''.'' @ nat_str (unat i) @ ''.'' @ nat_str 2"
  have "\<forall>c \<in> set ?a. c \<noteq> CHR ''/''" using guest_slash by metis
  then show "takeWhile (\<lambda>c. c \<noteq> CHR ''/'') (guest_ip_text i) = ?a"
    "dropWhile (\<lambda>c. c \<noteq> CHR ''/'') (guest_ip_text i) = ''/24''"
    unfolding guest_ip_text_dotted by (rule until_sep)+
qed

lemma and_255: "(x :: 8 word) AND 255 = x"
proof -
  have "(255 :: 8 word) = - 1" by code_simp
  then show ?thesis by (simp only: and.right_neutral)
qed

lemma mask24: "CIDRMask 24 32 = [255, 255, 255, 0]"
  by code_simp

lemma ParseCIDR_guest: "unat i < 256 \<Longrightarrow>
   ParseCIDR (guest_ip_text i) =
     Some (v4_prefix @ [172, 16, word_of_nat (unat i), 2],
           \<lparr>net_ip = [172, 16, word_of_nat (unat i), 0], net_mask = [255, 255, 255, 0]\<rparr>)"
proof -
  assume i: "unat i < 256"
  have d: "dec_val ''24'' = 24" "list_all is_digit ''24''" by code_simp+
  have a: "ParseAddr (nat_str 172 @ ''.'' @ nat_str 16 @ ''.'' @ nat_str (unat i) @ ''.'' @ nat_str 2)
             = Some (V4 [172, 16, word_of_nat (unat i), 2])"
    using ParseAddr_dotted [of 172 16 "unat i" 2] i by simp
  show ?thesis
    unfolding ParseCIDR_def Let_def takeWhile_guest list.case a option.case d
    using d by (simp add: mask24 ip_Mask_def v4_prefix_def and_bytes_def and_255)
qed

lemma ucast_octet: "unat (i :: 16 word) < 256 \<Longrightarrow> ucast (ucast i :: 8 word) = i"
  by (rule unsigned_word_eqI [where 'a = nat]) (simp add: unsigned_ucast_eq unsigned_take_bit_eq take_bit_nat_eq_self)

lemma subnet_of_guest: "unat i < 256 \<Longrightarrow> subnet_of (guest_ip_text i) = Some i"
  using ucast_octet [of i]
  by (simp add: subnet_of_def ParseCIDR_guest To4_def v4_prefix_def)

lemma ipam_inv_New: "ipam_inv NewIPAMPool"
proof -
  have "inj_on (word_of_nat :: nat \<Rightarrow> 16 word) {0..<MaxSubnets}"
    "inj_on (word_of_nat :: nat \<Rightarrow> 32 word) {MinGuestCID..<Suc MaxGuestCID}"
    by (auto intro!: inj_onI
        simp: MaxSubnets_def MinGuestCID_def MaxGuestCID_def word_of_nat_eq_iff take_bit_nat_eq_self)
  then show ?thesis
    by (simp add: ipam_inv_def NewIPAMPool_def partitioned_def distinct_map all_subnets_def
        all_cids_def atLeastLessThanSuc_atLeastAtMost del: upt_Suc)
qed

text \<open>What a successful \<open>Allocate\<close> hands out and leaves behind.\<close>

lemma Allocate_cases:
  assumes "Allocate sha vmID base p = (r, p')"
  obtains (subnets) "freeSubnets p = []" "p' = p"
      "r = Inl (Errorf (''ipam: subnet pool exhausted (max '' @ nat_str MaxSubnets @ '' active VMs)''))"
    | (cids) "freeSubnets p \<noteq> []" "freeCIDs p = []" "p' = p"
      "r = Inl (Errorf ''ipam: VSOCK CID pool exhausted'')"
    | (ok) fs i fc cid where "freeSubnets p = fs @ [i]" "freeCIDs p = fc @ [cid]"
      "r = Inr (base\<lparr>HostIP := host_ip_text i, GuestIP := guest_ip_text i,
                    TapName := uniqueTapName sha vmID\<rparr>, cid)"
      "p' = p\<lparr>freeSubnets := fs, usedSubnets := insert i (usedSubnets p),
              freeCIDs := fc, usedCIDs := insert cid (usedCIDs p)\<rparr>"
proof (cases "freeSubnets p" rule: rev_cases)
  case Nil
  then show ?thesis using assms by (intro subnets) (simp_all add: Allocate_def)
next
  case fs: (snoc fs i)
  show ?thesis
  proof (cases "freeCIDs p" rule: rev_cases)
    case Nil
    then show ?thesis using assms fs by (intro cids) (simp_all add: Allocate_def)
  next
    case (snoc fc cid)
    then show ?thesis using assms fs by (intro ok [of fs i fc cid]) (simp_all add: Allocate_def)
  qed
qed

lemma ipam_inv_Allocate: "ipam_inv p \<Longrightarrow> ipam_inv (snd (Allocate sha vmID base p))"
  by (auto simp: Allocate_def Let_def ipam_inv_def partitioned_take)

lemma release_subnet_inv: "ipam_inv p \<Longrightarrow> ipam_inv (release_subnet idx p)"
  by (auto simp: release_subnet_def ipam_inv_def partitioned_put split: option.split)

lemma release_cid_inv: "ipam_inv p \<Longrightarrow> ipam_inv (release_cid cid p)"
  by (auto simp: release_cid_def ipam_inv_def partitioned_put)

lemma ipam_inv_Release: "ipam_inv p \<Longrightarrow> ipam_inv (ipam_Release guestIP cid p)"
  by (simp add: ipam_Release_def release_subnet_inv release_cid_inv)

lemma ipam_inv_subnet: "ipam_inv p \<Longrightarrow> freeSubnets p = fs @ [i] \<Longrightarrow> unat i < 256 \<and> i \<notin> usedSubnets p"
  by (auto simp: ipam_inv_def partitioned_def intro!: subnet_unat)

lemma ipam_inv_cid: "ipam_inv p \<Longrightarrow> freeCIDs p = fc @ [cid] \<Longrightarrow> cid \<in> all_cids - usedCIDs p"
  by (auto simp: ipam_inv_def partitioned_def)

lemma ipam_Release_used:
  "usedSubnets (ipam_Release g c p) = usedSubnets p - set_option (subnet_of g)"
  "usedCIDs (ipam_Release g c p) = usedCIDs p - {c}"
  by (auto simp: ipam_Release_def release_cid_def release_subnet_def split: option.split)

lemma partitioned_card:
  assumes "partitioned U free used" "finite U"
  shows "card used + length free = card U"
proof -
  have "finite used" using assms by (auto simp: partitioned_def intro: finite_subset)
  then have "card (set free \<union> used) = card (set free) + card used"
    using assms by (intro card_Un_disjoint) (auto simp: partitioned_def)
  then show ?thesis using assms by (simp add: partitioned_def distinct_card)
qed

lemma ipam_inv_card:
  assumes "ipam_inv p"
  shows "card (usedSubnets p) + length (freeSubnets p) = MaxSubnets"
    and "card (usedCIDs p) + length (freeCIDs p) = Suc MaxGuestCID - MinGuestCID"
proof -
  have fin: "finite all_subnets" "finite all_cids" by (simp_all add: all_subnets_def all_cids_def)
  have new: "partitioned all_subnets (freeSubnets NewIPAMPool) {}"
    "partitioned all_cids (freeCIDs NewIPAMPool) {}"
    using ipam_inv_New unfolding ipam_inv_def by (simp_all add: NewIPAMPool_def del: upt_Suc)
  show "card (usedSubnets p) + length (freeSubnets p) = MaxSubnets"
    using partitioned_card [OF new(1) fin(1)] partitioned_card [OF _ fin(1)] assms
    by (simp add: ipam_inv_def NewIPAMPool_def del: upt_Suc)
  show "card (usedCIDs p) + length (freeCIDs p) = Suc MaxGuestCID - MinGuestCID"
    using partitioned_card [OF new(2) fin(2)] partitioned_card [OF _ fin(2)] assms
    by (simp add: ipam_inv_def NewIPAMPool_def del: upt_Suc)
qed

lemma allocated_valid:
  assumes "unat i < 256" and "UplinkInterface base \<noteq> []" and "check_ports (AllowedPorts base) = None"
  shows "net_Validate (base\<lparr>HostIP := host_ip_text i, GuestIP := guest_ip_text i,
                            TapName := uniqueTapName sha vmID\<rparr>) = None"
  using assms(2,3) ParseIP_host [OF assms(1)] ParseCIDR_guest [OF assms(1)]
  by (simp add: net_Validate_def uniqueTapName_def To4_def v4_prefix_def Contains_def
      network_number_and_mask_def and_bytes_def Let_def and_255)

lemma last_New: "last (freeSubnets NewIPAMPool) = 255" "last (freeCIDs NewIPAMPool) = 1024"
  by (simp_all add: NewIPAMPool_def last_map MaxSubnets_def MinGuestCID_def MaxGuestCID_def
      del: upt_Suc upt_rec_numeral)

lemma Allocate_New:
  "Allocate sha vmID base NewIPAMPool =
     (Inr (base\<lparr>HostIP := host_ip_text 255, GuestIP := guest_ip_text 255,
               TapName := uniqueTapName sha vmID\<rparr>, 1024),
      \<lparr>freeSubnets = butlast (freeSubnets NewIPAMPool), usedSubnets = {255},
       freeCIDs = butlast (freeCIDs NewIPAMPool), usedCIDs = {1024}\<rparr>)"
proof -
  have "freeSubnets NewIPAMPool \<noteq> []" "freeCIDs NewIPAMPool \<noteq> []"
    "usedSubnets NewIPAMPool = {}" "usedCIDs NewIPAMPool = {}"
    by (simp_all add: NewIPAMPool_def MaxSubnets_def MinGuestCID_def MaxGuestCID_def
        del: upt_rec_numeral)
  then show ?thesis by (simp add: Allocate_def last_New)
qed

section \<open>Properties\<close>

text \<open>
  Isolation of leases. From a pool in which every subnet and CID is accounted for, a
  successful \<open>Allocate\<close> hands out a subnet, which \<open>Release\<close> can read back from the guest
  address of the returned configuration, and a guest CID, neither of which is in use, marks
  exactly these two as used, and leaves every subnet and CID accounted for.
\<close>

theorem Allocate_fresh:
  assumes "ipam_inv p" and "Allocate sha vmID base p = (Inr (cfg, cid), p')"
  shows "ipam_inv p'
    \<and> cid \<in> all_cids - usedCIDs p \<and> usedCIDs p' = insert cid (usedCIDs p)
    \<and> (\<exists>i \<in> all_subnets - usedSubnets p.
          subnet_of (GuestIP cfg) = Some i \<and> usedSubnets p' = insert i (usedSubnets p))"
proof -
  have "ipam_inv p'" using ipam_inv_Allocate [OF assms(1), of sha vmID base] assms(2) by simp
  moreover have "cid \<in> all_cids - usedCIDs p \<and> usedCIDs p' = insert cid (usedCIDs p)
     \<and> (\<exists>i \<in> all_subnets - usedSubnets p.
          subnet_of (GuestIP cfg) = Some i \<and> usedSubnets p' = insert i (usedSubnets p))"
    using assms(2)
  proof (cases rule: Allocate_cases)
    case (ok fs i fc cid')
    have "i \<in> all_subnets" using assms(1) ok(1) by (auto simp: ipam_inv_def partitioned_def)
    then show ?thesis
      using ok ipam_inv_subnet [OF assms(1) ok(1)] ipam_inv_cid [OF assms(1) ok(2)]
      by (auto simp: subnet_of_guest)
  qed auto
  ultimately show ?thesis by blast
qed

theorem Allocate_fresh_witness:
  "(\<exists>cfg cid p'. Allocate (\<lambda>_. replicate 32 0) ''vm'' (net_DefaultConfig ''tap'') NewIPAMPool
       = (Inr (cfg, cid), p') \<and> ipam_inv p' \<and> cid = 1024 \<and> subnet_of (GuestIP cfg) = Some 255)"
  using Allocate_fresh [OF ipam_inv_New Allocate_New [of "\<lambda>_. replicate 32 0" "''vm''" "net_DefaultConfig ''tap''"]]
  by (simp add: Allocate_New)

text \<open>
  Allocation round trip. Releasing with the guest address and the CID that \<open>Allocate\<close>
  returned restores the pool exactly, free lists and their order included, and a second
  release of the same lease changes nothing.
\<close>

theorem Allocate_Release:
  assumes "ipam_inv p" and "Allocate sha vmID base p = (Inr (cfg, cid), p')"
  shows "ipam_Release (GuestIP cfg) cid p' = p \<and> ipam_Release (GuestIP cfg) cid p = p"
  using assms(2)
proof (cases rule: Allocate_cases)
  case (ok fs i fc cid')
  then show ?thesis
    using ipam_inv_subnet [OF assms(1) ok(1)] ipam_inv_cid [OF assms(1) ok(2)]
    by (simp add: ipam_Release_def subnet_of_guest release_subnet_def release_cid_def)
qed auto

theorem Allocate_Release_witness:
  "ipam_Release (guest_ip_text 255) 1024 (snd (Allocate (\<lambda>_. []) ''vm'' (net_DefaultConfig ''tap'') NewIPAMPool))
     = NewIPAMPool"
  using Allocate_Release [OF ipam_inv_New Allocate_New [of "\<lambda>_. []" "''vm''" "net_DefaultConfig ''tap''"]]
  by (simp add: Allocate_New)

text \<open>
  Exhaustion. Under the invariant, \<open>Allocate\<close> fails exactly when 256 subnets or 1022 guest
  CIDs are in use, and a failed call leaves the pool as it was.
\<close>

theorem Allocate_error_iff:
  assumes "ipam_inv p"
  shows "((\<exists>e. fst (Allocate sha vmID base p) = Inl e)
            \<longleftrightarrow> card (usedSubnets p) = 256 \<or> card (usedCIDs p) = 1022)
         \<and> (\<forall>e. fst (Allocate sha vmID base p) = Inl e \<longrightarrow> snd (Allocate sha vmID base p) = p)"
proof -
  have "card (usedSubnets p) = 256 \<longleftrightarrow> freeSubnets p = []" "card (usedCIDs p) = 1022 \<longleftrightarrow> freeCIDs p = []"
    using ipam_inv_card [OF assms] by (auto simp: MaxSubnets_def MinGuestCID_def MaxGuestCID_def)
  then show ?thesis by (simp add: Allocate_def Let_def)
qed

theorem Allocate_error_iff_witness:
  "let full = NewIPAMPool\<lparr>freeSubnets := [], usedSubnets := all_subnets\<rparr>;
       (r, p) = Allocate (\<lambda>_. []) ''vm'' (net_DefaultConfig ''tap'') full
   in (\<exists>e. r = Inl e) \<and> p = full"
proof -
  have "ipam_inv (NewIPAMPool\<lparr>freeSubnets := [], usedSubnets := all_subnets\<rparr>)" (is "ipam_inv ?full")
    using ipam_inv_New by (simp add: ipam_inv_def partitioned_def)
  from Allocate_error_iff [OF this, of "\<lambda>_. []" "''vm''" "net_DefaultConfig ''tap''"] ipam_inv_card(1) [OF this]
  show ?thesis unfolding Let_def case_prod_beta by (auto simp: MaxSubnets_def)
qed

text \<open>
  Allocated configurations are valid. Whatever the pool hands out passes \<open>Validate\<close>,
  provided the base configuration names an uplink and its ports are in range: the host and the
  guest address parse back to \<open>172.16.i.1\<close> and \<open>172.16.i.2/24\<close> in one network.
\<close>

theorem Allocate_valid:
  assumes "ipam_inv p" and "Allocate sha vmID base p = (Inr (cfg, cid), p')"
    and "UplinkInterface base \<noteq> []" and "\<forall>port \<in> set (AllowedPorts base). 1 \<le> port \<and> port \<le> 65535"
  shows "net_Validate cfg = None"
  using assms(2)
proof (cases rule: Allocate_cases)
  case (ok fs i fc cid')
  have i: "unat i < 256" using ipam_inv_subnet [OF assms(1) ok(1)] by simp
  have "check_ports (AllowedPorts base) = None" using assms(4) by (simp add: check_ports_None_iff)
  then show ?thesis using ok allocated_valid [OF i assms(3)] by simp
qed auto

theorem Allocate_valid_witness:
  "\<exists>cfg cid p'. Allocate (\<lambda>_. []) ''vm'' (net_DefaultConfig ''tap'') NewIPAMPool = (Inr (cfg, cid), p')
     \<and> net_Validate cfg = None"
  using Allocate_valid [OF ipam_inv_New Allocate_New [of "\<lambda>_. []" "''vm''" "net_DefaultConfig ''tap''"]]
  by (simp add: Allocate_New net_DefaultConfig_def)

end
