(* ===== verification/Vmm_Config.thy ===== *)
theory Vmm_Config
  imports Ipam
begin

text \<open>
  \<open>internal/core/vmm/config.go\<close>, \<open>firecracker.go\<close>, \<open>lifecycle.go\<close> and \<open>snapshot.go\<close>: the runtime
  configuration of a microVM, the checks on identifiers and host files, the derived MAC address and
  kernel command line, and the snapshot hashes. The file system is an argument: \<open>lstat\<close> answers
  with the kind of a file and \<open>read_file\<close> with its bytes, or with an error.
\<close>

section \<open>Configuration\<close>

record vm_config =
  KernelPath :: string
  RootfsPath :: string
  VCPUCount :: int
  MemSizeMB :: int
  BootArgs :: string
  GuestAgentPath :: string

record snapshot_config =
  MemFilePath :: string
  StateFilePath :: string
  EnableResume :: bool

record snapshot_integrity =
  ExpectedMemHash :: string
  ExpectedStateHash :: string
  KernelHash :: string
  RootfsHash :: string

definition vm_DefaultConfig :: vm_config where
  "vm_DefaultConfig =
     \<lparr>KernelPath = [], RootfsPath = [], VCPUCount = 2, MemSizeMB = 512,
      BootArgs = ''console=ttyS0 reboot=k panic=1 pci=off'',
      GuestAgentPath = ''/usr/local/bin/shiyao-agent''\<rparr>"

definition vm_Validate :: "vm_config \<Rightarrow> error option" where
  "vm_Validate c =
     (if KernelPath c = [] then Some (Errorf ''kernel path is required'')
      else if RootfsPath c = [] then Some (Errorf ''rootfs path is required'')
      else if VCPUCount c \<le> 0 then Some (Errorf ''vcpu count must be greater than 0'')
      else if MemSizeMB c \<le> 0 then Some (Errorf ''memory size must be greater than 0'')
      else if GuestAgentPath c = [] then Some (Errorf ''guest agent path is required'')
      else None)"

section \<open>States\<close>

datatype vm_state =
  StateCreated | StateConfiguring | StateConfigured | StateStarting
| StateRunning | StateStopping | StateStopped | StateCleanupFailed

fun state_String :: "vm_state \<Rightarrow> string" where
  "state_String StateCreated = ''created''"
| "state_String StateConfiguring = ''configuring''"
| "state_String StateConfigured = ''configured''"
| "state_String StateStarting = ''starting''"
| "state_String StateRunning = ''running''"
| "state_String StateStopping = ''stopping''"
| "state_String StateStopped = ''stopped''"
| "state_String StateCleanupFailed = ''cleanup-failed''"

section \<open>Identifiers, MAC addresses and kernel arguments\<close>

definition mac_bytes :: "hash \<Rightarrow> string \<Rightarrow> byte list" where
  "mac_bytes sha vmID =
     (let hash = sha (bytes_of vmID)
      in [0x02, hash ! 0 AND 0xFE, hash ! 1, hash ! 2, hash ! 3, hash ! 4])"

text \<open>\<open>net.HardwareAddr.String\<close>.\<close>

definition mac_String :: "byte list \<Rightarrow> string" where
  "mac_String bs = Join (map hex_byte bs) '':''"

definition generateMAC :: "hash \<Rightarrow> string \<Rightarrow> string" where
  "generateMAC sha vmID = mac_String (mac_bytes sha vmID)"

definition guestKernelArgs :: "string \<Rightarrow> string \<Rightarrow> string result" where
  "guestKernelArgs bootArgs guestAgentPath =
     (let guestAgentPath = TrimSpace guestAgentPath
      in if guestAgentPath = [] \<or> \<not> HasPrefix guestAgentPath ''/''
            \<or> ContainsAny guestAgentPath [CHR 0x09, CHR 0x0D, CHR 0x0A, CHR '' '']
         then Inl (Errorf ''guest agent path must be an absolute path without whitespace'')
         else let args = Fields (TrimSpace bootArgs);
                  trusted = filter (\<lambda>arg. \<not> HasPrefix arg ''init='') args @ [''init='' @ guestAgentPath]
              in Inr (Join trusted '' ''))"

definition validateVMID :: "string \<Rightarrow> error option" where
  "validateVMID vmID =
     (if vmID = [] then Some (Errorf ''vm ID is required'')
      else if 64 < length vmID then Some (Errorf ''vm ID is too long'')
      else if ContainsAny vmID [CHR ''/'', CHR 0x5C, CHR 0x5C, CHR '':'', CHR ''*'', CHR ''?'',
                                CHR 0x22, CHR ''<'', CHR ''>'', CHR ''|'']
      then Some (Errorf (''vm ID '' @ Quote vmID @ '' contains invalid characters''))
      else None)"

section \<open>Host files\<close>

datatype file_kind = RegularFile | Symlink | OtherFile

type_synonym lstat = "string \<Rightarrow> file_kind result"
type_synonym read_file = "string \<Rightarrow> byte list result"

definition validateRegularFile :: "lstat \<Rightarrow> string \<Rightarrow> string \<Rightarrow> error option" where
  "validateRegularFile lstat path label =
     (if path = [] then Some (Errorf (label @ '' path is required''))
      else case lstat path of
             Inl err \<Rightarrow> Some (Wrapf (''stat '' @ label @ '': '') err [])
           | Inr kind \<Rightarrow>
               if kind = Symlink then Some (Errorf (label @ '' must not be a symbolic link''))
               else if kind \<noteq> RegularFile then Some (Errorf (label @ '' must be a regular file''))
               else None)"

definition validateRuntimeAssets :: "lstat \<Rightarrow> vm_config \<Rightarrow> snapshot_config \<Rightarrow> error option" where
  "validateRuntimeAssets lstat cfg snap =
     (if EnableResume snap then
        (case validateRegularFile lstat (MemFilePath snap) ''snapshot memory file'' of
           Some err \<Rightarrow> Some err
         | None \<Rightarrow> validateRegularFile lstat (StateFilePath snap) ''snapshot state file'')
      else
        (case validateRegularFile lstat (KernelPath cfg) ''kernel image'' of
           Some err \<Rightarrow> Some err
         | None \<Rightarrow> validateRegularFile lstat (RootfsPath cfg) ''root filesystem''))"

definition computeFileHash :: "hash \<Rightarrow> read_file \<Rightarrow> string \<Rightarrow> string result" where
  "computeFileHash sha read path =
     (case read path of Inl err \<Rightarrow> Inl err | Inr content \<Rightarrow> Inr (hex_encode (sha content)))"

definition check_hash :: "hash \<Rightarrow> read_file \<Rightarrow> string \<Rightarrow> string \<Rightarrow> string \<Rightarrow> error option" where
  "check_hash sha read label path expected =
     (if expected = [] then None
      else case computeFileHash sha read path of
             Inl err \<Rightarrow> Some (Wrapf (''compute '' @ label @ '' file hash: '') err [])
           | Inr hash \<Rightarrow>
               if hash \<noteq> expected
               then Some (Errorf (label @ '' file hash mismatch: expected '' @ expected @ '', got '' @ hash))
               else None)"

definition validateSnapshotIntegrity ::
  "hash \<Rightarrow> read_file \<Rightarrow> snapshot_config \<Rightarrow> snapshot_integrity \<Rightarrow> error option" where
  "validateSnapshotIntegrity sha read snapCfg snapInteg =
     (if ExpectedMemHash snapInteg = [] \<and> ExpectedStateHash snapInteg = [] then None
      else case check_hash sha read ''memory'' (MemFilePath snapCfg) (ExpectedMemHash snapInteg) of
             Some err \<Rightarrow> Some err
           | None \<Rightarrow> check_hash sha read ''state'' (StateFilePath snapCfg) (ExpectedStateHash snapInteg))"

text \<open>A word of a command line: ASCII, not empty and without white space.\<close>

definition word_ok :: "string \<Rightarrow> bool" where
  "word_ok w \<longleftrightarrow> ascii w \<and> w \<noteq> [] \<and> list_all (\<lambda>c. \<not> is_space (code c)) w"

section \<open>Lemmas\<close>

lemma fields_acc_word:
  "list_all (\<lambda>c. \<not> is_space (code c)) w \<Longrightarrow>
   fields_acc acc (map (\<lambda>c. (code c, [c])) w @ rs) = fields_acc (acc @ w) rs"
  by (induction w arbitrary: acc) simp_all

lemma ascii_append: "ascii (a @ b) \<longleftrightarrow> ascii a \<and> ascii b"
  by (simp add: ascii_def)

lemma ascii_Join: "\<forall>w \<in> set ws. ascii w \<Longrightarrow> ascii sep \<Longrightarrow> ascii (Join ws sep)"
  by (induction ws sep rule: Join.induct) (auto simp: ascii_append ascii_def)

lemma fields_acc_Join:
  "\<forall>w \<in> set ws. word_ok w \<Longrightarrow> fields_acc [] (map (\<lambda>c. (code c, [c])) (Join ws '' '')) = ws"
proof (induction ws "'' ''" rule: Join.induct)
  case (2 x)
  then show ?case using fields_acc_word [of x "[]" "[]"] by (simp add: word_ok_def)
next
  case (3 x y xs)
  then show ?case by (simp add: fields_acc_word word_ok_def is_space_def)
qed simp

lemma Fields_Join: "\<forall>w \<in> set ws. word_ok w \<Longrightarrow> Fields (Join ws '' '') = ws"
  using fields_acc_Join [of ws] ascii_Join [of ws "'' ''"]
  by (simp add: Fields_def runes_ascii word_ok_def ascii_def is_ascii_def)

lemma fields_acc_words:
  "ascii s \<Longrightarrow> ascii acc \<Longrightarrow> list_all (\<lambda>c. \<not> is_space (code c)) acc \<Longrightarrow>
   w \<in> set (fields_acc acc (map (\<lambda>c. (code c, [c])) s)) \<Longrightarrow> word_ok w"
proof (induction s arbitrary: acc)
  case (Cons c s)
  show ?case
    using Cons.prems Cons.IH [of "[]"] Cons.IH [of "acc @ [c]"]
    by (auto simp: word_ok_def ascii_def split: if_splits)
qed (simp add: word_ok_def split: if_splits)

lemma Fields_words: "ascii s \<Longrightarrow> w \<in> set (Fields s) \<Longrightarrow> word_ok w"
  using fields_acc_words [of s "[]" w] by (simp add: Fields_def runes_ascii ascii_def)

lemma ascii_space:
  assumes "code c < 128" and "is_space (code c)"
  shows "c \<in> {CHR 0x09, CHR 0x0A, CHR 0x0B, CHR 0x0C, CHR 0x0D, CHR '' ''}"
proof -
  have eqs: "char_of (9 :: nat) = CHR 0x09" "char_of (10 :: nat) = CHR 0x0A" "char_of (11 :: nat) = CHR 0x0B"
    "char_of (12 :: nat) = CHR 0x0C" "char_of (13 :: nat) = CHR 0x0D" "char_of (32 :: nat) = CHR '' ''"
    by code_simp+
  have "code c \<in> {9, 10, 11, 12, 13, 32}" using assms by (auto simp: is_space_def)
  moreover have "c = char_of (code c)" by simp
  ultimately show ?thesis using eqs by (metis insert_iff singletonD)
qed

lemma TrimSpace_sub: "ascii s \<Longrightarrow> set (TrimSpace s) \<subseteq> set s"
  by (metis TrimSpace_ascii trim_both_set)

lemma validateRegularFile_None:
  "validateRegularFile lstat path label = None \<longleftrightarrow> path \<noteq> [] \<and> lstat path = Inr RegularFile"
  by (auto simp: validateRegularFile_def split: sum.splits file_kind.splits if_splits)

lemma check_hash_None:
  "check_hash sha read label path expected = None \<longleftrightarrow>
     expected = [] \<or> (\<exists>content. read path = Inr content \<and> hex_encode (sha content) = expected)"
  by (auto simp: check_hash_def computeFileHash_def split: sum.splits)

section \<open>Properties\<close>

text \<open>
  One trusted init. Read back as a command line, the kernel arguments of an ASCII boot
  line are the boot arguments without any \<open>init=\<close>, in order, followed by the guest agent as the
  only \<open>init=\<close>. The path check of the code misses two white space characters, the vertical tab
  and the form feed, which are excluded here.
\<close>

theorem kernel_args_init:
  assumes "guestKernelArgs bootArgs path = Inr args" and "ascii bootArgs" and "ascii path"
    and "CHR 0x0B \<notin> set path" and "CHR 0x0C \<notin> set path"
  shows "Fields args = filter (\<lambda>a. \<not> HasPrefix a ''init='') (Fields (TrimSpace bootArgs)) @ [''init='' @ TrimSpace path]
    \<and> filter (\<lambda>a. HasPrefix a ''init='') (Fields args) = [''init='' @ TrimSpace path]"
proof -
  let ?trusted = "filter (\<lambda>a. \<not> HasPrefix a ''init='') (Fields (TrimSpace bootArgs)) @ [''init='' @ TrimSpace path]"
  have args: "args = Join ?trusted '' ''"
    and ws: "\<not> ContainsAny (TrimSpace path) [CHR 0x09, CHR 0x0D, CHR 0x0A, CHR '' '']"
    using assms(1) by (simp_all add: guestKernelArgs_def Let_def split: if_splits)
  have "\<not> is_space (code c)" if "c \<in> set (TrimSpace path)" for c
  proof
    assume "is_space (code c)"
    have "c \<in> set path" using that TrimSpace_sub [OF assms(3)] by blast
    then have "code c < 128" using assms(3) by (auto simp: ascii_def is_ascii_def list_all_iff)
    then have "c \<in> {CHR 0x09, CHR 0x0A, CHR 0x0B, CHR 0x0C, CHR 0x0D, CHR '' ''}"
      using \<open>is_space (code c)\<close> by (rule ascii_space)
    then show False using ws that \<open>c \<in> set path\<close> assms(4,5) by (auto simp: ContainsAny_def list_ex_iff)
  qed
  moreover have "ascii (TrimSpace path)" "ascii (TrimSpace bootArgs)"
    using TrimSpace_sub assms(2,3) unfolding ascii_def list_all_iff by blast+
  ultimately have "\<forall>w \<in> set ?trusted. word_ok w"
    using Fields_words [of "TrimSpace bootArgs"]
    by (auto simp: word_ok_def ascii_def is_ascii_def is_space_def list_all_iff)
  then have "Fields args = ?trusted" unfolding args by (rule Fields_Join)
  then show ?thesis by (simp add: HasPrefix_def)
qed

theorem kernel_args_init_witness:
  "filter (\<lambda>a. HasPrefix a ''init='') (Fields (projr (guestKernelArgs ''quiet init=/bin/sh'' ''/agent'')))
       = [''init=/agent'']"
proof -
  have asc: "ascii ''quiet init=/bin/sh''" "ascii ''/agent''" by (simp_all add: ascii_def is_ascii_def)
  then have trim: "TrimSpace ''/agent'' = ''/agent''" "TrimSpace ''quiet init=/bin/sh'' = ''quiet init=/bin/sh''"
    by (simp_all add: TrimSpace_ascii trim_both_def is_space_def)
  have fields: "Fields ''quiet init=/bin/sh'' = [''quiet'', ''init=/bin/sh'']"
    unfolding Fields_def runes_ascii [OF asc(1)] by (simp add: is_space_def)
  have r: "guestKernelArgs ''quiet init=/bin/sh'' ''/agent'' = Inr ''quiet init=/agent''"
    unfolding guestKernelArgs_def Let_def trim fields by (simp add: HasPrefix_def ContainsAny_def)
  then show ?thesis using kernel_args_init [OF r asc] by (simp add: trim HasPrefix_def)
qed

text \<open>
  Snapshot integrity. The check passes iff every hash that is expected is the hash of the
  corresponding file, which must be readable.
\<close>

theorem snapshot_integrity_iff:
  "validateSnapshotIntegrity sha read snap integ = None \<longleftrightarrow>
     (ExpectedMemHash integ = [] \<or>
        (\<exists>m. read (MemFilePath snap) = Inr m \<and> hex_encode (sha m) = ExpectedMemHash integ))
     \<and> (ExpectedStateHash integ = [] \<or>
        (\<exists>s. read (StateFilePath snap) = Inr s \<and> hex_encode (sha s) = ExpectedStateHash integ))"
  using check_hash_None [of sha read "''memory''" "MemFilePath snap" "ExpectedMemHash integ"]
    check_hash_None [of sha read "''state''" "StateFilePath snap" "ExpectedStateHash integ"]
  by (auto simp: validateSnapshotIntegrity_def split: option.splits)

end
