(* ===== verification/Firewall.thy ===== *)
theory Firewall
  imports Ipam
begin

text \<open>
  \<open>internal/core/network/nftables.go\<close> and \<open>tap.go\<close>: the commands that are sent to \<open>nft\<close> and
  to netlink. Both are outside the program: the record \<open>net_host\<close> holds the operations the
  code calls, on a host state of any type.

  The second half gives the ruleset its meaning. The scripts are printed forms of structured
  rules and set elements, and a forwarded packet gets the verdict of the first rule all of
  whose matches hold, or the chain's policy.
\<close>

section \<open>Host operations\<close>

datatype link_lookup = LinkFound | LinkNotFound | LinkError error

record 'h net_host =
  LinkAdd :: "string \<Rightarrow> 'h \<Rightarrow> error option \<times> 'h"
  LinkSetUp :: "string \<Rightarrow> 'h \<Rightarrow> error option \<times> 'h"
  LinkDel :: "string \<Rightarrow> 'h \<Rightarrow> error option \<times> 'h"
  LinkByName :: "string \<Rightarrow> 'h \<Rightarrow> link_lookup"
  nft_exec :: "string \<Rightarrow> 'h \<Rightarrow> (error \<times> string) option \<times> 'h"
  nft_list_table :: "'h \<Rightarrow> bool"

section \<open>TAP devices\<close>

definition SetupTAP :: "'h net_host \<Rightarrow> net_config \<Rightarrow> 'h \<Rightarrow> error option \<times> 'h" where
  "SetupTAP os cfg h =
     (case LinkAdd os (TapName cfg) h of
        (Some err, h) \<Rightarrow> (Some (Wrapf (''add tap device '' @ TapName cfg @ '': '') err []), h)
      | (None, h) \<Rightarrow>
          (case LinkSetUp os (TapName cfg) h of
             (None, h) \<Rightarrow> (None, h)
           | (Some err, h) \<Rightarrow>
               (case LinkDel os (TapName cfg) h of
                  (Some cleanupErr, h) \<Rightarrow>
                    (Some (Wrapf (''bring up tap device '' @ TapName cfg @ '': '') err
                       ('' (also failed to remove tap: '' @ Error cleanupErr @ '')'')), h)
                | (None, h) \<Rightarrow>
                    (Some (Wrapf (''bring up tap device '' @ TapName cfg @ '': '') err []), h))))"

definition CleanupTAP :: "'h net_host \<Rightarrow> string \<Rightarrow> 'h \<Rightarrow> error option \<times> 'h" where
  "CleanupTAP os tapName h =
     (case LinkByName os tapName h of
        LinkNotFound \<Rightarrow> (None, h)
      | LinkError err \<Rightarrow> (Some (Wrapf (''find tap device '' @ tapName @ '': '') err []), h)
      | LinkFound \<Rightarrow>
          (case LinkDel os tapName h of
             (Some err, h) \<Rightarrow> (Some (Wrapf (''remove tap device '' @ tapName @ '': '') err []), h)
           | (None, h) \<Rightarrow> (None, h)))"

section \<open>nftables scripts\<close>

definition nftTable :: string where "nftTable = ''shiyao''"
definition HostProxyPort :: int where "HostProxyPort = 8080"
definition CloudMetadataIP :: string where "CloudMetadataIP = ''169.254.169.254''"

definition nl :: string where "nl = [CHR 0x0A]"

definition tapNameExpr :: "string \<Rightarrow> bool" where
  "tapNameExpr s \<longleftrightarrow> 1 \<le> length s \<and> length s \<le> 15
     \<and> list_all (\<lambda>c. is_alnum c \<or> c = CHR ''_'' \<or> c = CHR ''-'') s"

definition nftRun :: "'h net_host \<Rightarrow> string \<Rightarrow> 'h \<Rightarrow> error option \<times> 'h" where
  "nftRun os input h =
     (case nft_exec os input h of
        (Some (err, output), h) \<Rightarrow> (Some (Wrapf ''run nft: '' err ('': '' @ TrimSpace output)), h)
      | (None, h) \<Rightarrow> (None, h))"

definition validateNftConfig :: "net_config \<Rightarrow> error option" where
  "validateNftConfig cfg =
     (case net_Validate cfg of
        Some err \<Rightarrow> Some err
      | None \<Rightarrow>
          if \<not> tapNameExpr (TapName cfg)
          then Some (Errorf (''invalid tap name '' @ Quote (TapName cfg) @ '' for nftables''))
          else case ParseIP (HostIP cfg) of
                 None \<Rightarrow> Some (Errorf ''IPv4 host gateway is required'')
               | Some ip \<Rightarrow>
                   if To4 ip = None then Some (Errorf ''IPv4 host gateway is required'') else None)"

definition nftBaseRuleset :: string where
  "nftBaseRuleset =
     ''add table inet shiyao'' @ nl @
     ''add set inet shiyao guest_taps { type ifname; }'' @ nl @
     ''add set inet shiyao guest_tcp_allow { type ifname . ipv4_addr . inet_service; }'' @ nl @
     ''add set inet shiyao guest_udp_allow { type ifname . ipv4_addr . inet_service; }'' @ nl @
     ''add chain inet shiyao forward { type filter hook forward priority filter; policy accept; }'' @ nl @
     ''add rule inet shiyao forward iifname @guest_taps ip daddr 169.254.169.254 drop'' @ nl @
     ''add rule inet shiyao forward iifname @guest_taps ct state established,related accept'' @ nl @
     ''add rule inet shiyao forward iifname . ip daddr . tcp dport @guest_tcp_allow accept'' @ nl @
     ''add rule inet shiyao forward iifname . ip daddr . udp dport @guest_udp_allow accept'' @ nl @
     ''add rule inet shiyao forward iifname @guest_taps drop'' @ nl @
     ''add rule inet shiyao forward oifname @guest_taps ct state established,related accept'' @ nl"

definition nftVMElements :: "string \<Rightarrow> net_config \<Rightarrow> string" where
  "nftVMElements action cfg =
     action @ '' element inet '' @ nftTable @ '' guest_taps { '' @ TapName cfg @ '' }'' @ nl @
     action @ '' element inet '' @ nftTable @ '' guest_udp_allow { '' @ TapName cfg @ '' . '' @ HostIP cfg
       @ '' . 53 }'' @ nl @
     action @ '' element inet '' @ nftTable @ '' guest_tcp_allow { '' @ TapName cfg @ '' . '' @ HostIP cfg
       @ '' . '' @ Itoa HostProxyPort @ '' }'' @ nl @
     concat (map (\<lambda>port.
       if port \<noteq> HostProxyPort
       then action @ '' element inet '' @ nftTable @ '' guest_tcp_allow { '' @ TapName cfg @ '' . ''
              @ HostIP cfg @ '' . '' @ Itoa port @ '' }'' @ nl
       else []) (AllowedPorts cfg))"

definition nftAddVM :: "net_config \<Rightarrow> string" where
  "nftAddVM cfg = nftVMElements ''add'' cfg"

definition nftDeleteVM :: "net_config \<Rightarrow> string" where
  "nftDeleteVM cfg = nftVMElements ''delete'' cfg"

definition SetupFirewall :: "'h net_host \<Rightarrow> net_config \<Rightarrow> 'h \<Rightarrow> error option \<times> 'h" where
  "SetupFirewall os cfg h =
     (case validateNftConfig cfg of
        Some err \<Rightarrow> (Some err, h)
      | None \<Rightarrow>
          (case (if \<not> nft_list_table os h then nftRun os nftBaseRuleset h else (None, h)) of
             (Some err, h) \<Rightarrow> (Some (Wrapf ''initialize nftables policy: '' err []), h)
           | (None, h) \<Rightarrow>
               (case nftRun os (nftAddVM cfg) h of
                  (Some err, h) \<Rightarrow>
                    (Some (Wrapf (''add nftables policy for tap '' @ TapName cfg @ '': '') err []), h)
                | (None, h) \<Rightarrow> (None, h))))"

definition CleanupFirewall :: "'h net_host \<Rightarrow> net_config \<Rightarrow> 'h \<Rightarrow> error option \<times> 'h" where
  "CleanupFirewall os cfg h =
     (case validateNftConfig cfg of
        Some err \<Rightarrow> (Some err, h)
      | None \<Rightarrow>
          (case nftRun os (nftDeleteVM cfg) h of
             (Some err, h) \<Rightarrow>
               (Some (Wrapf (''remove nftables policy for tap '' @ TapName cfg @ '': '') err []), h)
           | (None, h) \<Rightarrow> (None, h)))"

section \<open>The meaning of the scripts\<close>

datatype nft_verdict = Accept | Drop

datatype nft_match = IifTap | OifTap | Daddr string | CtEstablished | TcpAllowed | UdpAllowed

type_synonym nft_rule = "nft_match list \<times> nft_verdict"

datatype nft_elem = TapElem string | TcpElem string string int | UdpElem string string int

record packet =
  iifname :: string
  oifname :: string
  daddr :: string
  is_tcp :: bool
  is_udp :: bool
  dport :: int
  established :: bool

fun match_text :: "nft_match \<Rightarrow> string" where
  "match_text IifTap = ''iifname @guest_taps''"
| "match_text OifTap = ''oifname @guest_taps''"
| "match_text (Daddr ip) = ''ip daddr '' @ ip"
| "match_text CtEstablished = ''ct state established,related''"
| "match_text TcpAllowed = ''iifname . ip daddr . tcp dport @guest_tcp_allow''"
| "match_text UdpAllowed = ''iifname . ip daddr . udp dport @guest_udp_allow''"

fun verdict_text :: "nft_verdict \<Rightarrow> string" where
  "verdict_text Accept = ''accept''"
| "verdict_text Drop = ''drop''"

definition rule_text :: "nft_rule \<Rightarrow> string" where
  "rule_text r = ''add rule inet shiyao forward '' @ Join (map match_text (fst r)) '' '' @ '' ''
     @ verdict_text (snd r) @ nl"

fun elem_text :: "nft_elem \<Rightarrow> string" where
  "elem_text (TapElem tap) = ''guest_taps { '' @ tap @ '' }''"
| "elem_text (TcpElem tap ip port) = ''guest_tcp_allow { '' @ tap @ '' . '' @ ip @ '' . '' @ Itoa port @ '' }''"
| "elem_text (UdpElem tap ip port) = ''guest_udp_allow { '' @ tap @ '' . '' @ ip @ '' . '' @ Itoa port @ '' }''"

definition elem_command :: "string \<Rightarrow> nft_elem \<Rightarrow> string" where
  "elem_command action e = action @ '' element inet '' @ nftTable @ '' '' @ elem_text e @ nl"

definition base_preamble :: string where
  "base_preamble =
     ''add table inet shiyao'' @ nl @
     ''add set inet shiyao guest_taps { type ifname; }'' @ nl @
     ''add set inet shiyao guest_tcp_allow { type ifname . ipv4_addr . inet_service; }'' @ nl @
     ''add set inet shiyao guest_udp_allow { type ifname . ipv4_addr . inet_service; }'' @ nl @
     ''add chain inet shiyao forward { type filter hook forward priority filter; policy accept; }'' @ nl"

definition forward_rules :: "nft_rule list" where
  "forward_rules =
     [([IifTap, Daddr CloudMetadataIP], Drop),
      ([IifTap, CtEstablished], Accept),
      ([TcpAllowed], Accept),
      ([UdpAllowed], Accept),
      ([IifTap], Drop),
      ([OifTap, CtEstablished], Accept)]"

definition vm_elems :: "net_config \<Rightarrow> nft_elem list" where
  "vm_elems cfg =
     TapElem (TapName cfg) # UdpElem (TapName cfg) (HostIP cfg) 53
     # map (TcpElem (TapName cfg) (HostIP cfg))
         (HostProxyPort # filter (\<lambda>port. port \<noteq> HostProxyPort) (AllowedPorts cfg))"

fun match_holds :: "nft_elem set \<Rightarrow> packet \<Rightarrow> nft_match \<Rightarrow> bool" where
  "match_holds S p IifTap \<longleftrightarrow> TapElem (iifname p) \<in> S"
| "match_holds S p OifTap \<longleftrightarrow> TapElem (oifname p) \<in> S"
| "match_holds S p (Daddr ip) \<longleftrightarrow> daddr p = ip"
| "match_holds S p CtEstablished \<longleftrightarrow> established p"
| "match_holds S p TcpAllowed \<longleftrightarrow> is_tcp p \<and> TcpElem (iifname p) (daddr p) (dport p) \<in> S"
| "match_holds S p UdpAllowed \<longleftrightarrow> is_udp p \<and> UdpElem (iifname p) (daddr p) (dport p) \<in> S"

fun verdict :: "nft_elem set \<Rightarrow> nft_rule list \<Rightarrow> packet \<Rightarrow> nft_verdict" where
  "verdict S [] p = Accept"
| "verdict S ((ms, v) # rs) p = (if list_all (match_holds S p) ms then v else verdict S rs p)"

text \<open>
  A script is one transaction: adding is set insertion, and deleting an element that is not in
  its set aborts the whole script.
\<close>

definition add_elems :: "nft_elem list \<Rightarrow> nft_elem set \<Rightarrow> nft_elem set" where
  "add_elems es S = S \<union> set es"

fun delete_elems :: "nft_elem list \<Rightarrow> nft_elem set \<Rightarrow> nft_elem set option" where
  "delete_elems [] S = Some S"
| "delete_elems (e # es) S = (if e \<in> S then delete_elems es (S - {e}) else None)"

definition elem_tap :: "nft_elem \<Rightarrow> string" where
  "elem_tap e = (case e of TapElem t \<Rightarrow> t | TcpElem t _ _ \<Rightarrow> t | UdpElem t _ _ \<Rightarrow> t)"

section \<open>Lemmas\<close>

lemma Itoa_53: "Itoa 53 = ''53''"
  by code_simp

lemma nftVMElements_commands:
  "nftVMElements action cfg = concat (map (elem_command action) (vm_elems cfg))"
  unfolding nftVMElements_def vm_elems_def
  by (simp add: elem_command_def Itoa_53 concat_map_filter comp_def cong: if_cong)

lemma delete_elems_Some:
  "distinct es \<Longrightarrow> set es \<subseteq> S \<Longrightarrow> delete_elems es S = Some (S - set es)"
proof (induction es arbitrary: S)
  case (Cons e es)
  then have "delete_elems es (S - {e}) = Some (S - {e} - set es)" by (intro Cons.IH) auto
  moreover have "S - {e} - set es = S - set (e # es)" by auto
  ultimately show ?case using Cons.prems by simp
qed simp

lemma vm_elems_tap: "e \<in> set (vm_elems cfg) \<Longrightarrow> elem_tap e = TapName cfg"
  by (auto simp: vm_elems_def elem_tap_def)

lemma vm_elems_mem [simp]:
  "TapElem t \<in> set (vm_elems cfg) \<longleftrightarrow> t = TapName cfg"
  "UdpElem t ip port \<in> set (vm_elems cfg) \<longleftrightarrow> t = TapName cfg \<and> ip = HostIP cfg \<and> port = 53"
  "TcpElem t ip port \<in> set (vm_elems cfg) \<longleftrightarrow>
     t = TapName cfg \<and> ip = HostIP cfg \<and> (port = HostProxyPort \<or> port \<in> set (AllowedPorts cfg))"
  by (auto simp: vm_elems_def)

lemma distinct_vm_elems:
  "distinct (filter (\<lambda>port. port \<noteq> HostProxyPort) (AllowedPorts cfg)) \<Longrightarrow> distinct (vm_elems cfg)"
  by (auto simp: vm_elems_def distinct_map inj_on_def)

lemma verdict_from_guest:
  "TapElem (iifname p) \<in> S \<Longrightarrow>
   verdict S forward_rules p = Accept \<longleftrightarrow>
     daddr p \<noteq> CloudMetadataIP \<and>
     (established p \<or> match_holds S p TcpAllowed \<or> match_holds S p UdpAllowed)"
  by (simp add: forward_rules_def)

section \<open>Properties\<close>

text \<open>
  The scripts denote the rules. The base script is the printed form of the structured
  rules after its declarations, and the scripts of a VM add or delete, one command each, the
  tap, the DNS endpoint, the proxy port and the allowed ports of its configuration.
\<close>

theorem scripts_denote_rules:
  "nftBaseRuleset = base_preamble @ concat (map rule_text forward_rules)
   \<and> nftAddVM cfg = concat (map (elem_command ''add'') (vm_elems cfg))
   \<and> nftDeleteVM cfg = concat (map (elem_command ''delete'') (vm_elems cfg))"
proof -
  have "nftBaseRuleset = base_preamble @ concat (map rule_text forward_rules)" by code_simp
  then show ?thesis by (simp add: nftAddVM_def nftDeleteVM_def nftVMElements_commands)
qed

text \<open>
  C2. Default deny for guests. Once a VM's elements are added, whatever the other VMs' elements
  are, a forwarded packet entering from its tap passes iff it is not addressed to the metadata
  service and belongs to an established connection, or is TCP to the VM's own gateway on the
  proxy port or an allowed port, or UDP to that gateway on port 53.
\<close>

theorem guest_egress:
  assumes "\<forall>e \<in> S. elem_tap e \<noteq> TapName cfg" and "iifname p = TapName cfg"
  shows "verdict (add_elems (vm_elems cfg) S) forward_rules p = Accept \<longleftrightarrow>
     daddr p \<noteq> CloudMetadataIP \<and>
     (established p
      \<or> is_tcp p \<and> daddr p = HostIP cfg \<and> (dport p = HostProxyPort \<or> dport p \<in> set (AllowedPorts cfg))
      \<or> is_udp p \<and> daddr p = HostIP cfg \<and> dport p = 53)"
proof -
  have "TcpElem (iifname p) ip port \<notin> S" "UdpElem (iifname p) ip port \<notin> S" for ip port
    using assms by (auto simp: elem_tap_def)
  then show ?thesis
    using assms(2) by (subst verdict_from_guest) (auto simp: add_elems_def)
qed

theorem guest_egress_witness:
  "verdict (add_elems (vm_elems (net_DefaultConfig ''shy1'')) {TapElem ''shy2''}) forward_rules
     \<lparr>iifname = ''shy1'', oifname = ''eth0'', daddr = ''8.8.8.8'', is_tcp = True, is_udp = False,
      dport = 443, established = False\<rparr> = Drop"
proof -
  have "verdict (add_elems (vm_elems (net_DefaultConfig ''shy1'')) {TapElem ''shy2''}) forward_rules
     \<lparr>iifname = ''shy1'', oifname = ''eth0'', daddr = ''8.8.8.8'', is_tcp = True, is_udp = False,
      dport = 443, established = False\<rparr> \<noteq> Accept"
    using guest_egress [of "{TapElem ''shy2''}" "net_DefaultConfig ''shy1''"
        "\<lparr>iifname = ''shy1'', oifname = ''eth0'', daddr = ''8.8.8.8'', is_tcp = True,
          is_udp = False, dport = 443, established = False\<rparr>"]
    by (simp add: net_DefaultConfig_def elem_tap_def)
  then show ?thesis by (cases rule: nft_verdict.exhaust) auto
qed

text \<open>
  Firewall round trip. If no element of the tap is present and no port is allowed twice,
  deleting a VM's elements after adding them succeeds and restores the sets; adding them never
  changes the verdict on packets that enter from another interface.
\<close>

theorem firewall_add_delete:
  assumes "\<forall>e \<in> S. elem_tap e \<noteq> TapName cfg"
    and "distinct (filter (\<lambda>port. port \<noteq> HostProxyPort) (AllowedPorts cfg))"
  shows "delete_elems (vm_elems cfg) (add_elems (vm_elems cfg) S) = Some S
    \<and> (\<forall>p. iifname p \<noteq> TapName cfg \<longrightarrow>
          verdict (add_elems (vm_elems cfg) S) forward_rules p = verdict S forward_rules p)"
proof -
  have "set (vm_elems cfg) \<inter> S = {}" using assms(1) vm_elems_tap by blast
  then have "delete_elems (vm_elems cfg) (add_elems (vm_elems cfg) S) = Some S"
    using delete_elems_Some [OF distinct_vm_elems [OF assms(2)], of "add_elems (vm_elems cfg) S"]
    by (auto simp: add_elems_def)
  then show ?thesis by (simp add: forward_rules_def add_elems_def)
qed

theorem firewall_add_delete_witness:
  "delete_elems (vm_elems (net_DefaultConfig ''shy1''))
     (add_elems (vm_elems (net_DefaultConfig ''shy1'')) {TapElem ''shy2''}) = Some {TapElem ''shy2''}"
  using firewall_add_delete [of "{TapElem ''shy2''}" "net_DefaultConfig ''shy1''"]
  by (simp add: net_DefaultConfig_def elem_tap_def HostProxyPort_def)

end
