(* ===== verification/Allocation.thy ===== *)
theory Allocation
  imports Firewall
begin

text \<open>
  \<open>internal/core/network/allocation.go\<close>: the network lease of one VM. A lease lives in a world
  that consists of the shared IPAM pool and the host. Each closure of the code's cleanup list is
  one of the two steps \<open>CleanTAP\<close> and \<open>CleanFW\<close>, which read the lease's configuration.

  The locale \<open>network_lease\<close> is the contract of the interface \<open>networkLease\<close> of
  \<open>internal/core/vmm/instance.go\<close>, through which a VM instance uses its lease.
\<close>

section \<open>The lease\<close>

datatype cleanup_step = CleanTAP | CleanFW

record allocation =
  a_cfg :: net_config
  a_cid :: "32 word"
  a_cleanup :: "cleanup_step list"
  a_released :: bool

type_synonym 'h world = "ipam \<times> 'h"

definition Acquire :: "hash \<Rightarrow> string \<Rightarrow> net_config \<Rightarrow> ipam option \<Rightarrow> allocation result \<times> ipam option" where
  "Acquire sha vmID base pool =
     (case pool of
        None \<Rightarrow> (Inl (Errorf ''network: nil IPAM pool''), None)
      | Some p \<Rightarrow>
          (case Allocate sha vmID base p of
             (Inl err, p) \<Rightarrow> (Inl err, Some p)
           | (Inr (cfg, cid), p) \<Rightarrow>
               (Inr \<lparr>a_cfg = cfg, a_cid = cid, a_cleanup = [], a_released = False\<rparr>, Some p)))"

fun run_cleanup :: "'h net_host \<Rightarrow> net_config \<Rightarrow> cleanup_step \<Rightarrow> 'h \<Rightarrow> error option \<times> 'h" where
  "run_cleanup os cfg CleanTAP h = CleanupTAP os (TapName cfg) h"
| "run_cleanup os cfg CleanFW h = CleanupFirewall os cfg h"

definition alloc_Setup ::
  "'h net_host \<Rightarrow> allocation \<Rightarrow> 'h world \<Rightarrow> error option \<times> allocation \<times> 'h world" where
  "alloc_Setup os a w =
     (if a_released a then (Some (Errorf ''network: allocation already released''), a, w)
      else if a_cleanup a \<noteq> [] then (Some (Errorf ''network: allocation already set up''), a, w)
      else let (p, h) = w in
        case SetupTAP os (a_cfg a) h of
          (Some err, h) \<Rightarrow> (Some (Wrapf ''setup tap: '' err []), a, (p, h))
        | (None, h) \<Rightarrow>
            let a = a\<lparr>a_cleanup := a_cleanup a @ [CleanTAP]\<rparr> in
            (case SetupFirewall os (a_cfg a) h of
               (Some err, h) \<Rightarrow> (Some (Wrapf ''setup firewall: '' err []), a, (p, h))
             | (None, h) \<Rightarrow> (None, a\<lparr>a_cleanup := a_cleanup a @ [CleanFW]\<rparr>, (p, h))))"

text \<open>
  The loop of \<open>Release\<close>: the steps of the reversed list are run in turn, \<open>j\<close> being the index
  in the original list, which counts down; the errors and the failed steps are collected.
\<close>

fun cleanup_loop ::
  "'h net_host \<Rightarrow> net_config \<Rightarrow> cleanup_step list \<Rightarrow> 'h \<Rightarrow> error list \<times> cleanup_step list \<times> 'h" where
  "cleanup_loop os cfg [] h = ([], [], h)"
| "cleanup_loop os cfg (s # rest) h =
     (case run_cleanup os cfg s h of
        (None, h) \<Rightarrow> cleanup_loop os cfg rest h
      | (Some err, h) \<Rightarrow>
          let (errs, remaining, h) = cleanup_loop os cfg rest h
          in (Wrapf (''cleanup step '' @ nat_str (length rest) @ '': '') err [] # errs, s # remaining, h))"

definition alloc_Release ::
  "'h net_host \<Rightarrow> allocation \<Rightarrow> 'h world \<Rightarrow> error option \<times> allocation \<times> 'h world" where
  "alloc_Release os a w =
     (if a_released a then (None, a, w)
      else let (p, h) = w;
               (errs, remaining, h) = cleanup_loop os (a_cfg a) (rev (a_cleanup a)) h;
               a = a\<lparr>a_cleanup := remaining\<rparr>
           in if errs \<noteq> [] then (errors_Join (map Some errs), a, (p, h))
              else (None, a\<lparr>a_released := True\<rparr>,
                    (ipam_Release (GuestIP (a_cfg a)) (a_cid a) p, h)))"

text \<open>
  A client that keeps calling \<open>Release\<close>; before each attempt the rest of the system may change
  the host in any way.
\<close>

fun release_attempts ::
  "'h net_host \<Rightarrow> ('h \<Rightarrow> 'h) list \<Rightarrow> allocation \<Rightarrow> 'h world \<Rightarrow> allocation \<times> 'h world" where
  "release_attempts os [] a w = (a, w)"
| "release_attempts os (f # fs) a (p, h) =
     (case alloc_Release os a (p, f h) of (_, a', w') \<Rightarrow> release_attempts os fs a' w')"

text \<open>A host on which every operation succeeds, for the examples.\<close>

definition idle_host :: "unit net_host" where
  "idle_host = \<lparr>LinkAdd = (\<lambda>_ h. (None, h)), LinkSetUp = (\<lambda>_ h. (None, h)), LinkDel = (\<lambda>_ h. (None, h)),
     LinkByName = (\<lambda>_ _. LinkNotFound), nft_exec = (\<lambda>_ h. (None, h)), nft_list_table = (\<lambda>_. True)\<rparr>"

section \<open>The contract of a network lease\<close>

locale network_lease =
  fixes Setup :: "'l \<Rightarrow> 'w \<Rightarrow> error option \<times> 'l \<times> 'w"
    and Release :: "'l \<Rightarrow> 'w \<Rightarrow> error option \<times> 'l \<times> 'w"
    and Config :: "'l \<Rightarrow> net_config"
    and CID :: "'l \<Rightarrow> 32 word"
    and released :: "'l \<Rightarrow> bool"
  assumes setup_released: "released l \<Longrightarrow> \<exists>e. Setup l w = (Some e, l, w)"
    and setup_keeps: "Setup l w = (r, l', w') \<Longrightarrow> released l' = released l"
    and release_released: "released l \<Longrightarrow> Release l w = (None, l, w)"
    and release_iff: "Release l w = (r, l', w') \<Longrightarrow> released l' \<longleftrightarrow> r = None"
    and setup_same: "Setup l w = (r, l', w') \<Longrightarrow> Config l' = Config l \<and> CID l' = CID l"
    and release_same: "Release l w = (r, l', w') \<Longrightarrow> Config l' = Config l \<and> CID l' = CID l"
begin

lemma release_twice:
  "Release l w = (None, l', w') \<Longrightarrow> Release l' w'' = (None, l', w'')"
  using release_iff release_released by blast

lemma setup_ok_live: "Setup l w = (None, l', w') \<Longrightarrow> \<not> released l'"
  using setup_released [of l w] setup_keeps [of l w] by auto

lemma released_after: "released (fst (snd (Release l w))) \<longleftrightarrow> fst (Release l w) = None"
  by (cases "Release l w") (auto dest: release_iff)

lemma released_setup: "released (fst (snd (Setup l w))) = released l"
  by (cases "Setup l w") (auto dest: setup_keeps)

end

section \<open>Lemmas\<close>

lemma cleanup_loop_remaining:
  "cleanup_loop os cfg ss h = (errs, remaining, h') \<Longrightarrow>
   set remaining \<subseteq> set ss \<and> length errs = length remaining"
  by (induction ss arbitrary: h errs remaining)
     (force split: prod.splits option.splits simp: Let_def)+

lemma alloc_Setup_keeps:
  assumes "alloc_Setup os a w = (r, a', w')"
  shows "a_cfg a' = a_cfg a \<and> a_cid a' = a_cid a \<and> a_released a' = a_released a \<and> fst w' = fst w"
  using assms by (auto simp: alloc_Setup_def Let_def split: if_splits prod.splits option.splits)

lemma alloc_Release_keeps:
  assumes "alloc_Release os a w = (r, a', w')"
  shows "a_cfg a' = a_cfg a \<and> a_cid a' = a_cid a"
  using assms by (auto simp: alloc_Release_def Let_def split: if_splits prod.splits)

lemma alloc_Release_iff:
  assumes "alloc_Release os a w = (r, a', w')"
  shows "a_released a' \<longleftrightarrow> r = None"
  using assms
  by (auto simp: alloc_Release_def Let_def split: if_splits prod.splits)

lemma alloc_released:
  "a_released a \<Longrightarrow> alloc_Setup os a w = (Some (Errorf ''network: allocation already released''), a, w)"
  "a_released a \<Longrightarrow> alloc_Release os a w = (None, a, w)"
  by (simp_all add: alloc_Setup_def alloc_Release_def)

interpretation alloc_lease: network_lease "alloc_Setup os" "alloc_Release os" a_cfg a_cid a_released
  for os :: "'h net_host"
  by unfold_locales
     (auto simp: alloc_released dest: alloc_Setup_keeps alloc_Release_keeps alloc_Release_iff)

lemma alloc_Release_cases:
  assumes "alloc_Release os a (p, h) = (r, a', (p', h'))" "\<not> a_released a"
  obtains (failed) errs where "r = Some (Joined errs)" "p' = p" "\<not> a_released a'"
      "a_cleanup a' \<noteq> []" "set (a_cleanup a') \<subseteq> set (a_cleanup a)"
    | (ok) "r = None" "p' = ipam_Release (GuestIP (a_cfg a)) (a_cid a) p" "a_released a'" "a_cleanup a' = []"
proof -
  obtain errs remaining h1 where
    loop: "cleanup_loop os (a_cfg a) (rev (a_cleanup a)) h = (errs, remaining, h1)"
    by (metis prod_cases3)
  show ?thesis
  proof (cases "errs = []")
    case True
    then show ?thesis
      using assms cleanup_loop_remaining [OF loop] loop by (intro ok) (auto simp: alloc_Release_def)
  next
    case False
    then show ?thesis
      using assms cleanup_loop_remaining [OF loop] loop
      by (intro failed [of errs]) (auto simp: alloc_Release_def)
  qed
qed

lemma release_attempts_pool:
  assumes "release_attempts os fs a (p, h) = (a', (p', h'))"
    and "a_released a \<Longrightarrow> P p" and "\<not> a_released a \<Longrightarrow> p = q \<and> P (ipam_Release (GuestIP (a_cfg a)) (a_cid a) q)"
  shows "if a_released a' then P p' else p' = q"
  using assms
proof (induction fs arbitrary: a p h)
  case (Cons f fs)
  obtain r a1 p1 h1 where rel: "alloc_Release os a (p, f h) = (r, a1, (p1, h1))" by (metis prod_cases4)
  show ?case
  proof (cases "a_released a")
    case True
    then show ?thesis using Cons rel by (intro Cons.IH [of a1 p1 h1]) (simp_all add: alloc_released)
  next
    case False
    from rel False have "(a_released a1 \<longrightarrow> P p1) \<and> (\<not> a_released a1 \<longrightarrow> p1 = q \<and>
        P (ipam_Release (GuestIP (a_cfg a1)) (a_cid a1) q))"
      using Cons.prems(3) [OF False] alloc_Release_keeps [OF rel] by (cases rule: alloc_Release_cases) auto
    then show ?thesis using Cons.prems(1) rel by (intro Cons.IH [of a1 p1 h1]) simp_all
  qed
qed (auto split: if_splits)

section \<open>Properties\<close>

text \<open>
  Ownership of a lease. \<open>Release\<close> on a live lease either fails, and then the IPAM pool is
  untouched, the lease stays live and keeps a non-empty part of its cleanup steps for a retry, or
  succeeds, and then the subnet and CID are returned, no cleanup step is left, and every later
  \<open>Release\<close> is a no-op while every later \<open>Setup\<close> is refused.
\<close>

theorem Release_ownership:
  assumes "alloc_Release os a (p, h) = (r, a', (p', h'))" and "\<not> a_released a"
  shows "(\<exists>errs. r = Some (Joined errs) \<and> p' = p \<and> \<not> a_released a'
            \<and> a_cleanup a' \<noteq> [] \<and> set (a_cleanup a') \<subseteq> set (a_cleanup a))
       \<or> (r = None \<and> p' = ipam_Release (GuestIP (a_cfg a)) (a_cid a) p \<and> a_released a' \<and> a_cleanup a' = []
            \<and> (\<forall>w. alloc_Release os a' w = (None, a', w)) \<and> (\<forall>w. \<exists>e. alloc_Setup os a' w = (Some e, a', w)))"
  using assms
proof (cases rule: alloc_Release_cases)
  case ok
  then show ?thesis
    using alloc_lease.release_released alloc_lease.setup_released by blast
qed blast

theorem Release_ownership_witness:
  "alloc_Release idle_host \<lparr>a_cfg = net_DefaultConfig ''tap'', a_cid = 3, a_cleanup = [], a_released = False\<rparr>
     (NewIPAMPool, ())
   = (None, \<lparr>a_cfg = net_DefaultConfig ''tap'', a_cid = 3, a_cleanup = [], a_released = True\<rparr>,
      (ipam_Release ''172.16.0.2/24'' 3 NewIPAMPool, ()))"
  using Release_ownership [of idle_host
      "\<lparr>a_cfg = net_DefaultConfig ''tap'', a_cid = 3, a_cleanup = [], a_released = False\<rparr>"
      NewIPAMPool "()"]
  by (simp add: alloc_Release_def net_DefaultConfig_def)

text \<open>
  C19. Life cycle of a lease. A lease acquired from an intact pool, whatever \<open>Setup\<close> and any
  number of \<open>Release\<close> attempts do while the host changes arbitrarily in between, holds its subnet
  and CID as long as it is live, and once it is released the pool is exactly what it was before
  the lease was acquired.
\<close>

theorem lease_lifecycle:
  assumes "ipam_inv p" and "Acquire sha vmID base (Some p) = (Inr a, Some p1)"
    and "alloc_Setup os a (p1, h) = (r, a1, w1)"
    and "release_attempts os fs a1 w1 = (a2, (p2, h2))"
  shows "if a_released a2 then p2 = p else p2 = p1"
proof -
  obtain cfg cid where al: "Allocate sha vmID base p = (Inr (cfg, cid), p1)"
    and a: "a = \<lparr>a_cfg = cfg, a_cid = cid, a_cleanup = [], a_released = False\<rparr>"
    using assms(2) by (auto simp: Acquire_def split: prod.splits sum.splits)
  obtain h1 where w1: "w1 = (p1, h1)" and a1: "a_cfg a1 = cfg" "a_cid a1 = cid" "\<not> a_released a1"
    using alloc_Setup_keeps [OF assms(3)] a by (cases w1) auto
  have "subnet_of (GuestIP cfg) \<noteq> None \<and> ipam_Release (GuestIP cfg) cid p1 = p"
    using al
  proof (cases rule: Allocate_cases)
    case (ok fs i fc cid')
    then show ?thesis
      using ipam_inv_subnet [OF assms(1) ok(1)] ipam_inv_cid [OF assms(1) ok(2)]
      by (simp add: ipam_Release_def subnet_of_guest release_subnet_def release_cid_def)
  qed auto
  then show ?thesis
    using release_attempts_pool [of os fs a1 p1 h1 a2 p2 h2 "\<lambda>x. x = p" p1] assms(4) w1 a1 by simp
qed

theorem lease_lifecycle_witness:
  "let os = idle_host\<lparr>LinkAdd := (\<lambda>_ h. (Some (Errorf ''EPERM''), h))\<rparr>;
       cfg = (net_DefaultConfig ''tap'')\<lparr>HostIP := host_ip_text 255, GuestIP := guest_ip_text 255,
               TapName := ''shy''\<rparr>;
       a = \<lparr>a_cfg = cfg, a_cid = 1024, a_cleanup = [], a_released = False\<rparr>
   in \<exists>p1. Acquire (\<lambda>_. []) ''vm'' (net_DefaultConfig ''tap'') (Some NewIPAMPool) = (Inr a, Some p1)
     \<and> snd (alloc_Setup os a (p1, ())) = (a, (p1, ()))
     \<and> release_attempts os [id] a (p1, ()) = (a\<lparr>a_released := True\<rparr>, (NewIPAMPool, ()))"
proof -
  let ?os = "idle_host\<lparr>LinkAdd := (\<lambda>_ h. (Some (Errorf ''EPERM''), h))\<rparr>"
  let ?cfg = "(net_DefaultConfig ''tap'')\<lparr>HostIP := host_ip_text 255, GuestIP := guest_ip_text 255,
               TapName := ''shy''\<rparr>"
  let ?a = "\<lparr>a_cfg = ?cfg, a_cid = 1024, a_cleanup = [], a_released = False\<rparr>"
  define p1 where "p1 = snd (Allocate (\<lambda>_. []) ''vm'' (net_DefaultConfig ''tap'') NewIPAMPool)"
  have acq: "Acquire (\<lambda>_. []) ''vm'' (net_DefaultConfig ''tap'') (Some NewIPAMPool) = (Inr ?a, Some p1)"
    by (simp add: Acquire_def p1_def Allocate_New uniqueTapName_def)
  have set: "alloc_Setup ?os ?a (p1, ()) = (Some (Wrapf ''setup tap: '' (Wrapf ''add tap device shy: ''
      (Errorf ''EPERM'') []) []), ?a, (p1, ()))"
    by (simp add: alloc_Setup_def SetupTAP_def)
  have rel: "release_attempts ?os [id] ?a (p1, ()) =
      (?a\<lparr>a_released := True\<rparr>, (ipam_Release (guest_ip_text 255) 1024 p1, ()))"
    by (simp add: alloc_Release_def)
  from lease_lifecycle [OF ipam_inv_New acq set rel] show ?thesis using acq set rel by (simp add: Let_def)
qed

end
