(* ===== verification/Vmm_Instance.thy ===== *)
theory Vmm_Instance
  imports Vmm_Config Allocation
begin

text \<open>
  \<open>internal/core/vmm/instance.go\<close>: one microVM. The instance is generic in its network lease, as
  the code is through the interface \<open>networkLease\<close>: the record \<open>lease_ops\<close> holds the methods and
  the locale \<open>network_lease\<close> states their contract. The record \<open>vmm_host\<close> holds what the code calls
  of \<open>firecracker-go-sdk\<close> and of the operating system, acting on the host \<open>'h\<close>; \<open>'m\<close> is the type of
  machine handles. The world of an instance is a pair of the state \<open>'p\<close> that leases share (the IPAM
  pool) and the host.

  The mutex of an instance makes each critical section atomic. The functions below run a whole
  method without interference.
\<close>

section \<open>Interfaces\<close>

record ('l, 'w) lease_ops =
  lease_Config :: "'l \<Rightarrow> net_config"
  lease_CID :: "'l \<Rightarrow> 32 word"
  lease_Setup :: "'l \<Rightarrow> 'w \<Rightarrow> error option \<times> 'l \<times> 'w"
  lease_Release :: "'l \<Rightarrow> 'w \<Rightarrow> error option \<times> 'l \<times> 'w"

text \<open>The part of \<open>fc.Config\<close> that \<open>Configure\<close> fills in.\<close>

record fc_config =
  fc_SocketPath :: string
  fc_RootfsPath :: string
  fc_VcpuCount :: int
  fc_MemSizeMib :: int
  fc_HostDevName :: string
  fc_MacAddress :: string
  fc_GuestIP :: "byte list"
  fc_GuestMask :: "byte list"
  fc_Gateway :: "byte list"
  fc_GuestCID :: "32 word"
  fc_KernelImagePath :: string
  fc_KernelArgs :: string
  fc_Snapshot :: "(string \<times> string) option"

datatype remove_result = Removed | RemoveNotExist | RemoveError error

record ('m, 'h) vmm_host =
  rand_Read :: "nat \<Rightarrow> 'h \<Rightarrow> byte list result \<times> 'h"
  os_Lstat :: "'h \<Rightarrow> lstat"
  os_ReadFile :: "'h \<Rightarrow> read_file"
  fc_NewMachine :: "fc_config \<Rightarrow> 'h \<Rightarrow> 'm result \<times> 'h"
  fc_Start :: "'m \<Rightarrow> 'h \<Rightarrow> error option \<times> 'h"
  fc_ResumeVM :: "'m \<Rightarrow> 'h \<Rightarrow> error option \<times> 'h"
  fc_StopVMM :: "'m \<Rightarrow> 'h \<Rightarrow> error option \<times> 'h"
  os_Remove :: "string \<Rightarrow> 'h \<Rightarrow> remove_result \<times> 'h"

definition on_host :: "('h \<Rightarrow> 'r \<times> 'h) \<Rightarrow> 'p \<times> 'h \<Rightarrow> 'r \<times> 'p \<times> 'h" where
  "on_host f w = (case f (snd w) of (r, h) \<Rightarrow> (r, fst w, h))"

section \<open>Instances\<close>

record ('l, 'm) instance_rec =
  inst_ID :: string
  InstanceID :: string
  SocketPath :: string
  inst_cfg :: vm_config
  network :: 'l
  GuestCID :: "32 word"
  snapCfg :: snapshot_config
  snapInteg :: snapshot_integrity
  machine :: "'m option"
  inst_state :: vm_state

definition no_integrity :: snapshot_integrity where
  "no_integrity = \<lparr>ExpectedMemHash = [], ExpectedStateHash = [], KernelHash = [], RootfsHash = []\<rparr>"

definition NewInstance ::
  "string \<Rightarrow> string \<Rightarrow> vm_config \<Rightarrow> 'l \<Rightarrow> 32 word \<Rightarrow> snapshot_config \<Rightarrow> ('l, 'm) instance_rec" where
  "NewInstance vmID socketPath cfg allocation guestCID snap =
     \<lparr>inst_ID = vmID, InstanceID = [], SocketPath = socketPath, inst_cfg = cfg, network = allocation,
      GuestCID = guestCID, snapCfg = snap, snapInteg = no_integrity, machine = None,
      inst_state = StateCreated\<rparr>"

definition generateInstanceID :: "('m, 'h) vmm_host \<Rightarrow> 'p \<times> 'h \<Rightarrow> string result \<times> 'p \<times> 'h" where
  "generateInstanceID os w =
     (case on_host (rand_Read os 16) w of
        (Inl err, w) \<Rightarrow> (Inl err, w)
      | (Inr b, w) \<Rightarrow> (Inr (hex_encode b), w))"

section \<open>Configure\<close>

text \<open>The checks that \<open>Configure\<close> makes before it looks at the state of the instance.\<close>

definition configure_checks ::
  "('m, 'h) vmm_host \<Rightarrow> ('l, 'p \<times> 'h) lease_ops \<Rightarrow> ('l, 'm) instance_rec \<Rightarrow> 'p \<times> 'h \<Rightarrow> string result \<times> 'p \<times> 'h" where
  "configure_checks os L i w =
     (case generateInstanceID os w of
        (Inl err, w) \<Rightarrow> (Inl (Wrapf ''generate instance ID: '' err []), w)
      | (Inr instanceID, w) \<Rightarrow>
          (case vm_Validate (inst_cfg i) of
             Some err \<Rightarrow> (Inl (Wrapf ''invalid config: '' err []), w)
           | None \<Rightarrow>
               (case validateRuntimeAssets (os_Lstat os (snd w)) (inst_cfg i) (snapCfg i) of
                  Some err \<Rightarrow> (Inl err, w)
                | None \<Rightarrow>
                    (case net_Validate (lease_Config L (network i)) of
                       Some err \<Rightarrow> (Inl (Wrapf ''invalid network config: '' err []), w)
                     | None \<Rightarrow> (Inr instanceID, w)))))"

text \<open>
  The boot source: a snapshot, checked against the expected hashes, or a kernel with its
  arguments.
\<close>

definition boot_source ::
  "hash \<Rightarrow> read_file \<Rightarrow> ('l, 'm) instance_rec \<Rightarrow> fc_config \<Rightarrow> fc_config result" where
  "boot_source sha read i fcConfig =
     (if EnableResume (snapCfg i) then
        (if MemFilePath (snapCfg i) = [] \<or> StateFilePath (snapCfg i) = []
         then Inl (Errorf ''snapshot restore enabled but snapshot paths are missing'')
         else case validateSnapshotIntegrity sha read (snapCfg i) (snapInteg i) of
                Some err \<Rightarrow> Inl (Wrapf ''validate snapshot integrity: '' err [])
              | None \<Rightarrow> Inr (fcConfig\<lparr>fc_Snapshot :=
                          Some (MemFilePath (snapCfg i), StateFilePath (snapCfg i))\<rparr>))
      else
        (case guestKernelArgs (BootArgs (inst_cfg i)) (GuestAgentPath (inst_cfg i)) of
           Inl err \<Rightarrow> Inl err
         | Inr kernelArgs \<Rightarrow>
             Inr (fcConfig\<lparr>fc_KernelImagePath := KernelPath (inst_cfg i), fc_KernelArgs := kernelArgs\<rparr>)))"

text \<open>Everything between the state change to configuring and the new machine.\<close>

definition configure_body ::
  "hash \<Rightarrow> ('m, 'h) vmm_host \<Rightarrow> ('l, 'p \<times> 'h) lease_ops \<Rightarrow> ('l, 'm) instance_rec \<Rightarrow> net_config \<Rightarrow> 'p \<times> 'h
    \<Rightarrow> 'm result \<times> 'l \<times> 'p \<times> 'h" where
  "configure_body sha os L i netCfg w =
     (case lease_Setup L (network i) w of
        (Some err, l, w) \<Rightarrow> (Inl (Wrapf ''setup network resources: '' err []), l, w)
      | (None, l, w) \<Rightarrow>
          (case ParseCIDR (GuestIP netCfg) of
             None \<Rightarrow> (Inl (Wrapf (''parse guest IP '' @ Quote (GuestIP netCfg) @ '': '')
                        (Errorf (''invalid CIDR address: '' @ GuestIP netCfg)) []), l, w)
           | Some (guestIP, guestNetwork) \<Rightarrow>
               (case ParseIP (HostIP netCfg) of
                  None \<Rightarrow> (Inl (Errorf (''parse host/gateway IP '' @ Quote (HostIP netCfg) @ '': invalid IP'')), l, w)
                | Some gatewayIP \<Rightarrow>
                    (case boot_source sha (os_ReadFile os (snd w)) i
                       \<lparr>fc_SocketPath = SocketPath i, fc_RootfsPath = RootfsPath (inst_cfg i),
                        fc_VcpuCount = VCPUCount (inst_cfg i), fc_MemSizeMib = MemSizeMB (inst_cfg i),
                        fc_HostDevName = TapName netCfg, fc_MacAddress = generateMAC sha (inst_ID i),
                        fc_GuestIP = guestIP, fc_GuestMask = net_mask guestNetwork,
                        fc_Gateway = gatewayIP, fc_GuestCID = GuestCID i,
                        fc_KernelImagePath = [], fc_KernelArgs = [], fc_Snapshot = None\<rparr> of
                       Inl err \<Rightarrow> (Inl err, l, w)
                     | Inr fcConfig \<Rightarrow>
                         (case on_host (fc_NewMachine os fcConfig) w of
                            (Inl err, w) \<Rightarrow> (Inl (Wrapf ''create firecracker machine: '' err []), l, w)
                          | (Inr m, w) \<Rightarrow> (Inr m, l, w))))))"

definition Configure ::
  "hash \<Rightarrow> ('m, 'h) vmm_host \<Rightarrow> ('l, 'p \<times> 'h) lease_ops \<Rightarrow> ('l, 'm) instance_rec \<Rightarrow> 'p \<times> 'h
    \<Rightarrow> error option \<times> ('l, 'm) instance_rec \<times> 'p \<times> 'h" where
  "Configure sha os L i w =
     (case configure_checks os L i w of
        (Inl err, w) \<Rightarrow> (Some err, i, w)
      | (Inr instanceID, w) \<Rightarrow>
          if inst_state i \<noteq> StateCreated
          then (Some (Errorf (''instance '' @ inst_ID i @ '' cannot be configured in state ''
                  @ state_String (inst_state i))), i, w)
          else
            let i = i\<lparr>inst_state := StateConfiguring, InstanceID := instanceID\<rparr>
            in case configure_body sha os L i (lease_Config L (network i)) w of
                 (Inr m, l, w) \<Rightarrow> (None, i\<lparr>network := l, machine := Some m, inst_state := StateConfigured\<rparr>, w)
               | (Inl err, l, w) \<Rightarrow>
                   (case lease_Release L l w of
                      (Some cleanupErr, l, w) \<Rightarrow>
                        (errors_Join [Some err, Some (Wrapf
                           ''cleanup network resources after configure failure: '' cleanupErr [])],
                         i\<lparr>network := l, inst_state := StateCleanupFailed\<rparr>, w)
                    | (None, l, w) \<Rightarrow> (Some err, i\<lparr>network := l, inst_state := StateCreated\<rparr>, w)))"

section \<open>Start\<close>

definition Start ::
  "('m, 'h) vmm_host \<Rightarrow> ('l, 'm) instance_rec \<Rightarrow> 'p \<times> 'h \<Rightarrow> error option \<times> ('l, 'm) instance_rec \<times> 'p \<times> 'h" where
  "Start os i w =
     (if inst_state i \<noteq> StateConfigured
      then (Some (Errorf (''instance '' @ inst_ID i @ '' cannot be started in state ''
              @ state_String (inst_state i))), i, w)
      else case machine i of
        None \<Rightarrow> (Some (Errorf ''machine not configured''), i, w)
      | Some m \<Rightarrow>
          let i = i\<lparr>inst_state := StateStarting\<rparr>
          in case (if EnableResume (snapCfg i) then on_host (fc_ResumeVM os m) w else on_host (fc_Start os m) w) of
               (Some err, w) \<Rightarrow>
                 (Some (if EnableResume (snapCfg i) then Wrapf ''resume microvm snapshot: '' err []
                        else Wrapf ''start guest os: '' err []),
                  i\<lparr>inst_state := StateConfigured\<rparr>, w)
             | (None, w) \<Rightarrow>
                 if inst_state i \<noteq> StateStarting
                 then (Some (Errorf (''instance '' @ inst_ID i @ '' start completed in unexpected state ''
                         @ state_String (inst_state i))), i, w)
                 else (None, i\<lparr>inst_state := StateRunning\<rparr>, w))"

section \<open>Stop\<close>

definition stoppable :: "vm_state \<Rightarrow> bool" where
  "stoppable s \<longleftrightarrow> s = StateRunning \<or> s = StateConfigured \<or> s = StateCleanupFailed"

definition stop_machine :: "('m, 'h) vmm_host \<Rightarrow> 'm option \<Rightarrow> 'p \<times> 'h \<Rightarrow> error list \<times> bool \<times> 'p \<times> 'h" where
  "stop_machine os m w =
     (case m of
        None \<Rightarrow> ([], True, w)
      | Some m \<Rightarrow>
          (case on_host (fc_StopVMM os m) w of
             (Some err, w) \<Rightarrow> ([Wrapf ''stop vmm: '' err []], False, w)
           | (None, w) \<Rightarrow> ([], True, w)))"

definition remove_socket :: "('m, 'h) vmm_host \<Rightarrow> bool \<Rightarrow> string \<Rightarrow> 'p \<times> 'h \<Rightarrow> error list \<times> bool \<times> 'p \<times> 'h" where
  "remove_socket os machineStopped socketPath w =
     (if \<not> machineStopped then ([], False, w)
      else case on_host (os_Remove os socketPath) w of
             (RemoveError err, w) \<Rightarrow> ([Wrapf ''remove socket: '' err []], False, w)
           | (_, w) \<Rightarrow> ([], True, w))"

definition Stop ::
  "('m, 'h) vmm_host \<Rightarrow> ('l, 'p \<times> 'h) lease_ops \<Rightarrow> ('l, 'm) instance_rec \<Rightarrow> 'p \<times> 'h
    \<Rightarrow> error option \<times> ('l, 'm) instance_rec \<times> 'p \<times> 'h" where
  "Stop os L i w =
     (if \<not> stoppable (inst_state i) then (None, i, w)
      else
        let i = i\<lparr>inst_state := StateStopping\<rparr>;
            (errs1, machineStopped, w) = stop_machine os (machine i) w;
            (rel, l, w) = lease_Release L (network i) w;
            errs2 = (case rel of Some err \<Rightarrow> [Wrapf ''release network resources: '' err []] | None \<Rightarrow> []);
            networkReleased = (rel = None);
            (errs3, socketRemoved, w) = remove_socket os machineStopped (SocketPath i) w;
            errs = errs1 @ errs2 @ errs3;
            i = i\<lparr>network := l, machine := (if machineStopped then None else machine i)\<rparr>
        in if errs \<noteq> [] \<or> \<not> machineStopped \<or> \<not> networkReleased \<or> \<not> socketRemoved
           then (Some (case errors_Join (map Some errs) of
                         Some err \<Rightarrow> Wrapf (''stop instance '' @ inst_ID i @ '': '') err []
                       | None \<Rightarrow> Errorf (''stop instance '' @ inst_ID i @ '': %!w(<nil>)'')), i\<lparr>inst_state := StateCleanupFailed\<rparr>, w)
           else (None, i\<lparr>inst_state := StateStopped\<rparr>, w))"

section \<open>The leases of the program\<close>

definition alloc_ops :: "'h net_host \<Rightarrow> (allocation, ipam \<times> 'h) lease_ops" where
  "alloc_ops os = \<lparr>lease_Config = a_cfg, lease_CID = a_cid,
                   lease_Setup = alloc_Setup os, lease_Release = alloc_Release os\<rparr>"

section \<open>Well-formed instances\<close>

text \<open>
  Between two calls an instance is in none of the transient states; a configured or running
  instance has a machine and a live lease, and a stopped one has neither.
\<close>

definition inst_wf :: "('l \<Rightarrow> bool) \<Rightarrow> ('l, 'm) instance_rec \<Rightarrow> bool" where
  "inst_wf released i \<longleftrightarrow>
     (case inst_state i of
        StateCreated \<Rightarrow> machine i = None
      | StateConfigured \<Rightarrow> machine i \<noteq> None \<and> \<not> released (network i)
      | StateRunning \<Rightarrow> machine i \<noteq> None \<and> \<not> released (network i)
      | StateStopped \<Rightarrow> machine i = None \<and> released (network i)
      | StateCleanupFailed \<Rightarrow> True
      | _ \<Rightarrow> False)"

text \<open>A client that calls the methods of one instance in any order.\<close>

datatype inst_call = CallConfigure | CallStart | CallStop

fun inst_step ::
  "hash \<Rightarrow> ('m, 'h) vmm_host \<Rightarrow> ('l, 'p \<times> 'h) lease_ops \<Rightarrow> inst_call
    \<Rightarrow> ('l, 'm) instance_rec \<times> 'p \<times> 'h \<Rightarrow> ('l, 'm) instance_rec \<times> 'p \<times> 'h" where
  "inst_step sha os L CallConfigure (i, w) = snd (Configure sha os L i w)"
| "inst_step sha os L CallStart (i, w) = snd (Start os i w)"
| "inst_step sha os L CallStop (i, w) = snd (Stop os L i w)"

definition inst_run ::
  "hash \<Rightarrow> ('m, 'h) vmm_host \<Rightarrow> ('l, 'p \<times> 'h) lease_ops \<Rightarrow> inst_call list
    \<Rightarrow> ('l, 'm) instance_rec \<times> 'p \<times> 'h \<Rightarrow> ('l, 'm) instance_rec \<times> 'p \<times> 'h" where
  "inst_run sha os L cs s = fold (inst_step sha os L) cs s"

text \<open>A host on which everything succeeds, for the examples.\<close>

definition idle_vmm :: "(unit, unit) vmm_host" where
  "idle_vmm = \<lparr>rand_Read = (\<lambda>n h. (Inr (replicate n 0), h)), os_Lstat = (\<lambda>_ _. Inr RegularFile),
     os_ReadFile = (\<lambda>_ _. Inr []), fc_NewMachine = (\<lambda>_ h. (Inr (), h)), fc_Start = (\<lambda>_ h. (None, h)),
     fc_ResumeVM = (\<lambda>_ h. (None, h)), fc_StopVMM = (\<lambda>_ h. (None, h)), os_Remove = (\<lambda>_ h. (Removed, h))\<rparr>"

locale vm_lease =
  fixes L :: "('l, 'p \<times> 'h) lease_ops" and released :: "'l \<Rightarrow> bool"
  assumes lease: "network_lease (lease_Setup L) (lease_Release L) (lease_Config L) (lease_CID L) released"

sublocale vm_lease \<subseteq> lease: network_lease "lease_Setup L" "lease_Release L" "lease_Config L" "lease_CID L" released
  by (rule lease)

context vm_lease
begin

lemma configure_body_live:
  "configure_body sha os L i cfg w = (Inr m, l, w') \<Longrightarrow> \<not> released l"
  by (auto simp: configure_body_def split: prod.splits option.splits sum.splits
      dest: lease.setup_ok_live)

lemma Configure_cases:
  assumes "Configure sha os L i w = (r, i', w')"
  obtains (refused) e where "r = Some e" "i' = i" "fst w' = fst w"
    | (ok) iid m l where "r = None" "inst_state i = StateCreated" "\<not> released l"
        "i' = i\<lparr>InstanceID := iid, network := l, machine := Some m, inst_state := StateConfigured\<rparr>"
    | (undone) iid e l where "r = Some e" "inst_state i = StateCreated" "released l"
        "i' = i\<lparr>InstanceID := iid, network := l, inst_state := StateCreated\<rparr>"
    | (dirty) iid e l where "r = Some e" "inst_state i = StateCreated" "\<not> released l"
        "i' = i\<lparr>InstanceID := iid, network := l, inst_state := StateCleanupFailed\<rparr>"
proof -
  obtain c w1 where c: "configure_checks os L i w = (c, w1)" by (metis surj_pair)
  have w1: "fst w1 = fst w"
    using c by (auto simp: configure_checks_def generateInstanceID_def on_host_def
        split: prod.splits sum.splits option.splits)
  show ?thesis
  proof (cases c)
    case (Inl e)
    then show ?thesis using assms c w1 by (intro refused [of e]) (auto simp: Configure_def)
  next
    case (Inr iid)
    show ?thesis
    proof (cases "inst_state i = StateCreated")
      case False
      then show ?thesis using assms c w1 Inr by (intro refused) (auto simp: Configure_def)
    next
      case True
      define j where "j = i\<lparr>inst_state := StateConfiguring, InstanceID := iid\<rparr>"
      obtain b l w2 where b: "configure_body sha os L j (lease_Config L (network j)) w1 = (b, l, w2)"
        by (metis prod_cases3)
      obtain rr l3 w3 where rel: "lease_Release L l w2 = (rr, l3, w3)" by (metis prod_cases3)
      show ?thesis
      proof (cases b)
        case (Inr m)
        then show ?thesis
          using assms c b True \<open>c = Inr iid\<close> configure_body_live [of sha os j _ w1 m l w2]
          by (intro ok [where l = l and iid = iid and m = m]) (auto simp: Configure_def j_def Let_def)
      next
        case (Inl e)
        then show ?thesis
          using assms c b True \<open>c = Inr iid\<close> rel lease.release_iff [OF rel]
            undone [where l = l3 and iid = iid] dirty [where l = l3 and iid = iid]
          by (cases rr) (auto simp: Configure_def j_def Let_def)
      qed
    qed
  qed
qed

lemma inst_wf_Configure:
  "inst_wf released i \<Longrightarrow> Configure sha os L i w = (r, i', w') \<Longrightarrow> inst_wf released i'"
  by (erule Configure_cases) (auto simp: inst_wf_def)

lemma Stop_result:
  assumes "Stop os L i w = (r, i', w')" and "stoppable (inst_state i)"
  shows "\<exists>l m. i' = i\<lparr>network := l, machine := m, inst_state := (if r = None then StateStopped else StateCleanupFailed)\<rparr>
    \<and> (m = None \<or> m = machine i) \<and> (r = None \<longrightarrow> m = None \<and> released l)"
proof -
  obtain e1 b1 w1 where m: "stop_machine os (machine i) w = (e1, b1, w1)" by (metis prod_cases3)
  obtain rel l w2 where l: "lease_Release L (network i) w1 = (rel, l, w2)" by (metis prod_cases3)
  obtain e3 b3 w3 where s: "remove_socket os b1 (SocketPath i) w2 = (e3, b3, w3)" by (metis prod_cases3)
  show ?thesis
    using assms m l s lease.release_iff [OF l]
    by (intro exI [of _ l] exI [of _ "if b1 then None else machine i"])
       (auto simp: Stop_def Let_def split: if_splits)
qed

lemma inst_wf_Stop:
  assumes "inst_wf released i" and "Stop os L i w = (r, i', w')"
  shows "inst_wf released i'"
proof (cases "stoppable (inst_state i)")
  case True
  then show ?thesis using Stop_result [OF assms(2)] by (auto simp: inst_wf_def)
next
  case False
  then show ?thesis using assms by (simp add: Stop_def)
qed

text \<open>
  What the leases keep of the shared state, \<open>Configure\<close> and \<open>Stop\<close> keep.
\<close>

lemma Configure_lease_inv:
  assumes "Configure sha os L i w = (r, i', w')" and "P (network i) (fst w)"
    and keep_setup: "\<And>l p h r l' p' h'. P l p \<Longrightarrow> lease_Setup L l (p, h) = (r, l', (p', h')) \<Longrightarrow> P l' p'"
    and keep_release: "\<And>l p h r l' p' h'. P l p \<Longrightarrow> lease_Release L l (p, h) = (r, l', (p', h')) \<Longrightarrow> P l' p'"
  shows "P (network i') (fst w')"
proof -
  obtain c w1 where c: "configure_checks os L i w = (c, w1)" by (metis surj_pair)
  have w1: "fst w1 = fst w"
    using c by (auto simp: configure_checks_def generateInstanceID_def on_host_def
        split: prod.splits sum.splits option.splits)
  have body: "P l' p'" if "configure_body sha os L j cfg (p, h) = (b, l', (p', h'))" "P (network j) p"
    for j :: "('l, 'a) instance_rec" and cfg p h b l' p' h'
  proof -
    obtain e l2 p2 h2 where "lease_Setup L (network j) (p, h) = (e, l2, (p2, h2))" by (metis prod_cases4)
    moreover from this that(1) have "l' = l2 \<and> p' = p2"
      by (auto simp: configure_body_def on_host_def split: option.splits prod.splits sum.splits)
    ultimately show ?thesis using keep_setup that(2) by blast
  qed
  show ?thesis
    using assms(1,2) c w1
    by (cases w1) (auto simp: Configure_def Let_def split: sum.splits if_splits prod.splits option.splits
        dest!: body dest: keep_release)
qed

lemma Stop_lease_inv:
  assumes "Stop os L i w = (r, i', w')" and "P (network i) (fst w)"
    and keep_release: "\<And>l p h r l' p' h'. P l p \<Longrightarrow> lease_Release L l (p, h) = (r, l', (p', h')) \<Longrightarrow> P l' p'"
  shows "P (network i') (fst w')"
proof -
  obtain e1 b1 w1 where m: "stop_machine os (machine i) w = (e1, b1, w1)" by (metis prod_cases3)
  obtain rel l w2 where l: "lease_Release L (network i) w1 = (rel, l, w2)" by (metis prod_cases3)
  obtain e3 b3 w3 where s: "remove_socket os b1 (SocketPath i) w2 = (e3, b3, w3)" by (metis prod_cases3)
  have "fst w1 = fst w"
    using m by (auto simp: stop_machine_def on_host_def split: option.splits prod.splits)
  moreover have "fst w3 = fst w2"
    using s by (auto simp: remove_socket_def on_host_def split: if_splits prod.splits remove_result.splits)
  ultimately have "P l (fst w3)"
    using assms(2) l keep_release [of "network i" "fst w1" "snd w1" rel l "fst w2" "snd w2"] by (cases w1) simp
  moreover have "\<not> stoppable (inst_state i) \<and> i' = i \<and> w' = w \<or> network i' = l \<and> w' = w3"
    using assms(1) m l s by (auto simp: Stop_def Let_def split: if_splits)
  ultimately show ?thesis using assms(2) by auto
qed

end

interpretation vm_alloc: vm_lease "alloc_ops os" a_released for os :: "'h net_host"
  by (rule vm_lease.intro) (simp add: alloc_ops_def alloc_lease.network_lease_axioms)

lemma Start_cases:
  assumes "Start os i w = (r, i', w')"
  obtains (refused) e where "r = Some e" "i' = i" "w' = w"
    | (failed) e where "r = Some e" "i' = i" "inst_state i = StateConfigured" "fst w' = fst w"
    | (ok) "r = None" "i' = i\<lparr>inst_state := StateRunning\<rparr>" "inst_state i = StateConfigured" "machine i \<noteq> None"
        "fst w' = fst w"
  using assms
  by (auto simp: Start_def on_host_def Let_def split: if_splits option.splits prod.splits)

lemma inst_wf_Start: "inst_wf released i \<Longrightarrow> Start os i w = (r, i', w') \<Longrightarrow> inst_wf released i'"
  by (erule Start_cases) (auto simp: inst_wf_def)

lemma inst_wf_step:
  assumes "inst_wf a_released (fst s)"
  shows "inst_wf a_released (fst (inst_step sha os (alloc_ops nos) c s))"
proof -
  obtain i w where s: "s = (i, w)" by (cases s)
  show ?thesis
  proof (cases c)
    case CallConfigure
    then show ?thesis
      using assms s vm_alloc.inst_wf_Configure [of i sha os nos w]
      by (cases "Configure sha os (alloc_ops nos) i w") simp
  next
    case CallStart
    then show ?thesis using assms s inst_wf_Start [of a_released i os w] by (cases "Start os i w") simp
  next
    case CallStop
    then show ?thesis
      using assms s vm_alloc.inst_wf_Stop [of i os nos w] by (cases "Stop os (alloc_ops nos) i w") simp
  qed
qed

section \<open>Properties\<close>

text \<open>
  State machine of an instance. However a client calls \<open>Configure\<close>, \<open>Start\<close> and \<open>Stop\<close> on
  a new instance, and however the host and Firecracker respond, the instance is never left in a
  transient state, a configured or running one has a machine and a live network lease, and a
  stopped one has no machine and has returned its lease.
\<close>

theorem instance_calls_wf:
  "inst_wf a_released
     (fst (inst_run sha os (alloc_ops nos) calls (NewInstance vmID sock cfg lease cid snap, w)))"
proof -
  have "inst_wf a_released (fst s) \<Longrightarrow> inst_wf a_released (fst (inst_run sha os (alloc_ops nos) calls s))" for s
    by (induction calls arbitrary: s) (auto simp: inst_run_def inst_wf_step)
  moreover have "inst_wf a_released (fst (NewInstance vmID sock cfg lease cid snap, w))"
    by (simp add: inst_wf_def NewInstance_def)
  ultimately show ?thesis .
qed



text \<open>
  \<open>Configure\<close> is all or nothing. It succeeds only on a new instance, which then has a machine
  and a live lease. If it fails, either nothing happened (a check failed, or the instance was
  not new), or the lease was rolled back and the instance is new again, or the rollback failed and
  the instance is marked for cleanup with its lease still held.
\<close>

theorem Configure_outcome:
  assumes "Configure sha os (alloc_ops nos) i w = (r, i', w')"
  shows "(r = None \<and> inst_state i = StateCreated \<and> inst_state i' = StateConfigured
            \<and> machine i' \<noteq> None \<and> \<not> a_released (network i'))
       \<or> (r \<noteq> None \<and> i' = i \<and> fst w' = fst w)
       \<or> (r \<noteq> None \<and> inst_state i = StateCreated \<and> inst_state i' = StateCreated
            \<and> machine i' = machine i \<and> a_released (network i'))
       \<or> (r \<noteq> None \<and> inst_state i = StateCreated \<and> inst_state i' = StateCleanupFailed
            \<and> machine i' = machine i \<and> \<not> a_released (network i'))"
  using assms by (cases rule: vm_alloc.Configure_cases) auto

theorem Configure_outcome_witness:
  "\<exists>e. Configure (\<lambda>_. []) idle_vmm (alloc_ops idle_host)
      (NewInstance ''vm'' ''s'' vm_DefaultConfig
          \<lparr>a_cfg = net_DefaultConfig ''t'', a_cid = 3, a_cleanup = [], a_released = False\<rparr> 3
          \<lparr>MemFilePath = [], StateFilePath = [], EnableResume = False\<rparr>) (NewIPAMPool, ())
     = (Some e, NewInstance ''vm'' ''s'' vm_DefaultConfig
          \<lparr>a_cfg = net_DefaultConfig ''t'', a_cid = 3, a_cleanup = [], a_released = False\<rparr> 3
          \<lparr>MemFilePath = [], StateFilePath = [], EnableResume = False\<rparr>, (NewIPAMPool, ()))"
proof -
  let ?i = "NewInstance ''vm'' ''s'' vm_DefaultConfig
          \<lparr>a_cfg = net_DefaultConfig ''t'', a_cid = 3, a_cleanup = [], a_released = False\<rparr> 3
          \<lparr>MemFilePath = [], StateFilePath = [], EnableResume = False\<rparr> :: (allocation, unit) instance_rec"
  have "Configure (\<lambda>_. []) idle_vmm (alloc_ops idle_host) ?i (NewIPAMPool, ())
      = (Some (Wrapf ''invalid config: '' (Errorf ''kernel path is required'') []), ?i, (NewIPAMPool, ()))"
    by (simp add: Configure_def configure_checks_def generateInstanceID_def on_host_def idle_vmm_def
        vm_Validate_def NewInstance_def vm_DefaultConfig_def)
  from this Configure_outcome [OF this] show ?thesis by simp
qed

end
