(* ===== verification/Lease_Ledger.thy ===== *)
theory Lease_Ledger
  imports Allocation "HOL-Library.Multiset"
begin

text \<open>
  The accounting of the IPAM pool: the subnets and context identifiers in use are exactly those of
  the leases that have not been released, each held by one lease. The ledger is the list of all
  leases ever acquired from the pool; \<open>Acquire\<close>, \<open>Setup\<close> and \<open>Release\<close> keep it balanced.
\<close>

definition lease_subnet :: "allocation \<Rightarrow> 16 word option" where
  "lease_subnet a = subnet_of (GuestIP (a_cfg a))"

definition live :: "allocation list \<Rightarrow> allocation list" where
  "live ls = filter (\<lambda>a. \<not> a_released a) ls"

definition leases_ok :: "ipam \<Rightarrow> allocation list \<Rightarrow> bool" where
  "leases_ok p ls \<longleftrightarrow> ipam_inv p
     \<and> distinct (map lease_subnet (live ls)) \<and> lease_subnet ` set (live ls) = Some ` usedSubnets p
     \<and> distinct (map a_cid (live ls)) \<and> a_cid ` set (live ls) = usedCIDs p"

lemma live_simps [simp]:
  "live [] = []" "live (xs @ ys) = live xs @ live ys"
  "live (a # xs) = (if a_released a then live xs else a # live xs)"
  by (simp_all add: live_def)

lemma leases_ok_New: "leases_ok NewIPAMPool []"
  by (simp add: leases_ok_def ipam_inv_New) (simp add: NewIPAMPool_def)

lemma leases_ok_released: "a_released a \<Longrightarrow> leases_ok p (xs @ a # ys) \<longleftrightarrow> leases_ok p (xs @ ys)"
  by (simp add: leases_ok_def)

lemma leases_ok_same:
  "a_cfg b = a_cfg a \<Longrightarrow> a_cid b = a_cid a \<Longrightarrow> a_released b = a_released a \<Longrightarrow>
   leases_ok p (xs @ b # ys) \<longleftrightarrow> leases_ok p (xs @ a # ys)"
  by (simp add: leases_ok_def lease_subnet_def)

lemma mset_distinct_map:
  "mset xs = mset ys \<Longrightarrow> distinct (map f xs) \<longleftrightarrow> distinct (map f ys)"
  by (metis mset_eq_imp_distinct_iff mset_map)

lemma leases_ok_mset: "mset ls = mset ks \<Longrightarrow> leases_ok p ls \<longleftrightarrow> leases_ok p ks"
proof -
  assume "mset ls = mset ks"
  then have eq: "mset (live ls) = mset (live ks)" by (simp add: live_def mset_filter)
  then have "set (live ls) = set (live ks)" by (rule mset_eq_setD)
  then show ?thesis
    unfolding leases_ok_def
    by (simp only: mset_distinct_map [OF eq, of lease_subnet] mset_distinct_map [OF eq, of a_cid])
qed

lemma leases_ok_move: "leases_ok p (xs @ ys @ a # zs) \<longleftrightarrow> leases_ok p (xs @ a # ys @ zs)"
  by (rule leases_ok_mset) simp

lemma leases_ok_Acquire:
  assumes "leases_ok p ls" and "Acquire sha vmID base (Some p) = (Inr a, q)"
  shows "\<exists>p'. q = Some p' \<and> leases_ok p' (ls @ [a]) \<and> \<not> a_released a"
proof -
  obtain cfg cid p' where al: "Allocate sha vmID base p = (Inr (cfg, cid), p')" and q: "q = Some p'"
    and a: "a = \<lparr>a_cfg = cfg, a_cid = cid, a_cleanup = [], a_released = False\<rparr>"
    using assms(2) by (auto simp: Acquire_def split: prod.splits sum.splits)
  have inv: "ipam_inv p" using assms(1) by (simp add: leases_ok_def)
  have "leases_ok p' (ls @ [a])"
    using al
  proof (cases rule: Allocate_cases)
    case (ok fs i fc cid')
    have i: "unat i < 256" "i \<notin> usedSubnets p" using ipam_inv_subnet [OF inv ok(1)] by auto
    have "lease_subnet a = Some i" using ok a i by (simp add: lease_subnet_def subnet_of_guest)
    moreover have "ipam_inv p'" using ipam_inv_Allocate [OF inv, of sha vmID base] al by simp
    ultimately show ?thesis
      using ok a i(2) ipam_inv_cid [OF inv ok(2)] assms(1) by (auto simp: leases_ok_def)
  qed auto
  then show ?thesis using q a by simp
qed

lemma leases_ok_Acquire_Inl:
  "Acquire sha vmID base (Some p) = (Inl e, q) \<Longrightarrow> q = Some p"
  by (auto simp: Acquire_def Allocate_def Let_def split: prod.splits sum.splits if_splits)

lemma leases_ok_return:
  assumes "leases_ok p (xs @ a # ys)" and "\<not> a_released a"
  shows "leases_ok (ipam_Release (GuestIP (a_cfg a)) (a_cid a) p) (xs @ ys)"
proof -
  let ?p = "ipam_Release (GuestIP (a_cfg a)) (a_cid a) p"
  have "lease_subnet ` set (live (xs @ ys)) = Some ` usedSubnets ?p"
  proof -
    have "lease_subnet a \<notin> lease_subnet ` set (live (xs @ ys))"
      using assms by (simp add: leases_ok_def image_Un)
    moreover have "insert (lease_subnet a) (lease_subnet ` set (live (xs @ ys))) = Some ` usedSubnets p"
      using assms by (auto simp: leases_ok_def)
    ultimately have "lease_subnet ` set (live (xs @ ys)) = Some ` usedSubnets p - {lease_subnet a}" by blast
    also have "\<dots> = Some ` usedSubnets ?p"
      by (cases "lease_subnet a") (auto simp: ipam_Release_used lease_subnet_def)
    finally show ?thesis .
  qed
  moreover have "a_cid ` set (live (xs @ ys)) = usedCIDs ?p"
  proof -
    have "a_cid a \<notin> a_cid ` set (live (xs @ ys))"
      using assms by (simp add: leases_ok_def image_Un)
    moreover have "insert (a_cid a) (a_cid ` set (live (xs @ ys))) = usedCIDs p"
      using assms by (auto simp: leases_ok_def)
    ultimately show ?thesis unfolding ipam_Release_used by blast
  qed
  moreover have "ipam_inv ?p" using assms by (simp add: leases_ok_def ipam_inv_Release)
  ultimately show ?thesis using assms by (simp add: leases_ok_def)
qed

lemma leases_ok_Setup:
  "leases_ok p (xs @ a # ys) \<Longrightarrow> alloc_Setup os a (p, h) = (r, a', (p', h')) \<Longrightarrow> leases_ok p' (xs @ a' # ys)"
  using alloc_Setup_keeps [of os a "(p, h)" r a' "(p', h')"] leases_ok_same [of a' a p xs ys] by simp

lemma leases_ok_Release:
  assumes "leases_ok p (xs @ a # ys)" and "alloc_Release os a (p, h) = (r, a', (p', h'))"
  shows "leases_ok p' (xs @ a' # ys)"
proof (cases "a_released a")
  case True
  then show ?thesis using assms by (simp add: alloc_released)
next
  case False
  from assms(2) False show ?thesis
  proof (cases rule: alloc_Release_cases)
    case (failed errs)
    then show ?thesis
      using assms(1) False leases_ok_same [of a' a p xs ys] alloc_Release_keeps [OF assms(2)] by simp
  next
    case ok
    then show ?thesis using leases_ok_return [OF assms(1) False] leases_ok_released [of a' p' xs ys] by simp
  qed
qed

end
