(* ===== verification/Vmm_Manager.thy ===== *)
theory Vmm_Manager
  imports Vmm_Instance Lease_Ledger
begin

text \<open>
  \<open>internal/core/vmm/manager.go\<close>: the manager of resident microVMs. Instances are objects that
  the map, the warm pool and callers share, so they live in a heap, and a reference is an index
  into it; the comparison of pointers in the code is the comparison of references. The map is an
  association list, whose order stands for Go's unspecified iteration order. The channel
  \<open>provision\<close> is the number of tokens in it.
\<close>

section \<open>The manager\<close>

definition ErrBackpressure :: error where
  "ErrBackpressure = Sentinel ''vmm admission limit reached''"

record manager_limits =
  MaxVMs :: int
  MaxConcurrentProvision :: int

definition DefaultManagerLimits :: manager_limits where
  "DefaultManagerLimits = \<lparr>MaxVMs = 256, MaxConcurrentProvision = 8\<rparr>"

record 'm manager =
  instances :: "(string \<times> nat) list"
  inst_heap :: "(allocation, 'm) instance_rec list"
  baseCfg :: vm_config
  netCfg :: net_config
  m_snapCfg :: snapshot_config
  m_ipam :: ipam
  limits :: manager_limits
  provision :: nat

text \<open>What the manager needs of its environment; \<open>env_tmp\<close> is \<open>os.TempDir()\<close>.\<close>

record ('m, 'h) vmm_env =
  env_sha :: hash
  env_tmp :: string
  env_net :: "'h net_host"
  env_vmm :: "('m, 'h) vmm_host"

definition NewManagerWithLimits ::
  "vm_config \<Rightarrow> net_config \<Rightarrow> snapshot_config \<Rightarrow> manager_limits \<Rightarrow> 'm manager" where
  "NewManagerWithLimits base net snap lim =
     (let lim = (if MaxVMs lim \<le> 0 then lim\<lparr>MaxVMs := MaxVMs DefaultManagerLimits\<rparr> else lim);
          lim = (if MaxConcurrentProvision lim \<le> 0
                 then lim\<lparr>MaxConcurrentProvision := MaxConcurrentProvision DefaultManagerLimits\<rparr> else lim)
      in \<lparr>instances = [], inst_heap = [], baseCfg = base, netCfg = net, m_snapCfg = snap,
          m_ipam = NewIPAMPool, limits = lim, provision = 0\<rparr>)"

definition NewManager :: "vm_config \<Rightarrow> net_config \<Rightarrow> snapshot_config \<Rightarrow> 'm manager" where
  "NewManager base net snap = NewManagerWithLimits base net snap DefaultManagerLimits"

section \<open>CreateVM\<close>

definition err_resident :: "'m manager \<Rightarrow> error" where
  "err_resident m = Wrapf [] ErrBackpressure ('': maximum of '' @ Itoa (MaxVMs (limits m)) @ '' resident VMs'')"

definition err_exists :: "string \<Rightarrow> error" where
  "err_exists vmID = Errorf (''vm '' @ vmID @ '' already exists'')"

text \<open>The first critical section.\<close>

definition create_admit :: "string \<Rightarrow> 'm manager \<Rightarrow> error option" where
  "create_admit vmID m =
     (if MaxVMs (limits m) \<le> int (length (instances m)) then Some (err_resident m)
      else if map_of (instances m) vmID \<noteq> None then Some (err_exists vmID)
      else None)"

text \<open>
  The second critical section, with the release of the lease that follows when it refuses the
  VM.
\<close>

definition socket_path :: "string \<Rightarrow> string \<Rightarrow> string" where
  "socket_path tmp vmID = filepath_Join [tmp, ''firecracker-'' @ vmID @ ''.sock'']"

definition drop_lease :: "('m, 'h) vmm_env \<Rightarrow> allocation \<Rightarrow> 'm manager \<Rightarrow> 'h \<Rightarrow> 'm manager \<times> 'h" where
  "drop_lease E a m h =
     (case alloc_Release (env_net E) a (m_ipam m, h) of (_, _, (p, h)) \<Rightarrow> (m\<lparr>m_ipam := p\<rparr>, h))"

definition create_commit ::
  "('m, 'h) vmm_env \<Rightarrow> string \<Rightarrow> allocation \<Rightarrow> 'm manager \<Rightarrow> 'h \<Rightarrow> nat result \<times> 'm manager \<times> 'h" where
  "create_commit E vmID a m h =
     (if map_of (instances m) vmID \<noteq> None then (Inl (err_exists vmID), drop_lease E a m h)
      else if MaxVMs (limits m) \<le> int (length (instances m)) then (Inl (err_resident m), drop_lease E a m h)
      else
        let ref = length (inst_heap m);
            inst = NewInstance vmID (socket_path (env_tmp E) vmID) (baseCfg m) a (a_cid a) (m_snapCfg m)
        in (Inr ref, m\<lparr>inst_heap := inst_heap m @ [inst],
                       instances := AList.update vmID ref (instances m)\<rparr>, h))"

definition CreateVM ::
  "('m, 'h) vmm_env \<Rightarrow> string \<Rightarrow> 'm manager \<Rightarrow> 'h \<Rightarrow> nat result \<times> 'm manager \<times> 'h" where
  "CreateVM E vmID m h =
     (case validateVMID vmID of
        Some err \<Rightarrow> (Inl err, m, h)
      | None \<Rightarrow>
          (case create_admit vmID m of
             Some err \<Rightarrow> (Inl err, m, h)
           | None \<Rightarrow>
               (case Acquire (env_sha E) vmID (netCfg m) (Some (m_ipam m)) of
                  (Inl err, p) \<Rightarrow>
                    (Inl (Wrapf (''allocate resources for vm '' @ vmID @ '': '') err []),
                     m\<lparr>m_ipam := (case p of Some p \<Rightarrow> p | None \<Rightarrow> m_ipam m)\<rparr>, h)
                | (Inr a, p) \<Rightarrow>
                    create_commit E vmID a (m\<lparr>m_ipam := (case p of Some p \<Rightarrow> p | None \<Rightarrow> m_ipam m)\<rparr>) h)))"

section \<open>Methods of instances in the heap\<close>

definition on_inst ::
  "((allocation, 'm) instance_rec \<Rightarrow> ipam \<times> 'h \<Rightarrow> error option \<times> (allocation, 'm) instance_rec \<times> ipam \<times> 'h)
    \<Rightarrow> nat \<Rightarrow> 'm manager \<Rightarrow> 'h \<Rightarrow> error option \<times> 'm manager \<times> 'h" where
  "on_inst f ref m h =
     (case f (inst_heap m ! ref) (m_ipam m, h) of
        (r, i, (p, h)) \<Rightarrow> (r, m\<lparr>inst_heap := (inst_heap m)[ref := i], m_ipam := p\<rparr>, h))"

definition vm_Configure :: "('m, 'h) vmm_env \<Rightarrow> nat \<Rightarrow> 'm manager \<Rightarrow> 'h \<Rightarrow> error option \<times> 'm manager \<times> 'h" where
  "vm_Configure E = on_inst (Configure (env_sha E) (env_vmm E) (alloc_ops (env_net E)))"

definition vm_Start :: "('m, 'h) vmm_env \<Rightarrow> nat \<Rightarrow> 'm manager \<Rightarrow> 'h \<Rightarrow> error option \<times> 'm manager \<times> 'h" where
  "vm_Start E = on_inst (Start (env_vmm E))"

definition vm_Stop :: "('m, 'h) vmm_env \<Rightarrow> nat \<Rightarrow> 'm manager \<Rightarrow> 'h \<Rightarrow> error option \<times> 'm manager \<times> 'h" where
  "vm_Stop E = on_inst (Stop (env_vmm E) (alloc_ops (env_net E)))"

text \<open>The critical section that forgets an instance: only if the map still holds this very one.\<close>

definition forget :: "string \<Rightarrow> nat \<Rightarrow> 'm manager \<Rightarrow> 'm manager" where
  "forget vmID ref m =
     (if map_of (instances m) vmID = Some ref
      then m\<lparr>instances := AList.delete vmID (instances m)\<rparr> else m)"

section \<open>ProvisionVM\<close>

definition removeFailedVM ::
  "('m, 'h) vmm_env \<Rightarrow> string \<Rightarrow> nat \<Rightarrow> 'm manager \<Rightarrow> 'h \<Rightarrow> error option \<times> 'm manager \<times> 'h" where
  "removeFailedVM E vmID ref m h =
     (case vm_Stop E ref m h of
        (Some err, m, h) \<Rightarrow> (Some err, m, h)
      | (None, m, h) \<Rightarrow> (None, forget vmID ref m, h))"

definition provision_failed ::
  "('m, 'h) vmm_env \<Rightarrow> string \<Rightarrow> string \<Rightarrow> nat \<Rightarrow> error \<Rightarrow> 'm manager \<Rightarrow> 'h \<Rightarrow> nat result \<times> 'm manager \<times> 'h" where
  "provision_failed E what vmID ref err m h =
     (case removeFailedVM E vmID ref m h of
        (Some cleanupErr, m, h) \<Rightarrow>
          (Inl (Joined [Wrapf (what @ '' vm '' @ vmID @ '': '') err [],
                        Wrapf (''cleanup vm '' @ vmID @ '': '') cleanupErr []]), m, h)
      | (None, m, h) \<Rightarrow> (Inl (Wrapf (what @ '' vm '' @ vmID @ '': '') err []), m, h))"

definition provision_body ::
  "('m, 'h) vmm_env \<Rightarrow> error option \<Rightarrow> string \<Rightarrow> 'm manager \<Rightarrow> 'h \<Rightarrow> nat result \<times> 'm manager \<times> 'h" where
  "provision_body E ctxErr vmID m h =
     (case ctxErr of
        Some err \<Rightarrow> (Inl err, m, h)
      | None \<Rightarrow>
          (case CreateVM E vmID m h of
             (Inl err, m, h) \<Rightarrow> (Inl err, m, h)
           | (Inr inst, m, h) \<Rightarrow>
               (case vm_Configure E inst m h of
                  (Some err, m, h) \<Rightarrow> provision_failed E ''configure'' vmID inst err m h
                | (None, m, h) \<Rightarrow>
                    (case vm_Start E inst m h of
                       (Some err, m, h) \<Rightarrow> provision_failed E ''start'' vmID inst err m h
                     | (None, m, h) \<Rightarrow> (Inr inst, m, h)))))"

definition ProvisionVM ::
  "('m, 'h) vmm_env \<Rightarrow> error option \<Rightarrow> string \<Rightarrow> 'm manager \<Rightarrow> 'h \<Rightarrow> nat result \<times> 'm manager \<times> 'h" where
  "ProvisionVM E ctxErr vmID m h =
     (if MaxConcurrentProvision (limits m) \<le> int (provision m)
      then (Inl (Wrapf [] ErrBackpressure ('': '' @ Itoa (MaxConcurrentProvision (limits m))
              @ '' provisioning operations already running'')), m, h)
      else case provision_body E ctxErr vmID (m\<lparr>provision := Suc (provision m)\<rparr>) h of
             (r, m, h) \<Rightarrow> (r, m\<lparr>provision := provision m - 1\<rparr>, h))"

section \<open>Reconcile, DestroyVM, GetVM, ListVMs\<close>

fun reconcile_loop ::
  "('m, 'h) vmm_env \<Rightarrow> (string \<times> nat) list \<Rightarrow> 'm manager \<Rightarrow> 'h \<Rightarrow> error list \<times> 'm manager \<times> 'h" where
  "reconcile_loop E [] m h = ([], m, h)"
| "reconcile_loop E ((vmID, ref) # items) m h =
     (case vm_Stop E ref m h of
        (Some err, m, h) \<Rightarrow>
          (case reconcile_loop E items m h of
             (errs, m, h) \<Rightarrow> (Wrapf (''reconcile vm '' @ vmID @ '': '') err [] # errs, m, h))
      | (None, m, h) \<Rightarrow> reconcile_loop E items (forget vmID ref m) h)"

definition Reconcile :: "('m, 'h) vmm_env \<Rightarrow> 'm manager \<Rightarrow> 'h \<Rightarrow> error option \<times> 'm manager \<times> 'h" where
  "Reconcile E m h =
     (let items = filter (\<lambda>(_, ref). inst_state (inst_heap m ! ref) = StateCleanupFailed) (instances m)
      in case reconcile_loop E items m h of (errs, m, h) \<Rightarrow> (errors_Join (map Some errs), m, h))"

definition DestroyVM :: "('m, 'h) vmm_env \<Rightarrow> string \<Rightarrow> 'm manager \<Rightarrow> 'h \<Rightarrow> error option \<times> 'm manager \<times> 'h" where
  "DestroyVM E vmID m h =
     (case map_of (instances m) vmID of
        None \<Rightarrow> (Some (Errorf (''vm '' @ vmID @ '' not found'')), m, h)
      | Some inst \<Rightarrow>
          (case vm_Stop E inst m h of
             (Some err, m, h) \<Rightarrow> (Some (Wrapf (''stop vm '' @ vmID @ '': '') err []), m, h)
           | (None, m, h) \<Rightarrow> (None, forget vmID inst m, h)))"

definition GetVM :: "'m manager \<Rightarrow> string \<Rightarrow> nat result" where
  "GetVM m vmID =
     (case map_of (instances m) vmID of
        None \<Rightarrow> Inl (Errorf (''vm '' @ vmID @ '' not found''))
      | Some inst \<Rightarrow> Inr inst)"

definition ListVMs :: "'m manager \<Rightarrow> string list" where
  "ListVMs m = map fst (instances m)"

section \<open>Invariant\<close>

text \<open>
  Every VM in the map is an instance of the heap with that name, no instance is listed twice, the
  map respects the limit, every instance is well-formed, and the ledger of the leases of all
  instances balances with the IPAM pool. The list \<open>pend\<close> holds the leases of calls to \<open>CreateVM\<close> that
  are between their two critical sections.
\<close>

definition mgr_inv_pending :: "allocation list \<Rightarrow> 'm manager \<Rightarrow> bool" where
  "mgr_inv_pending pend m \<longleftrightarrow>
     gomap_wf (instances m) \<and> distinct (map snd (instances m))
     \<and> (\<forall>(vmID, ref) \<in> set (instances m). ref < length (inst_heap m) \<and> inst_ID (inst_heap m ! ref) = vmID)
     \<and> int (length (instances m)) \<le> MaxVMs (limits m)
     \<and> (\<forall>i \<in> set (inst_heap m). inst_wf a_released i)
     \<and> leases_ok (m_ipam m) (map network (inst_heap m) @ pend)"

abbreviation mgr_inv :: "'m manager \<Rightarrow> bool" where
  "mgr_inv m \<equiv> mgr_inv_pending [] m"

datatype mgr_call = CallCreate string | CallProvision "error option" string | CallReconcile | CallDestroy string

fun mgr_step :: "('m, 'h) vmm_env \<Rightarrow> mgr_call \<Rightarrow> 'm manager \<times> 'h \<Rightarrow> 'm manager \<times> 'h" where
  "mgr_step E (CallCreate vmID) (m, h) = snd (CreateVM E vmID m h)"
| "mgr_step E (CallProvision ctxErr vmID) (m, h) = snd (ProvisionVM E ctxErr vmID m h)"
| "mgr_step E CallReconcile (m, h) = snd (Reconcile E m h)"
| "mgr_step E (CallDestroy vmID) (m, h) = snd (DestroyVM E vmID m h)"

definition mgr_run :: "('m, 'h) vmm_env \<Rightarrow> mgr_call list \<Rightarrow> 'm manager \<times> 'h \<Rightarrow> 'm manager \<times> 'h" where
  "mgr_run E cs s = fold (mgr_step E) cs s"

text \<open>A manager on a host where everything succeeds, for the examples.\<close>

definition demo_env :: "(unit, unit) vmm_env" where
  "demo_env = \<lparr>env_sha = \<lambda>_. [], env_tmp = ''/tmp'', env_net = idle_host, env_vmm = idle_vmm\<rparr>"

definition demo_mgr :: "unit manager" where
  "demo_mgr = NewManagerWithLimits (vm_DefaultConfig\<lparr>KernelPath := ''k'', RootfsPath := ''r''\<rparr>)
     (net_DefaultConfig ''t'') \<lparr>MemFilePath = ''m'', StateFilePath = ''s'', EnableResume = True\<rparr>
     \<lparr>MaxVMs = 2, MaxConcurrentProvision = 1\<rparr>"

definition demo_cfg :: net_config where
  "demo_cfg = (net_DefaultConfig ''t'')\<lparr>HostIP := host_ip_text 255, GuestIP := guest_ip_text 255, TapName := ''shy''\<rparr>"

definition demo_lease :: allocation where
  "demo_lease = \<lparr>a_cfg = demo_cfg, a_cid = 1024, a_cleanup = [], a_released = False\<rparr>"

definition demo_inst :: "(allocation, unit) instance_rec" where
  "demo_inst = NewInstance ''a'' ''/tmp/firecracker-a.sock'' (vm_DefaultConfig\<lparr>KernelPath := ''k'', RootfsPath := ''r''\<rparr>)
     demo_lease 1024 \<lparr>MemFilePath = ''m'', StateFilePath = ''s'', EnableResume = True\<rparr>"

section \<open>Methods keep the invariant\<close>

text \<open>
  What a method of one instance must keep for the manager: the name, well-formedness and the
  balance of the ledger.
\<close>

definition method_ok ::
  "((allocation, 'm) instance_rec \<Rightarrow> ipam \<times> 'h \<Rightarrow> error option \<times> (allocation, 'm) instance_rec \<times> ipam \<times> 'h) \<Rightarrow> bool" where
  "method_ok f \<longleftrightarrow>
     (\<forall>i p h r i' p' h'. f i (p, h) = (r, i', (p', h')) \<longrightarrow>
        inst_ID i' = inst_ID i \<and> (inst_wf a_released i \<longrightarrow> inst_wf a_released i')
        \<and> (\<forall>xs ys. leases_ok p (xs @ network i # ys) \<longrightarrow> leases_ok p' (xs @ network i' # ys)))"

text \<open>What a compound operation on the manager keeps.\<close>

definition kept :: "allocation list \<Rightarrow> 'm manager \<Rightarrow> 'm manager \<Rightarrow> bool" where
  "kept pend m m' \<longleftrightarrow> mgr_inv_pending pend m' \<and> limits m' = limits m \<and> provision m' = provision m
     \<and> length (inst_heap m) \<le> length (inst_heap m')"

lemma alloc_ops_simps [simp]:
  "lease_Setup (alloc_ops os) = alloc_Setup os" "lease_Release (alloc_ops os) = alloc_Release os"
  "lease_Config (alloc_ops os) = a_cfg" "lease_CID (alloc_ops os) = a_cid"
  by (simp_all add: alloc_ops_def)

lemma ledger_Configure:
  assumes "Configure sha os (alloc_ops nos) i (p, h) = (r, i', (p', h'))" and "leases_ok p (xs @ network i # ys)"
  shows "leases_ok p' (xs @ network i' # ys)"
proof -
  have "(\<lambda>l q. leases_ok q (xs @ l # ys)) (network i') (fst (p', h'))"
    using assms(1)
  proof (rule vm_alloc.Configure_lease_inv)
    show "leases_ok (fst (p, h)) (xs @ network i # ys)" using assms(2) by simp
  qed (unfold alloc_ops_simps, (rule leases_ok_Setup leases_ok_Release; assumption)+)
  then show ?thesis by simp
qed

lemma ledger_Stop:
  assumes "Stop os (alloc_ops nos) i (p, h) = (r, i', (p', h'))" and "leases_ok p (xs @ network i # ys)"
  shows "leases_ok p' (xs @ network i' # ys)"
proof -
  have "(\<lambda>l q. leases_ok q (xs @ l # ys)) (network i') (fst (p', h'))"
    using assms(1)
  proof (rule vm_alloc.Stop_lease_inv)
    show "leases_ok (fst (p, h)) (xs @ network i # ys)" using assms(2) by simp
  qed (unfold alloc_ops_simps, rule leases_ok_Release; assumption)
  then show ?thesis by simp
qed

lemma Configure_ID: "Configure sha os (alloc_ops nos) i w = (r, i', w') \<Longrightarrow> inst_ID i' = inst_ID i"
  by (erule vm_alloc.Configure_cases) simp_all

lemma method_ok_Configure: "method_ok (Configure sha os (alloc_ops nos))"
  unfolding method_ok_def
  by (intro allI impI conjI) (rule Configure_ID vm_alloc.inst_wf_Configure ledger_Configure; assumption)+

lemma method_ok_Start: "method_ok (Start os)"
  unfolding method_ok_def
proof (intro allI impI)
  fix i :: "(allocation, 'a) instance_rec" and p :: ipam and h r i' p' h'
  assume c: "Start os i (p, h) = (r, i', (p', h'))"
  have "inst_ID i' = inst_ID i \<and> network i' = network i \<and> p' = p" using c by (cases rule: Start_cases) auto
  then show "inst_ID i' = inst_ID i \<and> (inst_wf a_released i \<longrightarrow> inst_wf a_released i')
        \<and> (\<forall>xs ys. leases_ok p (xs @ network i # ys) \<longrightarrow> leases_ok p' (xs @ network i' # ys))"
    using inst_wf_Start [OF _ c] by auto
qed

lemma Stop_ID: "Stop os (alloc_ops nos) i w = (r, i', w') \<Longrightarrow> inst_ID i' = inst_ID i"
  using vm_alloc.Stop_result [of os nos i w r i' w']
  by (cases "stoppable (inst_state i)") (auto simp: Stop_def)

lemma method_ok_Stop: "method_ok (Stop os (alloc_ops nos))"
  unfolding method_ok_def
  by (intro allI impI conjI) (rule Stop_ID vm_alloc.inst_wf_Stop ledger_Stop; assumption)+

lemma on_inst_inv:
  assumes "method_ok f" and "mgr_inv_pending pend m" and "ref < length (inst_heap m)"
    and "on_inst f ref m h = (r, m', h')"
  shows "mgr_inv_pending pend m' \<and> instances m' = instances m \<and> limits m' = limits m
    \<and> provision m' = provision m \<and> length (inst_heap m') = length (inst_heap m)"
proof -
  let ?H = "inst_heap m"
  obtain i p where f: "f (?H ! ref) (m_ipam m, h) = (r, i, (p, h'))"
    and m': "m' = m\<lparr>inst_heap := ?H[ref := i], m_ipam := p\<rparr>"
    using assms(4) by (auto simp: on_inst_def split: prod.splits)
  note ok = assms(1) [unfolded method_ok_def, rule_format, OF f]
  have split: "map network ?H @ pend = map network (take ref ?H) @ network (?H ! ref) # (map network (drop (Suc ref) ?H) @ pend)"
    using id_take_nth_drop [OF assms(3)] by (metis append.assoc append_Cons list.map(2) map_append)
  have split': "map network (?H[ref := i]) @ pend = map network (take ref ?H) @ network i # (map network (drop (Suc ref) ?H) @ pend)"
    using assms(3) by (simp add: upd_conv_take_nth_drop)
  have "leases_ok p (map network (?H[ref := i]) @ pend)"
    using ok assms(2) unfolding split split' mgr_inv_pending_def by blast
  moreover have "\<forall>j \<in> set (?H[ref := i]). inst_wf a_released j"
    using ok assms(2,3) set_update_subset_insert [of ?H ref i] by (auto simp: mgr_inv_pending_def)
  moreover have "inst_ID (?H[ref := i] ! k) = inst_ID (?H ! k)" for k
    using ok by (cases "k = ref") (simp_all add: assms(3))
  ultimately show ?thesis
    using assms(2) unfolding m' mgr_inv_pending_def by simp
qed

lemma forget_inv:
  assumes "mgr_inv_pending pend m"
  shows "mgr_inv_pending pend (forget vmID ref m)"
proof -
  have "length (AList.delete vmID (instances m)) \<le> length (instances m)" by (rule length_delete_le)
  moreover have "set (AList.delete vmID (instances m)) \<subseteq> set (instances m)" by (rule set_delete_subset)
  ultimately show ?thesis
    using assms by (auto simp: mgr_inv_pending_def forget_def gomap_wf_delete distinct_snd_delete)
qed

lemma forget_simps [simp]:
  "inst_heap (forget vmID ref m) = inst_heap m" "limits (forget vmID ref m) = limits m"
  "provision (forget vmID ref m) = provision m" "m_ipam (forget vmID ref m) = m_ipam m"
  by (simp_all add: forget_def)

lemma release_unused:
  "a_cleanup a = [] \<Longrightarrow> \<not> a_released a \<Longrightarrow>
   alloc_Release os a (p, h) = (None, a\<lparr>a_released := True\<rparr>, (ipam_Release (GuestIP (a_cfg a)) (a_cid a) p, h))"
  by (simp add: alloc_Release_def)

lemma NewInstance_ID: "inst_ID (NewInstance vmID sock cfg a cid snap) = vmID"
  by (simp add: NewInstance_def)

lemma NewInstance_network: "network (NewInstance vmID sock cfg a cid snap) = a"
  by (simp add: NewInstance_def)

lemma inst_wf_New: "inst_wf released (NewInstance vmID sock cfg a cid snap)"
  by (simp add: NewInstance_def inst_wf_def)

lemma create_commit_inv:
  assumes "mgr_inv_pending (pre @ a # post) m" and "a_cleanup a = []" and "\<not> a_released a"
    and "create_commit E vmID a m h = (r, m', h')"
  shows "mgr_inv_pending (pre @ post) m' \<and> limits m' = limits m \<and> provision m' = provision m \<and> h' = h
    \<and> (\<forall>ref. r = Inr ref \<longrightarrow> ref < length (inst_heap m') \<and> map_of (instances m') vmID = Some ref)"
proof (cases r)
  case (Inl e)
  have "leases_ok (ipam_Release (GuestIP (a_cfg a)) (a_cid a) (m_ipam m)) ((map network (inst_heap m) @ pre) @ post)"
    using assms(1,3) leases_ok_return [of "m_ipam m" "map network (inst_heap m) @ pre" a post]
    by (simp add: mgr_inv_pending_def)
  moreover have "m' = m\<lparr>m_ipam := ipam_Release (GuestIP (a_cfg a)) (a_cid a) (m_ipam m)\<rparr> \<and> h' = h"
    using assms Inl by (auto simp: create_commit_def drop_lease_def release_unused Let_def split: if_splits)
  ultimately show ?thesis using assms(1) Inl by (simp add: mgr_inv_pending_def)
next
  case (Inr ref)
  have new: "map_of (instances m) vmID = None" "int (length (instances m)) < MaxVMs (limits m)" "h' = h"
    "ref = length (inst_heap m)"
    and m': "m' = m\<lparr>inst_heap := inst_heap m @ [NewInstance vmID (socket_path (env_tmp E) vmID) (baseCfg m) a (a_cid a) (m_snapCfg m)],
                    instances := AList.update vmID ref (instances m)\<rparr>"
    using assms(4) Inr by (auto simp: create_commit_def Let_def split: if_splits)
  have upd: "AList.update vmID ref (instances m) = instances m @ [(vmID, ref)]"
    using new(1) by (simp add: update_new)
  have "ref \<notin> snd ` set (instances m)" "vmID \<notin> fst ` set (instances m)"
    using assms(1) new(1,4) by (auto simp: mgr_inv_pending_def map_of_eq_None_iff)
  moreover have "\<forall>(v, k) \<in> set (instances m). k < length (inst_heap m)"
    using assms(1) by (auto simp: mgr_inv_pending_def)
  ultimately have "mgr_inv_pending (pre @ post) m'"
    using assms(1) new(2,4) inst_wf_New unfolding m' upd mgr_inv_pending_def
    by (auto simp: gomap_wf_def nth_append NewInstance_ID NewInstance_network leases_ok_move)
  then show ?thesis using new Inr unfolding m' upd by (simp add: map_add_def)
qed

lemma CreateVM_inv:
  assumes "mgr_inv_pending pend m" and "CreateVM E vmID m h = (r, m', h')"
  shows "mgr_inv_pending pend m' \<and> limits m' = limits m \<and> provision m' = provision m \<and> h' = h
    \<and> (\<forall>ref. r = Inr ref \<longrightarrow> ref < length (inst_heap m') \<and> map_of (instances m') vmID = Some ref)"
proof (cases "validateVMID vmID = None \<and> create_admit vmID m = None")
  case False
  then show ?thesis using assms by (auto simp: CreateVM_def split: option.splits)
next
  case True
  obtain res q where acq: "Acquire (env_sha E) vmID (netCfg m) (Some (m_ipam m)) = (res, q)" by fastforce
  show ?thesis
  proof (cases res)
    case (Inl e)
    then have "q = Some (m_ipam m)" using leases_ok_Acquire_Inl acq by blast
    then show ?thesis using assms True acq Inl by (auto simp: CreateVM_def)
  next
    case (Inr a)
    obtain p where p: "q = Some p" "leases_ok p ((map network (inst_heap m) @ pend) @ [a])" "\<not> a_released a"
      using leases_ok_Acquire [of "m_ipam m" "map network (inst_heap m) @ pend"] acq Inr assms(1)
      unfolding mgr_inv_pending_def by blast
    have "mgr_inv_pending (pend @ a # []) (m\<lparr>m_ipam := p\<rparr>)" using assms(1) p by (simp add: mgr_inv_pending_def)
    moreover have "a_cleanup a = []" using acq Inr by (auto simp: Acquire_def split: prod.splits sum.splits)
    moreover have "create_commit E vmID a (m\<lparr>m_ipam := p\<rparr>) h = (r, m', h')"
      using assms(2) True acq Inr p(1) by (simp add: CreateVM_def)
    ultimately show ?thesis using create_commit_inv [of pend a "[]" "m\<lparr>m_ipam := p\<rparr>"] p(3) by simp
  qed
qed

lemma kept_trans: "kept pend m m' \<Longrightarrow> kept pend m' m'' \<Longrightarrow> kept pend m m''"
  by (simp add: kept_def)

lemma kept_on_inst:
  assumes "method_ok f" and "mgr_inv_pending pend m" and "ref < length (inst_heap m)"
    and "on_inst f ref m h = (r, m', h')"
  shows "kept pend m m'"
  using on_inst_inv [OF assms] by (simp add: kept_def)

lemma kept_vm_Configure:
  "mgr_inv_pending pend m \<Longrightarrow> ref < length (inst_heap m) \<Longrightarrow> vm_Configure E ref m h = (r, m', h') \<Longrightarrow> kept pend m m'"
  unfolding vm_Configure_def by (rule kept_on_inst [OF method_ok_Configure])

lemma kept_vm_Start:
  "mgr_inv_pending pend m \<Longrightarrow> ref < length (inst_heap m) \<Longrightarrow> vm_Start E ref m h = (r, m', h') \<Longrightarrow> kept pend m m'"
  unfolding vm_Start_def by (rule kept_on_inst [OF method_ok_Start])

lemma kept_vm_Stop:
  "mgr_inv_pending pend m \<Longrightarrow> ref < length (inst_heap m) \<Longrightarrow> vm_Stop E ref m h = (r, m', h') \<Longrightarrow> kept pend m m'"
  unfolding vm_Stop_def by (rule kept_on_inst [OF method_ok_Stop])

lemmas kept_method = kept_vm_Configure kept_vm_Start kept_vm_Stop

lemma kept_Stop_forget:
  assumes "mgr_inv_pending pend m" and "ref < length (inst_heap m)" and "vm_Stop E ref m h = (r, m', h')"
  shows "kept pend m (forget vmID ref m')"
  using kept_method(3) [OF assms] by (simp add: kept_def forget_inv)

lemma kept_removeFailed:
  assumes "mgr_inv_pending pend m" and "ref < length (inst_heap m)" and "removeFailedVM E vmID ref m h = (r, m', h')"
  shows "kept pend m m'"
proof -
  obtain r1 m1 h1 where st: "vm_Stop E ref m h = (r1, m1, h1)" by (metis prod_cases3)
  show ?thesis
    using assms(3) st kept_method(3) [OF assms(1,2) st] kept_Stop_forget [OF assms(1,2) st]
    by (auto simp: removeFailedVM_def split: option.splits)
qed

lemma kept_provision_failed:
  assumes "mgr_inv_pending pend m" and "ref < length (inst_heap m)"
    and "provision_failed E what vmID ref err m h = (r, m', h')"
  shows "kept pend m m'"
proof -
  obtain r1 m1 h1 where rm: "removeFailedVM E vmID ref m h = (r1, m1, h1)" by (metis prod_cases3)
  then have "m' = m1" using assms(3) by (auto simp: provision_failed_def split: option.splits)
  then show ?thesis using kept_removeFailed [OF assms(1,2) rm] by simp
qed

lemma kept_provision_body:
  assumes "mgr_inv_pending pend m" and "provision_body E ctxErr vmID m h = (r, m', h')"
  shows "mgr_inv_pending pend m' \<and> limits m' = limits m \<and> provision m' = provision m"
proof (cases ctxErr)
  case (Some e)
  then show ?thesis using assms by (simp add: provision_body_def)
next
  case None
  obtain r1 m1 h1 where c: "CreateVM E vmID m h = (r1, m1, h1)" by (metis prod_cases3)
  note k1 = CreateVM_inv [OF assms(1) c]
  show ?thesis
  proof (cases r1)
    case (Inl e)
    then show ?thesis using assms(2) None c k1 by (simp add: provision_body_def)
  next
    case (Inr ref)
    obtain r2 m2 h2 where d: "vm_Configure E ref m1 h1 = (r2, m2, h2)" by (metis prod_cases3)
    obtain r3 m3 h3 where e: "vm_Start E ref m2 h2 = (r3, m3, h3)" by (metis prod_cases3)
    have k2: "kept pend m1 m2" using kept_method(1) [OF _ _ d] k1 Inr by blast
    then have k3: "kept pend m1 m3"
      using kept_method(2) [OF _ _ e] kept_trans k1 Inr by (fastforce simp: kept_def)
    have ref: "ref < length (inst_heap m2)" "ref < length (inst_heap m3)"
      using k1 k2 k3 Inr by (auto simp: kept_def)
    consider "m' = m3" | err where "provision_failed E ''configure'' vmID ref err m2 h2 = (r, m', h')"
      | err where "provision_failed E ''start'' vmID ref err m3 h3 = (r, m', h')"
      using assms(2) None c Inr d e by (auto simp: provision_body_def split: option.splits)
    then have "kept pend m1 m'"
    proof cases
      case 1
      then show ?thesis using k3 by simp
    next
      case (2 err)
      have "mgr_inv_pending pend m2" using k2 by (simp add: kept_def)
      from kept_trans [OF k2 kept_provision_failed [OF this ref(1) 2]] show ?thesis .
    next
      case (3 err)
      have "mgr_inv_pending pend m3" using k3 by (simp add: kept_def)
      from kept_trans [OF k3 kept_provision_failed [OF this ref(2) 3]] show ?thesis .
    qed
    then show ?thesis using k1 by (simp add: kept_def)
  qed
qed

lemma mgr_inv_provision [simp]: "mgr_inv_pending pend (m\<lparr>provision := k\<rparr>) \<longleftrightarrow> mgr_inv_pending pend m"
  by (simp add: mgr_inv_pending_def)

lemma kept_Provision:
  assumes "mgr_inv_pending pend m" and "ProvisionVM E ctxErr vmID m h = (r, m', h')"
  shows "mgr_inv_pending pend m' \<and> limits m' = limits m \<and> provision m' = provision m"
proof (cases "MaxConcurrentProvision (limits m) \<le> int (provision m)")
  case True
  then show ?thesis using assms by (simp add: ProvisionVM_def)
next
  case False
  obtain r1 m1 h1 where b: "provision_body E ctxErr vmID (m\<lparr>provision := Suc (provision m)\<rparr>) h = (r1, m1, h1)"
    by (metis prod_cases3)
  moreover from this False have "m' = m1\<lparr>provision := provision m1 - 1\<rparr>"
    using assms(2) by (simp add: ProvisionVM_def)
  ultimately show ?thesis using kept_provision_body [OF _ b] assms(1) by simp
qed

lemma kept_reconcile:
  assumes "mgr_inv_pending pend m" and "\<forall>(vmID, ref) \<in> set items. ref < length (inst_heap m)"
    and "reconcile_loop E items m h = (errs, m', h')"
  shows "kept pend m m'"
  using assms
proof (induction items arbitrary: m h errs m' h')
  case Nil
  then show ?case by (simp add: kept_def)
next
  case (Cons it items)
  obtain vmID ref where it: "it = (vmID, ref)" by fastforce
  obtain r1 m1 h1 where st: "vm_Stop E ref m h = (r1, m1, h1)" by (metis prod_cases3)
  have "ref < length (inst_heap m)" using Cons.prems(2) it by simp
  then have k: "kept pend m m1" "kept pend m (forget vmID ref m1)"
    using kept_method(3) [OF Cons.prems(1) _ st] kept_Stop_forget [OF Cons.prems(1) _ st] by blast+
  obtain errs2 m2 h2 where lp: "reconcile_loop E items m1 h1 = (errs2, m2, h2)" by (metis prod_cases3)
  show ?case
  proof (cases r1)
    case None
    then have "reconcile_loop E items (forget vmID ref m1) h1 = (errs, m', h')" using Cons.prems(3) it st by simp
    moreover have "mgr_inv_pending pend (forget vmID ref m1)"
      "\<forall>(v, k) \<in> set items. k < length (inst_heap (forget vmID ref m1))"
      using k(2) Cons.prems(2) by (auto simp: kept_def)
    ultimately have "kept pend (forget vmID ref m1) m'" by (intro Cons.IH)
    with k(2) show ?thesis by (rule kept_trans)
  next
    case (Some e)
    then have "m' = m2" using Cons.prems(3) it st lp by simp
    moreover have "mgr_inv_pending pend m1" "\<forall>(v, k) \<in> set items. k < length (inst_heap m1)"
      using k(1) Cons.prems(2) by (auto simp: kept_def)
    then have "kept pend m1 m2" using lp by (rule Cons.IH)
    ultimately show ?thesis using kept_trans [OF k(1)] by simp
  qed
qed

lemma kept_Reconcile:
  assumes "mgr_inv_pending pend m" and "Reconcile E m h = (r, m', h')"
  shows "kept pend m m'"
proof -
  let ?items = "filter (\<lambda>(_, ref). inst_state (inst_heap m ! ref) = StateCleanupFailed) (instances m)"
  obtain errs where loop: "reconcile_loop E ?items m h = (errs, m', h')"
    using assms(2) by (auto simp: Reconcile_def Let_def split: prod.splits)
  have "\<forall>(vmID, ref) \<in> set ?items. ref < length (inst_heap m)"
    using assms(1) by (auto simp: mgr_inv_pending_def)
  from kept_reconcile [OF assms(1) this loop] show ?thesis .
qed

lemma kept_Destroy:
  assumes "mgr_inv_pending pend m" and "DestroyVM E vmID m h = (r, m', h')"
  shows "kept pend m m'"
proof (cases "map_of (instances m) vmID")
  case None
  then show ?thesis using assms by (simp add: DestroyVM_def kept_def)
next
  case (Some ref)
  have ref: "ref < length (inst_heap m)"
    using map_of_SomeD [OF Some] assms(1) by (auto simp: mgr_inv_pending_def)
  obtain r1 m1 h1 where st: "vm_Stop E ref m h = (r1, m1, h1)" by (metis prod_cases3)
  show ?thesis
    using assms(2) Some st kept_method(3) [OF assms(1) ref st] kept_Stop_forget [OF assms(1) ref st]
    by (auto simp: DestroyVM_def split: option.splits)
qed

lemma mgr_inv_New: "mgr_inv (NewManagerWithLimits base net snap lim)"
  by (simp add: mgr_inv_pending_def NewManagerWithLimits_def DefaultManagerLimits_def Let_def leases_ok_New)

lemma mgr_step_inv:
  assumes "mgr_inv_pending pend (fst s)"
  shows "mgr_inv_pending pend (fst (mgr_step E c s)) \<and> limits (fst (mgr_step E c s)) = limits (fst s)"
proof -
  obtain m h where s: "s = (m, h)" by (cases s)
  show ?thesis
  proof (cases c)
    case (CallCreate vmID)
    then show ?thesis using CreateVM_inv [of pend m E vmID h] assms s by (cases "CreateVM E vmID m h") auto
  next
    case (CallProvision ctxErr vmID)
    then show ?thesis
      using kept_Provision [of pend m E ctxErr vmID h] assms s by (cases "ProvisionVM E ctxErr vmID m h") auto
  next
    case CallReconcile
    then show ?thesis
      using kept_Reconcile [of pend m E h] assms s by (cases "Reconcile E m h") (auto simp: kept_def)
  next
    case (CallDestroy vmID)
    then show ?thesis
      using kept_Destroy [of pend m E vmID h] assms s by (cases "DestroyVM E vmID m h") (auto simp: kept_def)
  qed
qed

lemma mgr_run_inv:
  "mgr_inv_pending pend (fst s) \<Longrightarrow>
   mgr_inv_pending pend (fst (mgr_run E cs s)) \<and> limits (fst (mgr_run E cs s)) = limits (fst s)"
proof (induction cs arbitrary: s)
  case (Cons c cs)
  then show ?case using mgr_step_inv [OF Cons.prems, of E c] by (simp add: mgr_run_def)
qed (simp add: mgr_run_def)

lemma mgr_run_New: "mgr_inv (fst (mgr_run E calls (NewManagerWithLimits base net snap lim, h)))"
  using mgr_run_inv [of "[]" "(NewManagerWithLimits base net snap lim, h)" E calls] by (simp add: mgr_inv_New)

lemma distinct_live:
  assumes "distinct (map f (live ls))" and "i < j" and "j < length ls"
    and "\<not> a_released (ls ! i)" and "\<not> a_released (ls ! j)"
  shows "f (ls ! i) \<noteq> f (ls ! j)"
proof -
  have ls: "ls = take j ls @ ls ! j # drop (Suc j) ls" using assms(3) by (rule id_take_nth_drop)
  have "ls ! i \<in> set (take j ls)" using assms(2,3) by (auto simp: in_set_conv_nth intro!: exI [of _ i])
  then have i: "ls ! i \<in> set (live (take j ls))" using assms(4) by (simp add: live_def)
  have split: "live ls = live (take j ls) @ ls ! j # live (drop (Suc j) ls)"
    using assms(5) arg_cong [OF ls, of live] by simp
  have "f (ls ! j) \<notin> f ` set (live (take j ls))" using assms(1) unfolding split by simp
  with i show ?thesis by (metis imageI)
qed

lemma Stop_at:
  assumes "vm_Stop E ref m h = (r, m', h')" and "ref < length (inst_heap m)"
  shows "\<exists>w'. Stop (env_vmm E) (alloc_ops (env_net E)) (inst_heap m ! ref) (m_ipam m, h) = (r, inst_heap m' ! ref, w')
    \<and> instances m' = instances m \<and> (\<forall>k. k \<noteq> ref \<longrightarrow> inst_heap m' ! k = inst_heap m ! k)
    \<and> length (inst_heap m') = length (inst_heap m)"
  using assms by (auto simp: vm_Stop_def on_inst_def split: prod.splits)

lemma Start_None:
  "Start os i w = (None, i', w') \<Longrightarrow> inst_state i' = StateRunning"
  by (erule Start_cases) simp_all

lemma provision_running:
  assumes "mgr_inv m" and "provision_body E ctxErr vmID m h = (Inr ref, m', h')"
  shows "ref < length (inst_heap m') \<and> map_of (instances m') vmID = Some ref
    \<and> inst_state (inst_heap m' ! ref) = StateRunning"
proof -
  obtain m1 h1 m2 h2 where c: "CreateVM E vmID m h = (Inr ref, m1, h1)"
    and d: "vm_Configure E ref m1 h1 = (None, m2, h2)" and e: "vm_Start E ref m2 h2 = (None, m', h')"
    using assms(2)
    by (auto simp: provision_body_def provision_failed_def split: option.splits prod.splits sum.splits)
  have ref: "ref < length (inst_heap m1)" "map_of (instances m1) vmID = Some ref"
    using CreateVM_inv [OF assms(1) c] by auto
  have inv: "length (inst_heap m2) = length (inst_heap m1)" "instances m2 = instances m1"
    using d by (auto simp: vm_Configure_def on_inst_def split: prod.splits)
  from e obtain i w where st: "Start (env_vmm E) (inst_heap m2 ! ref) (m_ipam m2, h2) = (None, i, w)"
    and "inst_heap m' = (inst_heap m2)[ref := i]" "instances m' = instances m2"
    by (auto simp: vm_Start_def on_inst_def split: prod.splits)
  then show ?thesis using ref inv Start_None [OF st] by simp
qed

lemma CreateVM_new:
  assumes "CreateVM E vmID m h = (Inr ref, m1, h1)"
  shows "ref < length (inst_heap m1) \<and> inst_state (inst_heap m1 ! ref) = StateCreated
    \<and> \<not> a_released (network (inst_heap m1 ! ref))"
  using assms
  by (auto simp: CreateVM_def create_commit_def Acquire_def NewInstance_def Let_def
      split: option.splits prod.splits sum.splits if_splits)

lemma vm_Configure_refused:
  assumes "configure_checks (env_vmm E) (alloc_ops (env_net E)) (inst_heap m ! ref) (m_ipam m, h) = (Inl e, (p, h'))"
  shows "vm_Configure E ref m h = (Some e, m\<lparr>m_ipam := p\<rparr>, h')"
  using assms by (simp add: vm_Configure_def on_inst_def Configure_def)

lemma configure_checks_pool: "configure_checks os L i w = (r, w') \<Longrightarrow> fst w' = fst w"
  by (auto simp: configure_checks_def generateInstanceID_def on_host_def
        split: prod.splits sum.splits option.splits)

subsection \<open>An example run\<close>

lemma demo_valid: "net_Validate demo_cfg = None"
  using allocated_valid [of 255 "net_DefaultConfig ''t''" "\<lambda>_. []" "''a''"]
  by (simp add: demo_cfg_def uniqueTapName_def net_DefaultConfig_def)

lemma demo_setup: "alloc_Setup idle_host demo_lease (p, ()) = (None, demo_lease\<lparr>a_cleanup := [CleanTAP, CleanFW]\<rparr>, (p, ()))"
proof -
  have "ParseIP (HostIP demo_cfg) = Some (v4_prefix @ [172, 16, 255, 1])"
    using ParseIP_host [of 255] by (simp add: demo_cfg_def)
  moreover have "TapName demo_cfg = ''shy''" by (simp add: demo_cfg_def)
  ultimately have "validateNftConfig demo_cfg = None"
    using demo_valid
    by (simp add: validateNftConfig_def tapNameExpr_def is_alnum_def is_lower_def To4_def v4_prefix_def)
  then show ?thesis
    by (simp add: alloc_Setup_def SetupTAP_def SetupFirewall_def nftRun_def idle_host_def demo_lease_def Let_def)
qed

lemma demo_create_any:
  "\<exists>p. CreateVM (demo_env\<lparr>env_vmm := v\<rparr>) ''a'' (demo_mgr\<lparr>provision := k\<rparr>) () =
     (Inr 0, demo_mgr\<lparr>provision := k, m_ipam := p, inst_heap := [demo_inst], instances := [(''a'', 0)]\<rparr>, ())"
proof -
  have "validateVMID ''a'' = None" by (simp add: validateVMID_def ContainsAny_def)
  moreover have "socket_path ''/tmp'' ''a'' = ''/tmp/firecracker-a.sock''"
    by (simp add: socket_path_def filepath_Join_def filepath_Clean_def path_segs_def is_rooted_def HasPrefix_def)
  ultimately show ?thesis
    by (simp add: CreateVM_def create_admit_def create_commit_def Acquire_def demo_mgr_def demo_env_def
        NewManagerWithLimits_def Allocate_New demo_inst_def demo_lease_def demo_cfg_def uniqueTapName_def Let_def)
qed

lemma demo_create:
  "\<exists>p. CreateVM demo_env ''a'' (demo_mgr\<lparr>provision := k\<rparr>) () =
     (Inr 0, demo_mgr\<lparr>provision := k, m_ipam := p, inst_heap := [demo_inst], instances := [(''a'', 0)]\<rparr>, ())"
  using demo_create_any [of idle_vmm k] by (simp add: demo_env_def)

lemma demo_configure:
  "Configure (\<lambda>_. []) idle_vmm (alloc_ops idle_host) demo_inst (p, ()) =
     (None, demo_inst\<lparr>InstanceID := hex_encode (replicate 16 0), network := demo_lease\<lparr>a_cleanup := [CleanTAP, CleanFW]\<rparr>,
        machine := Some (), inst_state := StateConfigured\<rparr>, (p, ()))"
proof -
  let ?i = "demo_inst\<lparr>inst_state := StateConfiguring, InstanceID := hex_encode (replicate 16 0)\<rparr>"
  have lease: "network demo_inst = demo_lease" "a_cfg demo_lease = demo_cfg" "inst_state demo_inst = StateCreated"
    by (simp_all add: demo_inst_def NewInstance_def demo_lease_def)
  have vm: "vm_Validate (inst_cfg demo_inst) = None"
    by (simp add: demo_inst_def NewInstance_def vm_Validate_def vm_DefaultConfig_def)
  have assets: "validateRuntimeAssets (os_Lstat idle_vmm ()) (inst_cfg demo_inst) (snapCfg demo_inst) = None"
    by (simp add: demo_inst_def NewInstance_def validateRuntimeAssets_def validateRegularFile_def idle_vmm_def)
  have checks: "configure_checks idle_vmm (alloc_ops idle_host) demo_inst (p, ()) = (Inr (hex_encode (replicate 16 0)), (p, ()))"
    using vm assets demo_valid lease
    by (simp add: configure_checks_def generateInstanceID_def on_host_def del: hex_encode_simps)
       (simp add: idle_vmm_def)
  have ips: "ParseIP (HostIP demo_cfg) \<noteq> None" "ParseCIDR (GuestIP demo_cfg) \<noteq> None"
    using ParseIP_host [of 255] ParseCIDR_guest [of 255] by (simp_all add: demo_cfg_def)
  have boot: "boot_source sha read ?i c0 = Inr (c0\<lparr>fc_Snapshot := Some (''m'', ''s'')\<rparr>)" for sha read c0
    by (simp add: boot_source_def demo_inst_def NewInstance_def no_integrity_def validateSnapshotIntegrity_def)
  have "configure_body (\<lambda>_. []) idle_vmm (alloc_ops idle_host) ?i demo_cfg (p, ())
      = (Inr (), demo_lease\<lparr>a_cleanup := [CleanTAP, CleanFW]\<rparr>, (p, ()))"
  proof -
    have set: "lease_Setup (alloc_ops idle_host) (network ?i) (p, ()) =
        (None, demo_lease\<lparr>a_cleanup := [CleanTAP, CleanFW]\<rparr>, (p, ()))"
      using demo_setup [of p] lease by simp
    obtain g n gw where "ParseCIDR (GuestIP demo_cfg) = Some (g, n)" "ParseIP (HostIP demo_cfg) = Some gw"
      using ips by auto
    then show ?thesis
      unfolding configure_body_def set boot by (simp add: boot on_host_def idle_vmm_def del: hex_encode_simps)
  qed
  then show ?thesis using checks lease by (simp add: Configure_def Let_def del: hex_encode_simps)
qed

lemma demo_inv: "mgr_inv demo_mgr"
  unfolding demo_mgr_def by (rule mgr_inv_New)

lemma demo_provision:
  "\<exists>m. ProvisionVM demo_env None ''a'' demo_mgr () = (Inr 0, m, ())
     \<and> mgr_inv m \<and> instances m = [(''a'', 0)] \<and> inst_state (inst_heap m ! 0) = StateRunning"
proof -
  obtain p where c: "CreateVM demo_env ''a'' (demo_mgr\<lparr>provision := 1\<rparr>) () =
     (Inr 0, demo_mgr\<lparr>provision := 1, m_ipam := p, inst_heap := [demo_inst], instances := [(''a'', 0)]\<rparr>, ())"
    using demo_create by blast
  let ?i = "demo_inst\<lparr>InstanceID := hex_encode (replicate 16 0), network := demo_lease\<lparr>a_cleanup := [CleanTAP, CleanFW]\<rparr>,
        machine := Some (), inst_state := StateConfigured\<rparr>"
  let ?m = "demo_mgr\<lparr>provision := 1, m_ipam := p, inst_heap := [?i], instances := [(''a'', 0)]\<rparr>"
  have "vm_Configure demo_env 0 (demo_mgr\<lparr>provision := 1, m_ipam := p, inst_heap := [demo_inst], instances := [(''a'', 0)]\<rparr>) ()
      = (None, ?m, ())"
    using demo_configure [of p] by (simp add: vm_Configure_def on_inst_def demo_env_def del: hex_encode_simps)
  moreover have "\<exists>m. vm_Start demo_env 0 ?m () = (None, m, ()) \<and> instances m = [(''a'', 0)]
      \<and> inst_state (inst_heap m ! 0) = StateRunning"
    by (simp add: vm_Start_def on_inst_def demo_env_def Start_def on_host_def idle_vmm_def Let_def del: hex_encode_simps)
  moreover have "provision demo_mgr = 0" "MaxConcurrentProvision (limits demo_mgr) = 1"
    by (simp_all add: demo_mgr_def NewManagerWithLimits_def Let_def)
  ultimately obtain m where m: "ProvisionVM demo_env None ''a'' demo_mgr () = (Inr 0, m, ())"
    "instances m = [(''a'', 0)]" "inst_state (inst_heap m ! 0) = StateRunning"
    using c by (auto simp: ProvisionVM_def provision_body_def simp del: hex_encode_simps)
  moreover have "mgr_inv m" using kept_Provision [OF demo_inv m(1)] by simp
  ultimately show ?thesis by blast
qed

lemma demo_two:
  "\<exists>m. mgr_run demo_env [CallCreate ''a'', CallCreate ''b''] (demo_mgr, ()) = (m, ())
     \<and> length (inst_heap m) = 2 \<and> \<not> a_released (network (inst_heap m ! 0)) \<and> \<not> a_released (network (inst_heap m ! 1))"
proof -
  obtain p where c: "CreateVM demo_env ''a'' (demo_mgr\<lparr>provision := 0\<rparr>) () =
     (Inr 0, demo_mgr\<lparr>provision := 0, m_ipam := p, inst_heap := [demo_inst], instances := [(''a'', 0)]\<rparr>, ())"
    using demo_create by blast
  let ?m = "demo_mgr\<lparr>provision := 0, m_ipam := p, inst_heap := [demo_inst], instances := [(''a'', 0)]\<rparr>"
  have inv: "leases_ok p [demo_lease]"
    using CreateVM_inv [OF _ c, of "[]"] demo_inv
    by (simp add: mgr_inv_pending_def demo_inst_def NewInstance_network)
  then have used: "usedSubnets p = {255}" "usedCIDs p = {1024}" "ipam_inv p"
    using subnet_of_guest [of 255]
    by (auto simp: leases_ok_def demo_lease_def lease_subnet_def demo_cfg_def)
  have "freeSubnets p \<noteq> []" "freeCIDs p \<noteq> []"
    using ipam_inv_card [OF used(3)] by (auto simp: used MaxSubnets_def MinGuestCID_def MaxGuestCID_def)
  then obtain a q where "Acquire (\<lambda>_. []) ''b'' (netCfg demo_mgr) (Some p) = (Inr a, Some q)" "\<not> a_released a"
    by (auto simp: Acquire_def Allocate_def Let_def)
  moreover have "validateVMID ''b'' = None" by (simp add: validateVMID_def ContainsAny_def)
  moreover have "MaxVMs (limits demo_mgr) = 2" by (simp add: demo_mgr_def NewManagerWithLimits_def Let_def)
  ultimately have "\<exists>m. CreateVM demo_env ''b'' ?m () = (Inr 1, m, ())
      \<and> length (inst_heap m) = 2 \<and> network (inst_heap m ! 0) = demo_lease \<and> \<not> a_released (network (inst_heap m ! 1))"
    by (simp add: CreateVM_def create_admit_def create_commit_def demo_env_def demo_inst_def NewInstance_def Let_def)
  moreover have "demo_mgr\<lparr>provision := 0\<rparr> = demo_mgr"
    by (simp add: demo_mgr_def NewManagerWithLimits_def Let_def)
  ultimately show ?thesis using c by (auto simp: mgr_run_def demo_lease_def)
qed

subsection \<open>Reconciliation\<close>

lemma Stop_None_not_listed:
  "map_of (instances (forget vmID ref m)) vmID \<noteq> Some ref"
  by (simp add: forget_def delete_conv)

lemma reconcile_loop_ok:
  assumes "reconcile_loop E items m h = ([], m', h')" and "set items \<subseteq> set (instances m)"
    and "gomap_wf (instances m)" and "distinct (map snd (instances m))" and "distinct items"
    and "\<forall>x \<in> set (instances m). snd x < length (inst_heap m)"
  shows "instances m' = filter (\<lambda>x. x \<notin> set items) (instances m)
    \<and> (\<forall>k. k \<notin> snd ` set items \<longrightarrow> inst_heap m' ! k = inst_heap m ! k)"
  using assms
proof (induction items arbitrary: m h)
  case (Cons it items)
  obtain vmID ref where it: "it = (vmID, ref)" by fastforce
  obtain r1 m1 h1 where st: "vm_Stop E ref m h = (r1, m1, h1)" by (metis prod_cases3)
  have listed: "(vmID, ref) \<in> set (instances m)" using Cons.prems(2) it by simp
  have ref: "ref < length (inst_heap m)" using Cons.prems(6) listed by force
  note at = Stop_at [OF st ref]
  have r1: "r1 = None" and rest: "reconcile_loop E items (forget vmID ref m1) h1 = ([], m', h')"
    using Cons.prems(1) it st by (auto split: option.splits prod.splits)
  have "map_of (instances m) vmID = Some ref" using listed Cons.prems(3) by (simp add: gomap_wf_def)
  then have inst: "instances (forget vmID ref m1) = AList.delete vmID (instances m)"
    using at by (simp add: forget_def)
  have del: "AList.delete vmID (instances m) = filter (\<lambda>x. x \<noteq> it) (instances m)"
    unfolding AList.delete_eq using listed Cons.prems(3) it
    by (auto intro!: filter_cong simp: gomap_wf_def eq_key_imp_eq_value)
  have "instances m' = filter (\<lambda>x. x \<notin> set items) (instances (forget vmID ref m1))
    \<and> (\<forall>k. k \<notin> snd ` set items \<longrightarrow> inst_heap m' ! k = inst_heap (forget vmID ref m1) ! k)"
  proof (rule Cons.IH [OF rest])
    show "set items \<subseteq> set (instances (forget vmID ref m1))"
      using Cons.prems(2,5) by (auto simp: inst del)
    show "gomap_wf (instances (forget vmID ref m1))" using Cons.prems(3) by (simp add: inst gomap_wf_delete)
    show "distinct (map snd (instances (forget vmID ref m1)))"
      using Cons.prems(4) by (simp add: inst distinct_snd_delete)
    show "distinct items" using Cons.prems(5) by simp
    show "\<forall>x \<in> set (instances (forget vmID ref m1)). snd x < length (inst_heap (forget vmID ref m1))"
      using Cons.prems(6) at by (auto simp: inst del)
  qed
  then show ?case using at it by (auto simp: inst del intro!: filter_cong)
qed simp

section \<open>Properties\<close>

text \<open>
  Resident VMs. Whatever calls a new manager serves and however the host and Firecracker
  behave, at most \<open>MaxVMs\<close> VMs are resident, no name occurs twice, every listed name is that of its
  instance, and no instance is left in a transient state.
\<close>

theorem manager_resident:
  "let m = fst (mgr_run E calls (NewManagerWithLimits base net snap lim, h))
   in int (length (ListVMs m)) \<le> MaxVMs (limits m) \<and> distinct (ListVMs m)
      \<and> (\<forall>vmID ref. GetVM m vmID = Inr ref \<longrightarrow>
            inst_ID (inst_heap m ! ref) = vmID \<and> inst_wf a_released (inst_heap m ! ref))"
proof -
  define m where "m = fst (mgr_run E calls (NewManagerWithLimits base net snap lim, h))"
  have inv: "mgr_inv m"
    unfolding m_def by (rule mgr_run_New)
  have "inst_ID (inst_heap m ! ref) = vmID \<and> inst_wf a_released (inst_heap m ! ref)"
    if "GetVM m vmID = Inr ref" for vmID ref
  proof -
    have "(vmID, ref) \<in> set (instances m)"
      using that by (auto simp: GetVM_def dest: map_of_SomeD split: option.splits)
    then show ?thesis using inv by (auto simp: mgr_inv_pending_def)
  qed
  then show ?thesis
    using inv unfolding m_def [symmetric] Let_def
    by (auto simp: mgr_inv_pending_def ListVMs_def gomap_wf_def)
qed

theorem manager_resident_witness:
  "int (length (ListVMs (fst (mgr_run demo_env [CallCreate ''a''] (demo_mgr, ()))))) \<le> 2"
proof -
  have "limits (fst (mgr_run demo_env [CallCreate ''a''] (demo_mgr, ()))) = limits demo_mgr"
    using mgr_run_inv [of "[]" "(demo_mgr, ())" demo_env "[CallCreate ''a'']"]
    by (simp add: mgr_inv_New demo_mgr_def)
  then show ?thesis
    using manager_resident [of demo_env "[CallCreate ''a'']"
       "vm_DefaultConfig\<lparr>KernelPath := ''k'', RootfsPath := ''r''\<rparr>" "net_DefaultConfig ''t''"
       "\<lparr>MemFilePath = ''m'', StateFilePath = ''s'', EnableResume = True\<rparr>"
       "\<lparr>MaxVMs = 2, MaxConcurrentProvision = 1\<rparr>" "()"]
    unfolding demo_mgr_def [symmetric] by (simp add: Let_def demo_mgr_def NewManagerWithLimits_def)
qed

text \<open>
  C1. Isolation between VMs. In every state a manager can reach, two different instances whose
  leases have not been returned hold different subnets and different VSOCK context identifiers,
  and the pool counts as used exactly the subnets and identifiers of such leases.
\<close>

theorem manager_isolation:
  assumes "m = fst (mgr_run E calls (NewManagerWithLimits base net snap lim, h))"
    and "i < j" and "j < length (inst_heap m)"
    and "\<not> a_released (network (inst_heap m ! i))" and "\<not> a_released (network (inst_heap m ! j))"
  shows "lease_subnet (network (inst_heap m ! i)) \<noteq> lease_subnet (network (inst_heap m ! j))
    \<and> a_cid (network (inst_heap m ! i)) \<noteq> a_cid (network (inst_heap m ! j))
    \<and> usedCIDs (m_ipam m) = a_cid ` set (live (map network (inst_heap m)))
    \<and> Some ` usedSubnets (m_ipam m) = lease_subnet ` set (live (map network (inst_heap m)))"
proof -
  have "leases_ok (m_ipam m) (map network (inst_heap m))"
    using mgr_run_New [of E calls base net snap lim h] assms(1) by (simp add: mgr_inv_pending_def)
  then show ?thesis
    using assms(2-5) distinct_live [of lease_subnet "map network (inst_heap m)" i j]
      distinct_live [of a_cid "map network (inst_heap m)" i j]
    by (simp add: leases_ok_def)
qed

theorem manager_isolation_witness:
  "\<exists>m. m = fst (mgr_run demo_env [CallCreate ''a'', CallCreate ''b''] (demo_mgr, ())) \<and> length (inst_heap m) = 2
     \<and> lease_subnet (network (inst_heap m ! 0)) \<noteq> lease_subnet (network (inst_heap m ! 1))
     \<and> a_cid (network (inst_heap m ! 0)) \<noteq> a_cid (network (inst_heap m ! 1))"
proof -
  obtain m where m: "mgr_run demo_env [CallCreate ''a'', CallCreate ''b''] (demo_mgr, ()) = (m, ())"
    "length (inst_heap m) = 2" "\<not> a_released (network (inst_heap m ! 0))" "\<not> a_released (network (inst_heap m ! 1))"
    using demo_two by blast
  then have "m = fst (mgr_run demo_env [CallCreate ''a'', CallCreate ''b''] (demo_mgr, ()))" by simp
  from manager_isolation [OF this [unfolded demo_mgr_def], of 0 1] m show ?thesis by auto
qed

text \<open>
  \<open>ProvisionVM\<close> delivers a running VM. When it succeeds, the returned instance is listed under
  the requested name, is running, has a machine and a live lease.
\<close>

theorem ProvisionVM_running:
  assumes "mgr_inv m" and "ProvisionVM E ctxErr vmID m h = (Inr ref, m', h')"
  shows "GetVM m' vmID = Inr ref \<and> inst_state (inst_heap m' ! ref) = StateRunning
    \<and> machine (inst_heap m' ! ref) \<noteq> None \<and> \<not> a_released (network (inst_heap m' ! ref))"
proof -
  obtain m1 where b: "provision_body E ctxErr vmID (m\<lparr>provision := Suc (provision m)\<rparr>) h = (Inr ref, m1, h')"
    and m': "m' = m1\<lparr>provision := provision m1 - 1\<rparr>"
    using assms(2) by (auto simp: ProvisionVM_def split: if_splits prod.splits)
  have "mgr_inv (m\<lparr>provision := Suc (provision m)\<rparr>)" using assms(1) by simp
  note run = provision_running [OF this b]
  have "mgr_inv m'" using kept_Provision [OF assms] by simp
  then have "inst_wf a_released (inst_heap m' ! ref)"
    using run m' by (auto simp: mgr_inv_pending_def)
  then show ?thesis using run m' by (simp add: inst_wf_def GetVM_def)
qed

theorem ProvisionVM_running_witness:
  "\<exists>m. ProvisionVM demo_env None ''a'' demo_mgr () = (Inr 0, m, ()) \<and> GetVM m ''a'' = Inr 0
     \<and> inst_state (inst_heap m ! 0) = StateRunning"
proof -
  obtain m where m: "ProvisionVM demo_env None ''a'' demo_mgr () = (Inr 0, m, ())" using demo_provision by blast
  from ProvisionVM_running [OF demo_inv m] m show ?thesis by blast
qed



text \<open>
  C18. \<open>Reconcile\<close> clears the clean-up backlog. If it reports no error, then no VM that is still
  listed is marked for clean-up, and every VM that was not marked is still listed as before.
\<close>

theorem Reconcile_clears:
  assumes "mgr_inv m" and "Reconcile E m h = (None, m', h')"
  shows "(\<forall>(vmID, ref) \<in> set (instances m').
            inst_state (inst_heap m' ! ref) \<noteq> StateCleanupFailed
            \<and> inst_heap m' ! ref = inst_heap m ! ref \<and> (vmID, ref) \<in> set (instances m))
    \<and> (\<forall>(vmID, ref) \<in> set (instances m).
            inst_state (inst_heap m ! ref) \<noteq> StateCleanupFailed \<longrightarrow> (vmID, ref) \<in> set (instances m'))"
proof -
  let ?items = "filter (\<lambda>(_, ref). inst_state (inst_heap m ! ref) = StateCleanupFailed) (instances m)"
  obtain errs where loop: "reconcile_loop E ?items m h = (errs, m', h')" and "errors_Join (map Some errs) = None"
    using assms(2) by (auto simp: Reconcile_def Let_def split: prod.splits)
  then have "errs = []" by (cases errs) (auto simp: errors_Join_None_iff)
  have inv: "gomap_wf (instances m)" "distinct (map snd (instances m))"
    "\<forall>x \<in> set (instances m). snd x < length (inst_heap m)"
    using assms(1) by (auto simp: mgr_inv_pending_def)
  then have "distinct ?items" by (auto intro: distinct_filter simp: distinct_map)
  then have res: "instances m' = filter (\<lambda>x. x \<notin> set ?items) (instances m)"
    "\<forall>k. k \<notin> snd ` set ?items \<longrightarrow> inst_heap m' ! k = inst_heap m ! k"
    using reconcile_loop_ok [OF loop [unfolded \<open>errs = []\<close>] _ inv(1,2) _ inv(3)] by auto
  have "ref \<notin> snd ` set ?items" if "(vmID, ref) \<in> set (instances m')" for vmID ref
    using that inv(2) res(1) by (auto simp: distinct_map dest: inj_onD)
  then show ?thesis using res by auto
qed

theorem Reconcile_clears_witness:
  "\<exists>m m'. ProvisionVM demo_env None ''a'' demo_mgr () = (Inr 0, m, ()) \<and> Reconcile demo_env m () = (None, m', ())
     \<and> (''a'', 0) \<in> set (instances m')"
proof -
  obtain m where m: "ProvisionVM demo_env None ''a'' demo_mgr () = (Inr 0, m, ())" "mgr_inv m"
    "instances m = [(''a'', 0)]" "inst_state (inst_heap m ! 0) = StateRunning"
    using demo_provision by blast
  have "Reconcile demo_env m () = (None, m, ())" using m by (simp add: Reconcile_def)
  from Reconcile_clears [OF m(2) this] show ?thesis using m \<open>Reconcile demo_env m () = _\<close> by auto
qed

text \<open>
  C33. A lease that is never returned. If a check of \<open>Configure\<close> fails on a VM that \<open>ProvisionVM\<close>
  has just created, the call fails and forgets the VM, but \<open>Stop\<close> ignores an instance in state
  created: the subnet and the context identifier stay in use although no listed VM holds them.
\<close>

theorem ProvisionVM_leak:
  assumes "mgr_inv m" and "provision m = 0" and "0 < MaxConcurrentProvision (limits m)"
    and "CreateVM E vmID (m\<lparr>provision := 1\<rparr>) h = (Inr ref, m1, h1)"
    and "configure_checks (env_vmm E) (alloc_ops (env_net E)) (inst_heap m1 ! ref) (m_ipam m1, h1) = (Inl e, w)"
  shows "\<exists>m' h'. ProvisionVM E None vmID m h = (Inl (Wrapf (''configure vm '' @ vmID @ '': '') e []), m', h')
    \<and> map_of (instances m') vmID = None
    \<and> \<not> a_released (network (inst_heap m' ! ref)) \<and> a_cid (network (inst_heap m' ! ref)) \<in> usedCIDs (m_ipam m')"
proof -
  obtain h2 where w: "w = (m_ipam m1, h2)" using configure_checks_pool [OF assms(5)] by (cases w) simp
  have conf: "vm_Configure E ref m1 h1 = (Some e, m1, h2)"
    using vm_Configure_refused [OF assms(5) [unfolded w]] by simp
  note new = CreateVM_new [OF assms(4)]
  have stop: "vm_Stop E ref m1 h2 = (None, m1, h2)"
    using new by (simp add: vm_Stop_def on_inst_def Stop_def stoppable_def)
  have inv: "mgr_inv m1" "map_of (instances m1) vmID = Some ref"
    using CreateVM_inv [OF _ assms(4)] assms(1) by auto
  have "network (inst_heap m1 ! ref) \<in> set (live (map network (inst_heap m1)))" using new by (auto simp: live_def)
  then have "a_cid (network (inst_heap m1 ! ref)) \<in> usedCIDs (m_ipam m1)"
    using inv(1) by (auto simp: mgr_inv_pending_def leases_ok_def)
  moreover have "map_of (instances (forget vmID ref m1)) vmID = None"
    using inv(2) by (simp add: forget_def delete_conv)
  moreover have "ProvisionVM E None vmID m h = (Inl (Wrapf (''configure vm '' @ vmID @ '': '') e []),
      (forget vmID ref m1)\<lparr>provision := provision (forget vmID ref m1) - 1\<rparr>, h2)"
    using assms(2-4) conf stop
    by (simp add: ProvisionVM_def provision_body_def provision_failed_def removeFailedVM_def)
  ultimately show ?thesis using new by auto
qed

theorem ProvisionVM_leak_witness:
  "\<exists>e m' h'. ProvisionVM (demo_env\<lparr>env_vmm := idle_vmm\<lparr>rand_Read := (\<lambda>n h. (Inl (Errorf ''EIO''), h))\<rparr>\<rparr>)
       None ''a'' demo_mgr () = (Inl e, m', h')
     \<and> map_of (instances m') ''a'' = None \<and> usedCIDs (m_ipam m') \<noteq> {}"
proof -
  let ?E = "demo_env\<lparr>env_vmm := idle_vmm\<lparr>rand_Read := (\<lambda>n h. (Inl (Errorf ''EIO''), h))\<rparr>\<rparr>"
  obtain p where c: "CreateVM ?E ''a'' (demo_mgr\<lparr>provision := 1\<rparr>) () =
     (Inr 0, demo_mgr\<lparr>provision := 1, m_ipam := p, inst_heap := [demo_inst], instances := [(''a'', 0)]\<rparr>, ())"
    using demo_create_any by blast
  have "configure_checks (env_vmm ?E) (alloc_ops (env_net ?E)) demo_inst (p, ()) =
      (Inl (Wrapf ''generate instance ID: '' (Errorf ''EIO'') []), (p, ()))"
    by (simp add: configure_checks_def generateInstanceID_def on_host_def)
  moreover have "provision demo_mgr = 0" "0 < MaxConcurrentProvision (limits demo_mgr)"
    by (simp_all add: demo_mgr_def NewManagerWithLimits_def Let_def)
  ultimately show ?thesis using ProvisionVM_leak [OF demo_inv _ _ c] by fastforce
qed

end
