(* ===== verification/Warm_Pool.thy ===== *)
theory Warm_Pool
  imports Vmm_Manager
begin

text \<open>
  \<open>internal/core/vmm/pool.go\<close>: the pool of warm instances. Instances are references into the heap of
  the manager, and \<open>reset\<close> is the callback of the caller. \<open>Checkin\<close> runs \<open>reset\<close> outside its
  mutex, so it is two critical sections, \<open>checkin_take\<close> and \<open>checkin_return\<close>, with the reset in
  between.
\<close>

section \<open>The pool\<close>

record warm_pool =
  capacity :: int
  idle :: "nat list"
  inUse :: "(string \<times> nat) list"

definition NewWarmPool :: "int \<Rightarrow> warm_pool result" where
  "NewWarmPool cap =
     (if cap \<le> 0 then Inl (Errorf ''warm pool capacity must be greater than zero'')
      else Inr \<lparr>capacity = cap, idle = [], inUse = []\<rparr>)"

definition state_of :: "'m manager \<Rightarrow> nat \<Rightarrow> vm_state" where
  "state_of m ref = inst_state (inst_heap m ! ref)"

definition warm_Add :: "'m manager \<Rightarrow> nat option \<Rightarrow> warm_pool \<Rightarrow> error option \<times> warm_pool" where
  "warm_Add m inst p =
     (case inst of
        None \<Rightarrow> (Some (Errorf ''warm instance is required''), p)
      | Some ref \<Rightarrow>
          if state_of m ref \<noteq> StateRunning
          then (Some (Errorf (''warm instance must be running, got '' @ state_String (state_of m ref))), p)
          else if capacity p \<le> int (length (idle p) + length (inUse p))
          then (Some (Wrapf [] ErrBackpressure ('': warm pool capacity '' @ Itoa (capacity p))), p)
          else (None, p\<lparr>idle := idle p @ [ref]\<rparr>))"

definition warm_Checkout :: "'m manager \<Rightarrow> string \<Rightarrow> warm_pool \<Rightarrow> nat result \<times> warm_pool" where
  "warm_Checkout m leaseID p =
     (if leaseID = [] then (Inl (Errorf ''lease ID is required''), p)
      else if map_of (inUse p) leaseID \<noteq> None
      then (Inl (Errorf (''lease '' @ leaseID @ '' already exists'')), p)
      else if idle p = []
      then (Inl (Wrapf [] ErrBackpressure '': no warm instances available''), p)
      else
        let inst = last (idle p); q = p\<lparr>idle := butlast (idle p)\<rparr>
        in if state_of m inst \<noteq> StateRunning
           then (Inl (Errorf (''warm instance '' @ inst_ID (inst_heap m ! inst) @ '' is not running'')),
                 q\<lparr>idle := idle q @ [inst]\<rparr>)
           else (Inr inst, q\<lparr>inUse := AList.update leaseID inst (inUse q)\<rparr>))"

definition checkin_take :: "string \<Rightarrow> warm_pool \<Rightarrow> nat option \<times> warm_pool" where
  "checkin_take leaseID p =
     (case map_of (inUse p) leaseID of
        None \<Rightarrow> (None, p)
      | Some inst \<Rightarrow> (Some inst, p\<lparr>inUse := AList.delete leaseID (inUse p)\<rparr>))"

definition checkin_return :: "nat \<Rightarrow> warm_pool \<Rightarrow> warm_pool" where
  "checkin_return inst p = p\<lparr>idle := idle p @ [inst]\<rparr>"

type_synonym ('m, 'h) reset_fn = "nat \<Rightarrow> 'm manager \<Rightarrow> 'h \<Rightarrow> error option \<times> 'm manager \<times> 'h"

text \<open>The part between the two critical sections: no error means that the instance may be reused.\<close>

definition checkin_reset ::
  "('m, 'h) vmm_env \<Rightarrow> ('m, 'h) reset_fn \<Rightarrow> nat \<Rightarrow> 'm manager \<Rightarrow> 'h \<Rightarrow> error option \<times> 'm manager \<times> 'h" where
  "checkin_reset E reset inst m h =
     (case reset inst m h of
        (Some err, m, h) \<Rightarrow>
          (case vm_Stop E inst m h of
             (stopErr, m, h) \<Rightarrow> (errors_Join [Some (Wrapf ''reset warm instance: '' err []), stopErr], m, h))
      | (None, m, h) \<Rightarrow>
          if state_of m inst \<noteq> StateRunning then
            (case vm_Stop E inst m h of
               (stopErr, m', h) \<Rightarrow>
                 (errors_Join [Some (Errorf (''warm reset completed in non-running state ''
                    @ state_String (state_of m inst))), stopErr], m', h))
          else (None, m, h))"

definition warm_Checkin ::
  "('m, 'h) vmm_env \<Rightarrow> ('m, 'h) reset_fn option \<Rightarrow> string \<Rightarrow> warm_pool \<Rightarrow> 'm manager \<Rightarrow> 'h
    \<Rightarrow> error option \<times> warm_pool \<times> 'm manager \<times> 'h" where
  "warm_Checkin E reset leaseID p m h =
     (case reset of
        None \<Rightarrow> (Some (Errorf ''instance reset function is required''), p, m, h)
      | Some reset \<Rightarrow>
          (case checkin_take leaseID p of
             (None, p) \<Rightarrow> (Some (Errorf (''lease '' @ leaseID @ '' not found'')), p, m, h)
           | (Some inst, p) \<Rightarrow>
               (case checkin_reset E reset inst m h of
                  (Some err, m, h) \<Rightarrow> (Some err, p, m, h)
                | (None, m, h) \<Rightarrow> (None, checkin_return inst p, m, h))))"

definition warm_Stats :: "warm_pool \<Rightarrow> nat \<times> nat" where
  "warm_Stats p = (length (idle p), length (inUse p))"

text \<open>
  Every lease is one instance, no instance is in the pool twice, and the pool is within its
  capacity.
\<close>

definition pool_inv :: "warm_pool \<Rightarrow> bool" where
  "pool_inv p \<longleftrightarrow> gomap_wf (inUse p) \<and> distinct (idle p @ map snd (inUse p))
     \<and> int (length (idle p) + length (inUse p)) \<le> capacity p"

section \<open>Lemmas\<close>

lemma delete_entry:
  assumes "gomap_wf xs" and "map_of xs k = Some v"
  obtains as bs where "xs = as @ (k, v) # bs" "AList.delete k xs = as @ bs"
proof -
  obtain as bs where xs: "xs = as @ (k, v) # bs"
    using map_of_SomeD [OF assms(2)] by (meson split_list)
  have "k \<notin> fst ` set as" "k \<notin> fst ` set bs" using assms(1) by (auto simp: xs gomap_wf_def)
  then have "AList.delete k as = as" "AList.delete k bs = bs" by (simp_all add: delete_id)
  then have "AList.delete k xs = as @ bs" by (simp add: xs AList.delete_eq)
  with xs show ?thesis by (rule that)
qed

lemma pool_inv_New: "NewWarmPool cap = Inr p \<Longrightarrow> pool_inv p"
  by (auto simp: NewWarmPool_def pool_inv_def split: if_splits)

lemma pool_inv_push:
  assumes "pool_inv p" and "ref \<notin> set (idle p) \<union> snd ` set (inUse p)"
    and "int (length (idle p) + length (inUse p)) < capacity p"
  shows "pool_inv (p\<lparr>idle := idle p @ [ref]\<rparr>)"
proof -
  have "(set (idle p) \<union> {ref}) \<inter> snd ` set (inUse p) = {}"
    using assms(1,2) unfolding pool_inv_def by auto
  then show ?thesis using assms by (simp add: pool_inv_def)
qed

lemma pool_inv_Add:
  assumes "pool_inv p" and "ref \<notin> set (idle p) \<union> snd ` set (inUse p)" and "warm_Add m (Some ref) p = (r, p')"
  shows "pool_inv p'"
  using assms pool_inv_push [OF assms(1,2)] by (auto simp: warm_Add_def split: if_splits)

lemma pool_inv_lease:
  assumes "pool_inv p" and "idle p = xs @ [x]" and "map_of (inUse p) leaseID = None"
  shows "pool_inv (p\<lparr>idle := xs, inUse := inUse p @ [(leaseID, x)]\<rparr>)"
  using assms by (simp add: pool_inv_def gomap_wf_def map_of_eq_None_iff Int_Un_distrib Int_commute)

lemma pool_inv_Checkout:
  assumes "pool_inv p" and "warm_Checkout m leaseID p = (r, p')"
  shows "pool_inv p'"
proof (cases "idle p" rule: rev_cases)
  case (snoc xs x)
  have "pool_inv (p\<lparr>idle := xs @ [x]\<rparr>)" using assms(1) snoc by (simp add: pool_inv_def)
  then show ?thesis
    using assms snoc pool_inv_lease [OF assms(1) snoc, of leaseID]
    by (auto simp: warm_Checkout_def Let_def update_new split: if_splits)
next
  case Nil
  then show ?thesis using assms by (simp add: warm_Checkout_def split: if_splits)
qed

lemma pool_inv_take:
  assumes "pool_inv p" and "checkin_take leaseID p = (Some inst, q)"
  shows "pool_inv q \<and> inst \<notin> set (idle q) \<union> snd ` set (inUse q) \<and> capacity q = capacity p
    \<and> int (length (idle q) + length (inUse q)) < capacity q"
proof -
  have q: "q = p\<lparr>inUse := AList.delete leaseID (inUse p)\<rparr>" and inst: "map_of (inUse p) leaseID = Some inst"
    using assms(2) by (auto simp: checkin_take_def split: option.splits)
  have "gomap_wf (inUse p)" using assms(1) by (simp add: pool_inv_def)
  then obtain as bs where "inUse p = as @ (leaseID, inst) # bs" "AList.delete leaseID (inUse p) = as @ bs"
    using inst by (rule delete_entry)
  then show ?thesis
    using assms(1) unfolding q pool_inv_def by (simp add: gomap_wf_def image_Un Int_Un_distrib)
qed

lemma pool_inv_Checkin:
  assumes "pool_inv p" and "warm_Checkin E reset leaseID p m h = (r, p', m', h')"
  shows "pool_inv p'"
proof (cases "\<exists>f inst q. reset = Some f \<and> checkin_take leaseID p = (Some inst, q)")
  case True
  then obtain f inst q where q: "reset = Some f" "checkin_take leaseID p = (Some inst, q)" by blast
  note take = pool_inv_take [OF assms(1) q(2)]
  have "pool_inv (checkin_return inst q)"
    unfolding checkin_return_def using take by (intro pool_inv_push) auto
  moreover have "p' = q \<or> p' = checkin_return inst q"
    using assms(2) q by (auto simp: warm_Checkin_def split: prod.splits option.splits)
  ultimately show ?thesis using take by auto
next
  case False
  then show ?thesis
    using assms by (auto simp: warm_Checkin_def checkin_take_def split: option.splits)
qed

section \<open>Properties\<close>



text \<open>
  Reuse only after a successful reset. A check-in that reports success has reset exactly the
  instance of that lease, found it running, and put it at the end of the idle list; a check-in that
  fails adds no instance to the idle list and, if the lease existed, withdraws it.
\<close>

theorem Checkin_reuse:
  assumes "warm_Checkin E (Some reset) leaseID p m h = (r, p', m', h')"
  shows "(r = None \<longrightarrow> (\<exists>inst. map_of (inUse p) leaseID = Some inst \<and> idle p' = idle p @ [inst]
            \<and> reset inst m h = (None, m', h') \<and> state_of m' inst = StateRunning))
    \<and> (r \<noteq> None \<longrightarrow> idle p' = idle p) \<and> map_of (inUse p') leaseID = None"
  using assms
  by (auto simp: warm_Checkin_def checkin_take_def checkin_reset_def checkin_return_def delete_conv
      errors_Join_None_iff split: option.splits prod.splits if_splits)

theorem Checkin_reuse_witness:
  "\<exists>p' m' h'. warm_Checkin demo_env (Some (\<lambda>_ m h. (Some (Errorf ''dirty''), m, h))) ''l''
       \<lparr>capacity = 1, idle = [], inUse = [(''l'', 0)]\<rparr> (demo_mgr\<lparr>inst_heap := [demo_inst]\<rparr>) () = (Some (Joined [Wrapf ''reset warm instance: '' (Errorf ''dirty'') []]), p', m', h')
     \<and> idle p' = [] \<and> map_of (inUse p') ''l'' = None"
proof -
  have c: "warm_Checkin demo_env (Some (\<lambda>_ m h. (Some (Errorf ''dirty''), m, h))) ''l''
       \<lparr>capacity = 1, idle = [], inUse = [(''l'', 0)]\<rparr> (demo_mgr\<lparr>inst_heap := [demo_inst]\<rparr>) ()
     = (Some (Joined [Wrapf ''reset warm instance: '' (Errorf ''dirty'') []]),
        \<lparr>capacity = 1, idle = [], inUse = []\<rparr>, demo_mgr\<lparr>inst_heap := [demo_inst]\<rparr>, ())"
    by (simp add: warm_Checkin_def checkin_take_def checkin_reset_def vm_Stop_def on_inst_def Stop_def
        stoppable_def demo_inst_def NewInstance_def)
  from Checkin_reuse [OF c] c show ?thesis by simp
qed



end
