(* ===== verification/Database.thy ===== *)
theory Database
  imports Go_Errors
begin

text \<open>
  The identity tables of \<open>migrations\<close> and the queries of \<open>internal/database/sqlc\<close> on them. A table is
  the list of its rows in the order of insertion. PostgreSQL itself is not part of the repository:
  what the queries rely on is modelled. A statement that writes is accepted only if the tables satisfy
  every constraint of the migrations afterwards (\<open>schema_ok\<close>), otherwise nothing changes; a row that is
  asked for and does not exist is the error of pgx for no rows. The case folding of \<open>citext\<close> and the
  recognition of JSON objects are arguments (\<open>pg\<close>). \<open>call_env\<close> is what surrounds one request: the clock
  of the process and that of the database, the identifier the database generates, the random bytes, and
  the queries that fail because the database cannot be reached. Times are microseconds, as in the
  database (\<open>pkg/pgconv\<close> converts them); the thin repositories in front of the queries only forward to them.
\<close>

section \<open>Rows\<close>

type_synonym uuid = nat
type_synonym time = int

text \<open>\<open>uuid.Nil\<close>\<close>

definition uuid_Nil :: uuid where "uuid_Nil = 0"

record user =
  u_ID :: uuid
  u_Email :: string
  u_EmailVerified :: bool
  u_Name :: "string option"
  u_PasswordHash :: "string option"
  u_DisabledAt :: "time option"
  u_CreatedAt :: time
  u_UpdatedAt :: time

record auth_transaction =
  tx_ID :: uuid
  tx_Identifier :: string
  tx_UserID :: "uuid option"
  tx_State :: string
  tx_SelectedMethod :: "string option"
  tx_ExpiresAt :: "time option"
  tx_CreatedAt :: time
  tx_UpdatedAt :: time

record auth_challenge =
  ch_ID :: uuid
  ch_AuthTransactionID :: "uuid option"
  ch_Identifier :: string
  ch_SecretHash :: string
  ch_Purpose :: string
  ch_State :: "string option"
  ch_Attempts :: int
  ch_MaxAttempts :: int
  ch_ExpiresAt :: "time option"
  ch_ConsumedAt :: "time option"
  ch_CreatedAt :: time

record session =
  se_ID :: uuid
  se_UserID :: uuid
  se_TokenHash :: string
  se_IpAddress :: "string option"
  se_UserAgent :: "string option"
  se_ExpiresAt :: "time option"
  se_LastSeenAt :: "time option"
  se_RevokedAt :: "time option"
  se_CreatedAt :: time

record access_token =
  pt_ID :: uuid
  pt_UserID :: uuid
  pt_Name :: string
  pt_TokenHash :: string
  pt_TokenPrefix :: string
  pt_Scopes :: "string list"
  pt_ExpiresAt :: "time option"
  pt_LastUsedAt :: "time option"
  pt_CreatedAt :: time

record team_token =
  tt_ID :: uuid
  tt_TeamID :: uuid
  tt_Name :: string
  tt_TokenHash :: string
  tt_TokenPrefix :: string
  tt_Scopes :: "string list"
  tt_ExpiresAt :: "time option"
  tt_LastUsedAt :: "time option"
  tt_CreatedBy :: "uuid option"
  tt_CreatedAt :: time

record team_member =
  tm_TeamID :: uuid
  tm_UserID :: uuid
  tm_Role :: string

record db =
  users :: "user list"
  auth_transactions :: "auth_transaction list"
  auth_challenges :: "auth_challenge list"
  sessions :: "session list"
  access_tokens :: "access_token list"
  teams :: "uuid list"
  team_members :: "team_member list"
  team_tokens :: "team_token list"

section \<open>pgconv\<close>

text \<open>The zero value of \<open>time.Time\<close>, 1 January of year 1.\<close>

definition zero_time :: time where "zero_time = - 62135596800000000"

definition NullableTimestamptz :: "time option \<Rightarrow> time option" where
  "NullableTimestamptz v = (case v of None \<Rightarrow> None | Some t \<Rightarrow> if t = zero_time then None else Some t)"

definition TimestamptzToTime :: "time option \<Rightarrow> time" where
  "TimestamptzToTime v = (case v of None \<Rightarrow> zero_time | Some t \<Rightarrow> t)"

definition TimestamptzToTimePtr :: "time option \<Rightarrow> time option" where
  "TimestamptzToTimePtr v = (case v of None \<Rightarrow> None | Some t \<Rightarrow> Some t)"

section \<open>Constraints\<close>

record pg =
  pg_lower :: "string \<Rightarrow> string"
  pg_json_object :: "string \<Rightarrow> bool"

text \<open>A comparison with \<open>NULL\<close> is not true.\<close>

definition after :: "time option \<Rightarrow> time \<Rightarrow> bool" where
  "after t now \<longleftrightarrow> (case t of Some x \<Rightarrow> now < x | None \<Rightarrow> False)"

definition users_ok :: "pg \<Rightarrow> db \<Rightarrow> bool" where
  "users_ok pg d \<longleftrightarrow> distinct (map u_ID (users d)) \<and> distinct (map (pg_lower pg \<circ> u_Email) (users d))"

definition tx_states :: "string list" where
  "tx_states = [''started'', ''otp_sent'', ''otp_verified'', ''password_required'', ''authenticated'', ''expired'']"

text \<open>A reference to a row of another table, if there is one.\<close>

definition ref_ok :: "uuid list \<Rightarrow> uuid option \<Rightarrow> bool" where
  "ref_ok ids r \<longleftrightarrow> (case r of Some i \<Rightarrow> i \<in> set ids | None \<Rightarrow> True)"

definition tx_row_ok :: "uuid list \<Rightarrow> auth_transaction \<Rightarrow> bool" where
  "tx_row_ok uids t \<longleftrightarrow> ref_ok uids (tx_UserID t) \<and> tx_State t \<in> set tx_states
     \<and> tx_SelectedMethod t \<in> set [None, Some ''otp'', Some ''password''] \<and> after (tx_ExpiresAt t) (tx_CreatedAt t)"

definition transactions_ok :: "db \<Rightarrow> bool" where
  "transactions_ok d \<longleftrightarrow> distinct (map tx_ID (auth_transactions d))
     \<and> list_all (tx_row_ok (map u_ID (users d))) (auth_transactions d)"

definition ch_purposes :: "string list" where
  "ch_purposes = [''email_otp'', ''email_verification'', ''password_reset'', ''magic_link'']"

definition ch_row_ok :: "pg \<Rightarrow> uuid list \<Rightarrow> auth_challenge \<Rightarrow> bool" where
  "ch_row_ok pg tids c \<longleftrightarrow> ref_ok tids (ch_AuthTransactionID c) \<and> ch_Purpose c \<in> set ch_purposes
     \<and> (case ch_State c of Some s \<Rightarrow> pg_json_object pg s | None \<Rightarrow> False)
     \<and> 0 \<le> ch_Attempts c \<and> 0 < ch_MaxAttempts c \<and> after (ch_ExpiresAt c) (ch_CreatedAt c)
     \<and> (case ch_ConsumedAt c of Some x \<Rightarrow> ch_CreatedAt c \<le> x | None \<Rightarrow> True)"

definition challenges_ok :: "pg \<Rightarrow> db \<Rightarrow> bool" where
  "challenges_ok pg d \<longleftrightarrow> distinct (map ch_ID (auth_challenges d))
     \<and> list_all (ch_row_ok pg (map tx_ID (auth_transactions d))) (auth_challenges d)"

definition se_row_ok :: "uuid list \<Rightarrow> session \<Rightarrow> bool" where
  "se_row_ok uids s \<longleftrightarrow> se_UserID s \<in> set uids \<and> after (se_ExpiresAt s) (se_CreatedAt s)
     \<and> (case se_RevokedAt s of Some x \<Rightarrow> se_CreatedAt s \<le> x | None \<Rightarrow> True)"

definition sessions_ok :: "db \<Rightarrow> bool" where
  "sessions_ok d \<longleftrightarrow> distinct (map se_ID (sessions d)) \<and> distinct (map se_TokenHash (sessions d))
     \<and> list_all (se_row_ok (map u_ID (users d))) (sessions d)"

definition tokens_ok :: "db \<Rightarrow> bool" where
  "tokens_ok d \<longleftrightarrow> distinct (map pt_ID (access_tokens d)) \<and> distinct (map pt_TokenHash (access_tokens d))
     \<and> list_all (\<lambda>t. pt_UserID t \<in> set (map u_ID (users d))) (access_tokens d)"

definition tm_row_ok :: "uuid list \<Rightarrow> uuid list \<Rightarrow> team_member \<Rightarrow> bool" where
  "tm_row_ok tids uids m \<longleftrightarrow> tm_TeamID m \<in> set tids \<and> tm_UserID m \<in> set uids
     \<and> tm_Role m \<in> set [''owner'', ''admin'', ''member'']"

definition teams_ok :: "db \<Rightarrow> bool" where
  "teams_ok d \<longleftrightarrow> distinct (teams d) \<and> distinct (map (\<lambda>m. (tm_TeamID m, tm_UserID m)) (team_members d))
     \<and> list_all (tm_row_ok (teams d) (map u_ID (users d))) (team_members d)
     \<and> distinct (map tt_ID (team_tokens d)) \<and> distinct (map tt_TokenHash (team_tokens d))
     \<and> list_all (\<lambda>t. tt_TeamID t \<in> set (teams d) \<and> ref_ok (map u_ID (users d)) (tt_CreatedBy t)) (team_tokens d)"

definition schema_ok :: "pg \<Rightarrow> db \<Rightarrow> bool" where
  "schema_ok pg d \<longleftrightarrow> users_ok pg d \<and> transactions_ok d \<and> challenges_ok pg d \<and> sessions_ok d \<and> tokens_ok d \<and> teams_ok d"

section \<open>Statements\<close>

record call_env =
  wall :: time
  now :: time
  gen_uuid :: uuid
  rand :: "nat \<Rightarrow> byte list result"
  down :: "string \<Rightarrow> error option"

definition ErrNoRows :: error where "ErrNoRows = Sentinel ''no rows in result set''"

definition constraint_error :: error where
  "constraint_error = Errorf ''ERROR: constraint violation (SQLSTATE 23000)''"

text \<open>\<open>:one\<close> queries that read, that write the row they return, and \<open>:exec\<close> statements.\<close>

definition select_one :: "call_env \<Rightarrow> string \<Rightarrow> ('a \<Rightarrow> bool) \<Rightarrow> 'a list \<Rightarrow> 'a result" where
  "select_one env name P rows =
     (case down env name of
        Some err \<Rightarrow> Inl err
      | None \<Rightarrow> (case filter P rows of [] \<Rightarrow> Inl ErrNoRows | r # _ \<Rightarrow> Inr r))"

definition commit :: "call_env \<Rightarrow> pg \<Rightarrow> string \<Rightarrow> db \<Rightarrow> db \<Rightarrow> 'a result \<Rightarrow> 'a result \<times> db" where
  "commit env pg name d d' r =
     (case down env name of
        Some err \<Rightarrow> (Inl err, d)
      | None \<Rightarrow> if schema_ok pg d' then (r, d') else (Inl constraint_error, d))"

definition update_where :: "('a \<Rightarrow> bool) \<Rightarrow> ('a \<Rightarrow> 'a) \<Rightarrow> 'a list \<Rightarrow> 'a list" where
  "update_where P f rows = map (\<lambda>r. if P r then f r else r) rows"

definition returning :: "('a \<Rightarrow> bool) \<Rightarrow> ('a \<Rightarrow> 'a) \<Rightarrow> 'a list \<Rightarrow> 'a result" where
  "returning P f rows = (case filter P rows of [] \<Rightarrow> Inl ErrNoRows | r # _ \<Rightarrow> Inr (f r))"

definition as_exec :: "'a result \<times> db \<Rightarrow> error option \<times> db" where
  "as_exec r = (case r of (Inl err, d) \<Rightarrow> (Some err, d) | (Inr _, d) \<Rightarrow> (None, d))"

definition exec_stmt :: "call_env \<Rightarrow> pg \<Rightarrow> string \<Rightarrow> db \<Rightarrow> db \<Rightarrow> error option \<times> db" where
  "exec_stmt env pg name d d' = as_exec (commit env pg name d d' (Inr ()))"

section \<open>Frames\<close>

text \<open>Each constraint depends on few tables.\<close>

lemma users_ok_frame [simp]:
  "users_ok pg (d\<lparr>auth_transactions := a\<rparr>) = users_ok pg d"
  "users_ok pg (d\<lparr>auth_challenges := b\<rparr>) = users_ok pg d"
  "users_ok pg (d\<lparr>sessions := c\<rparr>) = users_ok pg d"
  "users_ok pg (d\<lparr>access_tokens := e\<rparr>) = users_ok pg d"
  "users_ok pg (d\<lparr>team_tokens := f\<rparr>) = users_ok pg d"
  by (simp_all add: users_ok_def)

lemma transactions_ok_frame [simp]:
  "transactions_ok (d\<lparr>auth_challenges := b\<rparr>) = transactions_ok d"
  "transactions_ok (d\<lparr>sessions := c\<rparr>) = transactions_ok d"
  "transactions_ok (d\<lparr>access_tokens := e\<rparr>) = transactions_ok d"
  "transactions_ok (d\<lparr>team_tokens := f\<rparr>) = transactions_ok d"
  by (simp_all add: transactions_ok_def)

lemma challenges_ok_frame [simp]:
  "challenges_ok pg (d\<lparr>users := u\<rparr>) = challenges_ok pg d"
  "challenges_ok pg (d\<lparr>sessions := c\<rparr>) = challenges_ok pg d"
  "challenges_ok pg (d\<lparr>access_tokens := e\<rparr>) = challenges_ok pg d"
  "challenges_ok pg (d\<lparr>team_tokens := f\<rparr>) = challenges_ok pg d"
  by (simp_all add: challenges_ok_def)

lemma sessions_ok_frame [simp]:
  "sessions_ok (d\<lparr>auth_transactions := a\<rparr>) = sessions_ok d"
  "sessions_ok (d\<lparr>auth_challenges := b\<rparr>) = sessions_ok d"
  "sessions_ok (d\<lparr>access_tokens := e\<rparr>) = sessions_ok d"
  "sessions_ok (d\<lparr>team_tokens := f\<rparr>) = sessions_ok d"
  by (simp_all add: sessions_ok_def)

lemma tokens_ok_frame [simp]:
  "tokens_ok (d\<lparr>auth_transactions := a\<rparr>) = tokens_ok d"
  "tokens_ok (d\<lparr>auth_challenges := b\<rparr>) = tokens_ok d"
  "tokens_ok (d\<lparr>sessions := c\<rparr>) = tokens_ok d"
  "tokens_ok (d\<lparr>team_tokens := f\<rparr>) = tokens_ok d"
  by (simp_all add: tokens_ok_def)

lemma teams_ok_frame [simp]:
  "teams_ok (d\<lparr>auth_transactions := a\<rparr>) = teams_ok d"
  "teams_ok (d\<lparr>auth_challenges := b\<rparr>) = teams_ok d"
  "teams_ok (d\<lparr>sessions := c\<rparr>) = teams_ok d"
  "teams_ok (d\<lparr>access_tokens := e\<rparr>) = teams_ok d"
  by (simp_all add: teams_ok_def)

text \<open>An update that keeps the identifiers of the users keeps every reference to them.\<close>

lemma users_frame:
  assumes "map u_ID us = map u_ID (users d)"
  shows "transactions_ok (d\<lparr>users := us\<rparr>) = transactions_ok d" "sessions_ok (d\<lparr>users := us\<rparr>) = sessions_ok d"
    "tokens_ok (d\<lparr>users := us\<rparr>) = tokens_ok d" "teams_ok (d\<lparr>users := us\<rparr>) = teams_ok d"
  using assms
  by (simp_all add: transactions_ok_def sessions_ok_def tokens_ok_def teams_ok_def del: set_map)

lemma update_where_keeps:
  "(\<And>r. P r \<Longrightarrow> g (f r) = g r) \<Longrightarrow> map g (update_where P f rows) = map g rows"
  by (simp add: update_where_def)

lemma update_where_mem:
  assumes "r' \<in> set (update_where P f rows)"
  obtains r where "r \<in> set rows" "r' = (if P r then f r else r)"
  using assms by (auto simp only: update_where_def set_map image_iff)

lemma update_where_in: "r \<in> set rows \<Longrightarrow> (if P r then f r else r) \<in> set (update_where P f rows)"
  by (simp only: update_where_def set_map) (rule imageI)

end
