(* ===== verification/Outbox.thy ===== *)
theory Outbox
  imports Database
begin

text \<open>
  \<open>internal/platform/outbox\<close>: the table of events to publish and the relay that publishes them. A row keeps
  its headers as a map and its payload as the text of the stored \<open>jsonb\<close> value. What the rules of the
  table need of PostgreSQL and of \<open>encoding/json\<close> is the argument \<open>js\<close>: when a text is valid JSON, what
  \<open>jsonb\<close> makes of it and of a map of headers (it may refuse both), and whether a text contains white space. A repository is configured or not;
  \<open>skip\<close> are the rows that other transactions have locked while a batch is claimed. The order of the
  claimed events is open in the database; here it is the order of the table. \<open>ustr\<close> is \<open>uuid.String\<close>.
\<close>

section \<open>Events and the table\<close>

record event =
  ev_ID :: uuid
  ev_Subject :: string
  ev_AggregateType :: string
  ev_AggregateID :: uuid
  ev_Payload :: "string option"
  ev_Headers :: "(string, string) gomap"
  ev_AvailableAt :: time
  ev_Attempts :: int
  ev_PublishFailures :: int
  ev_CreatedAt :: time

record outbox_row =
  ob_ID :: uuid
  ob_Subject :: string
  ob_AggregateType :: string
  ob_AggregateID :: uuid
  ob_Payload :: string
  ob_Headers :: "(string, string) gomap"
  ob_AvailableAt :: time
  ob_PublishedAt :: "time option"
  ob_Attempts :: int
  ob_PublishFailures :: int
  ob_RedriveCount :: int
  ob_LastError :: "string option"
  ob_QuarantinedAt :: "time option"
  ob_QuarantineCode :: "string option"
  ob_QuarantineReason :: "string option"
  ob_LockedAt :: "time option"
  ob_LockedBy :: "string option"
  ob_CreatedAt :: time
  ob_UpdatedAt :: time

record json_rules =
  json_Valid :: "string \<Rightarrow> bool"
  jsonb :: "string \<Rightarrow> string option"
  headers_jsonb :: "(string, string) gomap \<Rightarrow> (string, string) gomap option"
  has_space :: "string \<Rightarrow> bool"

text \<open>\<open>length(trim(s)) > 0\<close>, and the range of \<open>INTEGER\<close> from zero.\<close>

definition not_blank :: "string \<Rightarrow> bool" where
  "not_blank s \<longleftrightarrow> list_ex (\<lambda>c. c \<noteq> CHR '' '') s"

definition count_ok :: "int \<Rightarrow> bool" where
  "count_ok n \<longleftrightarrow> 0 \<le> n \<and> n \<le> 2147483647"

definition outbox_row_ok :: "json_rules \<Rightarrow> outbox_row \<Rightarrow> bool" where
  "outbox_row_ok js r \<longleftrightarrow>
     not_blank (ob_Subject r) \<and> \<not> has_space js (ob_Subject r) \<and> not_blank (ob_AggregateType r)
     \<and> count_ok (ob_Attempts r) \<and> count_ok (ob_PublishFailures r) \<and> count_ok (ob_RedriveCount r)
     \<and> (case (ob_QuarantinedAt r, ob_QuarantineCode r, ob_QuarantineReason r) of
          (None, None, None) \<Rightarrow> True
        | (Some _, Some cd, Some reason) \<Rightarrow> not_blank cd \<and> not_blank reason
        | _ \<Rightarrow> False)
     \<and> \<not> (ob_PublishedAt r \<noteq> None \<and> ob_QuarantinedAt r \<noteq> None)
     \<and> (ob_LockedAt r = None \<longleftrightarrow> ob_LockedBy r = None)"

type_synonym outbox = "outbox_row list"

definition outbox_ok :: "json_rules \<Rightarrow> outbox \<Rightarrow> bool" where
  "outbox_ok js t \<longleftrightarrow> distinct (map ob_ID t) \<and> list_all (outbox_row_ok js) t"

definition ob_commit :: "call_env \<Rightarrow> json_rules \<Rightarrow> string \<Rightarrow> outbox \<Rightarrow> outbox \<Rightarrow> 'a \<Rightarrow> 'a result \<times> outbox" where
  "ob_commit env js name t t' r =
     (case down env name of
        Some err \<Rightarrow> (Inl err, t)
      | None \<Rightarrow> if outbox_ok js t' then (Inr r, t') else (Inl constraint_error, t))"

section \<open>The repository\<close>

definition ErrClaimLost :: error where "ErrClaimLost = Sentinel ''outbox event claim was lost''"
definition ErrNotQuarantined :: error where "ErrNotQuarantined = Sentinel ''outbox event is not quarantined''"

definition not_configured :: error where "not_configured = Errorf ''outbox repository is not configured''"

type_synonym repository = "bool option"

text \<open>The row that is inserted; the columns that are not named take their defaults.\<close>

definition outbox_insert :: "call_env \<Rightarrow> event \<Rightarrow> string \<Rightarrow> (string, string) gomap \<Rightarrow> outbox_row" where
  "outbox_insert env event payload headers =
     \<lparr>ob_ID = (if ev_ID event = uuid_Nil then gen_uuid env else ev_ID event),
      ob_Subject = TrimSpace (ev_Subject event), ob_AggregateType = TrimSpace (ev_AggregateType event),
      ob_AggregateID = ev_AggregateID event, ob_Payload = payload, ob_Headers = headers,
      ob_AvailableAt = (if ev_AvailableAt event = zero_time then wall env else ev_AvailableAt event),
      ob_PublishedAt = None, ob_Attempts = 0, ob_PublishFailures = 0, ob_RedriveCount = 0, ob_LastError = None,
      ob_QuarantinedAt = None, ob_QuarantineCode = None, ob_QuarantineReason = None, ob_LockedAt = None, ob_LockedBy = None,
      ob_CreatedAt = now env, ob_UpdatedAt = now env\<rparr>"

definition enqueue :: "call_env \<Rightarrow> json_rules \<Rightarrow> bool \<Rightarrow> event \<Rightarrow> outbox \<Rightarrow> uuid result \<times> outbox" where
  "enqueue env js executor event t =
     (if \<not> executor then (Inl (Errorf ''outbox database executor is not configured''), t)
      else if TrimSpace (ev_Subject event) = [] then (Inl (Errorf ''outbox subject is required''), t)
      else if TrimSpace (ev_AggregateType event) = [] then (Inl (Errorf ''outbox aggregate type is required''), t)
      else if ev_AggregateID event = uuid_Nil then (Inl (Errorf ''outbox aggregate ID is required''), t)
      else if ev_Payload event = None \<or> \<not> json_Valid js (the (ev_Payload event))
      then (Inl (Errorf ''outbox payload must be valid JSON''), t)
      else (case (jsonb js (the (ev_Payload event)), headers_jsonb js (ev_Headers event)) of
              (Some payload, Some headers) \<Rightarrow>
                let row = outbox_insert env event payload headers
                in (case ob_commit env js ''enqueue'' t (t @ [row]) () of
                      (Inl err, t) \<Rightarrow> (Inl (Wrapf ''enqueue outbox event: '' err []), t)
                    | (Inr _, t) \<Rightarrow> (Inr (ob_ID row), t))
            | _ \<Rightarrow> (Inl (Wrapf ''enqueue outbox event: '' constraint_error []), t)))"

text \<open>\<open>Enqueue\<close> hands over its pool, which is never the nil interface.\<close>

definition outbox_Enqueue :: "call_env \<Rightarrow> json_rules \<Rightarrow> event \<Rightarrow> outbox \<Rightarrow> uuid result \<times> outbox" where
  "outbox_Enqueue env js event t = enqueue env js True event t"

definition EnqueueTx :: "call_env \<Rightarrow> json_rules \<Rightarrow> bool \<Rightarrow> event \<Rightarrow> outbox \<Rightarrow> uuid result \<times> outbox" where
  "EnqueueTx env js tx event t =
     (if \<not> tx then (Inl (Errorf ''outbox transaction is required''), t) else enqueue env js True event t)"

definition claimable :: "call_env \<Rightarrow> time \<Rightarrow> outbox_row \<Rightarrow> bool" where
  "claimable env staleBefore r \<longleftrightarrow> ob_PublishedAt r = None \<and> ob_QuarantinedAt r = None \<and> ob_AvailableAt r \<le> now env
     \<and> (case ob_LockedAt r of None \<Rightarrow> True | Some x \<Rightarrow> x < staleBefore)"

definition candidates :: "call_env \<Rightarrow> (uuid \<Rightarrow> bool) \<Rightarrow> nat \<Rightarrow> time \<Rightarrow> outbox \<Rightarrow> uuid list" where
  "candidates env skip limit staleBefore t =
     map ob_ID (take limit (filter (\<lambda>r. \<not> skip (ob_ID r))
       (sort_key ob_AvailableAt (sort_key ob_CreatedAt (filter (claimable env staleBefore) t)))))"

definition claim_row :: "call_env \<Rightarrow> string \<Rightarrow> outbox_row \<Rightarrow> outbox_row" where
  "claim_row env owner r =
     r\<lparr>ob_LockedAt := Some (now env), ob_LockedBy := Some owner, ob_Attempts := ob_Attempts r + 1, ob_UpdatedAt := now env\<rparr>"

definition event_of :: "outbox_row \<Rightarrow> event" where
  "event_of r =
     \<lparr>ev_ID = ob_ID r, ev_Subject = ob_Subject r, ev_AggregateType = ob_AggregateType r, ev_AggregateID = ob_AggregateID r,
      ev_Payload = Some (ob_Payload r), ev_Headers = ob_Headers r, ev_AvailableAt = ob_AvailableAt r,
      ev_Attempts = ob_Attempts r, ev_PublishFailures = ob_PublishFailures r, ev_CreatedAt = ob_CreatedAt r\<rparr>"

definition ClaimBatch ::
  "call_env \<Rightarrow> json_rules \<Rightarrow> (uuid \<Rightarrow> bool) \<Rightarrow> repository \<Rightarrow> string \<Rightarrow> int \<Rightarrow> time \<Rightarrow> outbox \<Rightarrow> event list result \<times> outbox" where
  "ClaimBatch env js skip repo owner limit staleBefore t =
     (if repo \<noteq> Some True then (Inl not_configured, t)
      else let owner = TrimSpace owner
           in if owner = [] then (Inl (Errorf ''outbox owner is required''), t)
              else if limit \<le> 0 then (Inl (Errorf ''outbox claim limit must be positive''), t)
              else if staleBefore = zero_time then (Inl (Errorf ''outbox stale lock time is required''), t)
              else let ids = candidates env skip (nat limit) staleBefore t;
                       t' = update_where (\<lambda>r. ob_ID r \<in> set ids) (claim_row env owner) t
                   in (case down env ''ClaimBatch'' of
                         Some err \<Rightarrow> (Inl (Wrapf ''claim outbox events: '' err []), t)
                       | None \<Rightarrow>
                           if outbox_ok js t' then (Inr (map event_of (filter (\<lambda>r. ob_ID r \<in> set ids) t')), t')
                           else (Inl (Wrapf ''iterate outbox events: '' constraint_error []), t)))"

text \<open>The condition under which an owner may finish an event, and the update behind it.\<close>

definition held :: "uuid \<Rightarrow> string \<Rightarrow> outbox_row \<Rightarrow> bool" where
  "held eventID owner r \<longleftrightarrow>
     ob_ID r = eventID \<and> ob_PublishedAt r = None \<and> ob_QuarantinedAt r = None \<and> ob_LockedBy r = Some owner"

definition update_held ::
  "call_env \<Rightarrow> json_rules \<Rightarrow> string \<Rightarrow> string \<Rightarrow> error \<Rightarrow> (outbox_row \<Rightarrow> bool) \<Rightarrow> (outbox_row \<Rightarrow> outbox_row) \<Rightarrow> outbox
    \<Rightarrow> error option \<times> outbox" where
  "update_held env js name msg none P f t =
     (case ob_commit env js name t (update_where P f t) (length (filter P t)) of
        (Inl err, t) \<Rightarrow> (Some (Wrapf msg err []), t)
      | (Inr n, t) \<Rightarrow> (if n \<noteq> 1 then Some none else None, t))"

definition publish_row :: "call_env \<Rightarrow> outbox_row \<Rightarrow> outbox_row" where
  "publish_row env r =
     r\<lparr>ob_PublishedAt := Some (now env), ob_LockedAt := None, ob_LockedBy := None, ob_LastError := None, ob_UpdatedAt := now env\<rparr>"

definition MarkPublished ::
  "call_env \<Rightarrow> json_rules \<Rightarrow> (uuid \<Rightarrow> string) \<Rightarrow> repository \<Rightarrow> uuid \<Rightarrow> string \<Rightarrow> outbox \<Rightarrow> error option \<times> outbox" where
  "MarkPublished env js ustr repo eventID owner t =
     (if repo \<noteq> Some True then (Some not_configured, t)
      else update_held env js ''MarkPublished'' (''mark outbox event '' @ ustr eventID @ '' published: '') ErrClaimLost
             (held eventID owner) (publish_row env) t)"

definition release_row :: "call_env \<Rightarrow> time \<Rightarrow> string \<Rightarrow> outbox_row \<Rightarrow> outbox_row" where
  "release_row env availableAt lastError r =
     r\<lparr>ob_AvailableAt := availableAt, ob_PublishFailures := ob_PublishFailures r + 1, ob_LockedAt := None, ob_LockedBy := None,
       ob_LastError := Some lastError, ob_UpdatedAt := now env\<rparr>"

definition outbox_Release ::
  "call_env \<Rightarrow> json_rules \<Rightarrow> (uuid \<Rightarrow> string) \<Rightarrow> repository \<Rightarrow> uuid \<Rightarrow> string \<Rightarrow> time \<Rightarrow> string \<Rightarrow> outbox \<Rightarrow> error option \<times> outbox" where
  "outbox_Release env js ustr repo eventID owner availableAt lastError t =
     (if repo \<noteq> Some True then (Some not_configured, t)
      else update_held env js ''Release'' (''release outbox event '' @ ustr eventID @ '': '') ErrClaimLost
             (held eventID owner) (release_row env availableAt lastError) t)"

definition quarantine_row :: "call_env \<Rightarrow> string \<Rightarrow> string \<Rightarrow> outbox_row \<Rightarrow> outbox_row" where
  "quarantine_row env cd reason r =
     r\<lparr>ob_QuarantinedAt := Some (now env), ob_QuarantineCode := Some cd, ob_QuarantineReason := Some reason,
       ob_PublishFailures := ob_PublishFailures r + 1, ob_LockedAt := None, ob_LockedBy := None,
       ob_LastError := Some reason, ob_UpdatedAt := now env\<rparr>"

definition Quarantine ::
  "call_env \<Rightarrow> json_rules \<Rightarrow> (uuid \<Rightarrow> string) \<Rightarrow> repository \<Rightarrow> uuid \<Rightarrow> string \<Rightarrow> string \<Rightarrow> string \<Rightarrow> outbox \<Rightarrow> error option \<times> outbox" where
  "Quarantine env js ustr repo eventID owner cd reason t =
     (if repo \<noteq> Some True then (Some not_configured, t)
      else let cd = TrimSpace cd; reason = TrimSpace reason
           in if cd = [] \<or> reason = [] then (Some (Errorf ''outbox quarantine code and reason are required''), t)
              else update_held env js ''Quarantine'' (''quarantine outbox event '' @ ustr eventID @ '': '') ErrClaimLost
                     (held eventID owner) (quarantine_row env cd reason) t)"

definition redrive_row :: "call_env \<Rightarrow> time \<Rightarrow> outbox_row \<Rightarrow> outbox_row" where
  "redrive_row env availableAt r =
     r\<lparr>ob_QuarantinedAt := None, ob_QuarantineCode := None, ob_QuarantineReason := None, ob_AvailableAt := availableAt,
       ob_RedriveCount := ob_RedriveCount r + 1, ob_UpdatedAt := now env\<rparr>"

definition Redrive ::
  "call_env \<Rightarrow> json_rules \<Rightarrow> (uuid \<Rightarrow> string) \<Rightarrow> repository \<Rightarrow> uuid \<Rightarrow> time \<Rightarrow> outbox \<Rightarrow> error option \<times> outbox" where
  "Redrive env js ustr repo eventID availableAt t =
     (if repo \<noteq> Some True then (Some not_configured, t)
      else update_held env js ''Redrive'' (''redrive outbox event '' @ ustr eventID @ '': '') ErrNotQuarantined
             (\<lambda>r. ob_ID r = eventID \<and> ob_PublishedAt r = None \<and> ob_QuarantinedAt r \<noteq> None) (redrive_row env availableAt) t)"

section \<open>Publishing\<close>

text \<open>An error of a publisher: its text, and what its methods say where it has them.\<close>

record publish_error =
  pe_text :: string
  pe_code :: "string option"
  pe_permanent :: bool
  pe_retryable :: bool

datatype publishErrorClass = publishErrorUnknown | publishErrorRetryable | publishErrorPermanent

definition classifyPublishError :: "publish_error option \<Rightarrow> publishErrorClass \<times> string" where
  "classifyPublishError e =
     (case e of
        None \<Rightarrow> (publishErrorUnknown, [])
      | Some err \<Rightarrow>
          let cd = (case pe_code err of Some c \<Rightarrow> if c \<noteq> [] then c else ''unknown'' | None \<Rightarrow> ''unknown'')
          in if pe_permanent err then (publishErrorPermanent, cd)
             else if pe_retryable err then (publishErrorRetryable, cd)
             else (publishErrorUnknown, cd))"

type_synonym 'w publish =
  "string \<Rightarrow> string \<Rightarrow> (string, string) gomap \<Rightarrow> string \<Rightarrow> 'w \<Rightarrow> publish_error option \<times> 'w"

record 'w relay =
  rl_repository :: repository
  rl_publisher :: "'w publish option"
  rl_owner :: string
  rl_batchSize :: int
  rl_lockAge :: int

definition ErrRepositoryUnavailable :: error where
  "ErrRepositoryUnavailable = Sentinel ''outbox repository is not configured''"
definition ErrPublisherUnavailable :: error where
  "ErrPublisherUnavailable = Sentinel ''outbox publisher is not configured''"

definition NewRelay :: "repository \<Rightarrow> 'w publish option \<Rightarrow> string \<Rightarrow> 'w relay" where
  "NewRelay repository publisher owner =
     \<lparr>rl_repository = repository, rl_publisher = publisher, rl_owner = owner, rl_batchSize = 100, rl_lockAge = 60000000\<rparr>"

text \<open>The pause before the next attempt, in microseconds.\<close>

definition retryDelay :: "int \<Rightarrow> int" where
  "retryDelay failures =
     (let failures = (if failures < 0 then 0 else failures);
          failures = (if failures > 10 then 10 else failures)
      in push_bit (nat failures) 1 * 1000000)"

definition event_headers :: "(uuid \<Rightarrow> string) \<Rightarrow> event \<Rightarrow> (string, string) gomap" where
  "event_headers ustr e =
     AList.update ''Shiyao-Aggregate-Id'' (ustr (ev_AggregateID e))
       (AList.update ''Shiyao-Aggregate-Type'' (ev_AggregateType e)
         (AList.update ''Shiyao-Event-Id'' (ustr (ev_ID e)) (ev_Headers e)))"

definition processEvent ::
  "call_env \<Rightarrow> json_rules \<Rightarrow> (uuid \<Rightarrow> string) \<Rightarrow> 'w relay \<Rightarrow> 'w publish \<Rightarrow> event \<Rightarrow> outbox \<times> 'w
    \<Rightarrow> error option \<times> outbox \<times> 'w" where
  "processEvent env js ustr r publish e s =
     (let (t, w) = s;
          (publishErr, w) = publish (ev_Subject e) (the (ev_Payload e)) (event_headers ustr e) (ustr (ev_ID e)) w;
          (err, t) =
            (case publishErr of
               None \<Rightarrow> MarkPublished env js ustr (rl_repository r) (ev_ID e) (rl_owner r) t
             | Some pe \<Rightarrow>
                 let (class, cd) = classifyPublishError publishErr
                 in if class = publishErrorPermanent
                    then Quarantine env js ustr (rl_repository r) (ev_ID e) (rl_owner r) cd (pe_text pe) t
                    else outbox_Release env js ustr (rl_repository r) (ev_ID e) (rl_owner r)
                           (wall env + retryDelay (ev_PublishFailures e)) (pe_text pe) t)
      in (err, t, w))"

text \<open>The loop over the claimed events; the \<open>k\<close>-th one is handled at \<open>envs k\<close>.\<close>

fun processEvents ::
  "(nat \<Rightarrow> call_env) \<Rightarrow> json_rules \<Rightarrow> (uuid \<Rightarrow> string) \<Rightarrow> 'w relay \<Rightarrow> 'w publish \<Rightarrow> nat \<Rightarrow> event list \<Rightarrow> outbox \<times> 'w
    \<Rightarrow> error option \<times> outbox \<times> 'w" where
  "processEvents envs js ustr r publish k [] s = (None, s)"
| "processEvents envs js ustr r publish k (e # es) s =
     (case processEvent (envs k) js ustr r publish e s of
        (Some err, s) \<Rightarrow> (Some err, s)
      | (None, s) \<Rightarrow> processEvents envs js ustr r publish (Suc k) es s)"

definition RunOnce ::
  "(nat \<Rightarrow> call_env) \<Rightarrow> json_rules \<Rightarrow> (uuid \<Rightarrow> string) \<Rightarrow> (uuid \<Rightarrow> bool) \<Rightarrow> 'w relay \<Rightarrow> outbox \<times> 'w
    \<Rightarrow> error option \<times> outbox \<times> 'w" where
  "RunOnce envs js ustr skip r s =
     (if rl_repository r = None then (Some ErrRepositoryUnavailable, s)
      else (case rl_publisher r of
              None \<Rightarrow> (Some ErrPublisherUnavailable, s)
            | Some publish \<Rightarrow>
                let (t, w) = s
                in (case ClaimBatch (envs 0) js skip (rl_repository r) (rl_owner r) (rl_batchSize r)
                           (wall (envs 0) - rl_lockAge r) t of
                      (Inl err, t) \<Rightarrow> (Some err, t, w)
                    | (Inr es, t) \<Rightarrow> processEvents envs js ustr r publish 1 es (t, w))))"

text \<open>What any number of callers can do to the table, one statement at a time.\<close>

inductive outbox_step :: "json_rules \<Rightarrow> outbox \<Rightarrow> outbox \<Rightarrow> bool" for js where
  step_enqueue: "outbox_step js t (snd (enqueue env js ex e t))"
| step_claim: "outbox_step js t (snd (ClaimBatch env js skip repo owner limit stale t))"
| step_published: "outbox_step js t (snd (MarkPublished env js ustr repo i owner t))"
| step_release: "outbox_step js t (snd (outbox_Release env js ustr repo i owner at msg t))"
| step_quarantine: "outbox_step js t (snd (Quarantine env js ustr repo i owner cd reason t))"
| step_redrive: "outbox_step js t (snd (Redrive env js ustr repo i at t))"

text \<open>The same event: what identifies and describes it is unchanged and no counter has gone back.\<close>

definition same_event :: "outbox_row \<Rightarrow> outbox_row \<Rightarrow> bool" where
  "same_event r r' \<longleftrightarrow>
     ob_ID r' = ob_ID r \<and> ob_Subject r' = ob_Subject r \<and> ob_AggregateType r' = ob_AggregateType r
     \<and> ob_AggregateID r' = ob_AggregateID r \<and> ob_Payload r' = ob_Payload r \<and> ob_Headers r' = ob_Headers r
     \<and> ob_CreatedAt r' = ob_CreatedAt r \<and> ob_Attempts r \<le> ob_Attempts r'
     \<and> ob_PublishFailures r \<le> ob_PublishFailures r' \<and> ob_RedriveCount r \<le> ob_RedriveCount r'"

text \<open>The row of \<open>i\<close> is locked by \<open>owner\<close> since \<open>at\<close> and not finished.\<close>

definition lease :: "uuid \<Rightarrow> string \<Rightarrow> time \<Rightarrow> outbox \<Rightarrow> bool" where
  "lease i owner at t \<longleftrightarrow>
     (\<exists>r\<in>set t. held i owner r \<and> ob_LockedAt r = Some at)"

text \<open>What everybody else can do while the lock that \<open>owner\<close> took at \<open>at\<close> is not stale.\<close>

inductive foreign_step :: "json_rules \<Rightarrow> string \<Rightarrow> time \<Rightarrow> outbox \<Rightarrow> outbox \<Rightarrow> bool" for js owner at where
  foreign_enqueue: "foreign_step js owner at t (snd (enqueue env js ex e t))"
| foreign_claim: "stale \<le> at \<Longrightarrow> foreign_step js owner at t (snd (ClaimBatch env js skip repo other limit stale t))"
| foreign_published: "other \<noteq> owner \<Longrightarrow> foreign_step js owner at t (snd (MarkPublished env js ustr repo i other t))"
| foreign_release: "other \<noteq> owner \<Longrightarrow> foreign_step js owner at t (snd (outbox_Release env js ustr repo i other av msg t))"
| foreign_quarantine: "other \<noteq> owner \<Longrightarrow> foreign_step js owner at t (snd (Quarantine env js ustr repo i other cd reason t))"
| foreign_redrive: "foreign_step js owner at t (snd (Redrive env js ustr repo i av t))"

text \<open>What the relay makes of a claimed row.\<close>

definition settled_row :: "(nat \<Rightarrow> call_env) \<Rightarrow> outbox_row \<Rightarrow> outbox_row \<Rightarrow> bool" where
  "settled_row envs r r' \<longleftrightarrow>
     (\<exists>k. r' = publish_row (envs k) r \<or> (\<exists>cd reason. r' = quarantine_row (envs k) cd reason r)
        \<or> (\<exists>msg. r' = release_row (envs k) (wall (envs k) + retryDelay (ob_PublishFailures r)) msg r))"

definition claimed :: "string \<Rightarrow> event list \<Rightarrow> outbox \<Rightarrow> bool" where
  "claimed owner es t \<longleftrightarrow> distinct (map ev_ID es)
     \<and> (\<forall>e\<in>set es. \<exists>r\<in>set t. held (ev_ID e) owner r \<and> ob_PublishFailures r = ev_PublishFailures e)"

text \<open>A permanent failure can be recorded: its code and its text are not blank.\<close>

definition reportable :: "publish_error \<Rightarrow> bool" where
  "reportable pe \<longleftrightarrow> pe_permanent pe \<longrightarrow>
     not_blank (TrimSpace (snd (classifyPublishError (Some pe)))) \<and> not_blank (TrimSpace (pe_text pe))"

definition reports :: "'w publish \<Rightarrow> bool" where
  "reports publish \<longleftrightarrow> (\<forall>s p h m w pe w'. publish s p h m w = (Some pe, w') \<longrightarrow> reportable pe)"

text \<open>
  Producers, operators and relays that share the table and a bus. A relay handles one event at a time,
  so the steps of several relays can be interleaved; the event is one of the table.
\<close>

definition describes :: "outbox \<Rightarrow> event \<Rightarrow> bool" where
  "describes t e \<longleftrightarrow> (\<exists>r\<in>set t. ob_ID r = ev_ID e \<and> ob_Subject r = ev_Subject e \<and> ev_Payload e = Some (ob_Payload r))"

inductive bus_step :: "json_rules \<Rightarrow> (uuid \<Rightarrow> string) \<Rightarrow> 'w publish \<Rightarrow> outbox \<times> 'w \<Rightarrow> outbox \<times> 'w \<Rightarrow> bool"
  for js ustr publish where
  bus_enqueue: "bus_step js ustr publish (t, w) (snd (enqueue env js ex e t), w)"
| bus_claim: "bus_step js ustr publish (t, w) (snd (ClaimBatch env js skip repo owner limit stale t), w)"
| bus_redrive: "bus_step js ustr publish (t, w) (snd (Redrive env js ustr repo i at t), w)"
| bus_process: "describes t e \<Longrightarrow> bus_step js ustr publish (t, w) (snd (processEvent env js ustr rl publish e (t, w)))"

definition all_delivered :: "('w \<Rightarrow> string \<Rightarrow> string \<Rightarrow> string \<Rightarrow> bool) \<Rightarrow> (uuid \<Rightarrow> string) \<Rightarrow> outbox \<Rightarrow> 'w \<Rightarrow> bool" where
  "all_delivered delivered ustr t w \<longleftrightarrow>
     (\<forall>r\<in>set t. ob_PublishedAt r \<noteq> None \<longrightarrow> delivered w (ob_Subject r) (ob_Payload r) (ustr (ob_ID r)))"

text \<open>A table with one event, used to evaluate the definitions.\<close>

definition relay_env :: call_env where
  "relay_env = \<lparr>wall = 100000000, now = 100000000, gen_uuid = 9, rand = (\<lambda>_. Inr []), down = (\<lambda>_. None)\<rparr>"

definition demo_json :: json_rules where
  "demo_json = \<lparr>json_Valid = (\<lambda>s. s \<noteq> []), jsonb = Some, headers_jsonb = Some, has_space = list_ex (\<lambda>c. c = CHR '' '')\<rparr>"

definition demo_row :: outbox_row where
  "demo_row =
     \<lparr>ob_ID = 5, ob_Subject = ''job'', ob_AggregateType = ''sandbox'', ob_AggregateID = 7, ob_Payload = ''{}'', ob_Headers = [],
      ob_AvailableAt = 1, ob_PublishedAt = None, ob_Attempts = 0, ob_PublishFailures = 0, ob_RedriveCount = 0,
      ob_LastError = None, ob_QuarantinedAt = None, ob_QuarantineCode = None, ob_QuarantineReason = None,
      ob_LockedAt = None, ob_LockedBy = None, ob_CreatedAt = 1, ob_UpdatedAt = 1\<rparr>"

definition demo_publish :: "string list publish" where
  "demo_publish s p h m w = (None, w @ [m])"

section \<open>Statements on the table\<close>

named_theorems outbox_ops

lemmas row_ops = claim_row_def publish_row_def release_row_def quarantine_row_def redrive_row_def

lemma ob_commit_cases:
  obtains (refused) err where "ob_commit env js name t t' x = (Inl err, t)"
  | (accepted) "ob_commit env js name t t' x = (Inr x, t')" "outbox_ok js t'" "down env name = None"
  unfolding ob_commit_def by (cases "down env name"; cases "outbox_ok js t'") auto

lemma outbox_unique:
  assumes "outbox_ok js t" "r \<in> set t" "r' \<in> set t" "ob_ID r = ob_ID r'"
  shows "r = r'"
  using assms by (auto simp: outbox_ok_def distinct_map inj_on_def)

lemma enqueue_cases:
  obtains (refused) err where "enqueue env js ex e t = (Inl err, t)"
  | (accepted) payload headers where
      "enqueue env js ex e t = (Inr (ob_ID (outbox_insert env e payload headers)), t @ [outbox_insert env e payload headers])"
      "outbox_ok js (t @ [outbox_insert env e payload headers])"
      "jsonb js (the (ev_Payload e)) = Some payload" "headers_jsonb js (ev_Headers e) = Some headers"
proof -
  have "(\<exists>err. enqueue env js ex e t = (Inl err, t))
    \<or> (\<exists>payload headers. enqueue env js ex e t
          = (Inr (ob_ID (outbox_insert env e payload headers)), t @ [outbox_insert env e payload headers])
        \<and> outbox_ok js (t @ [outbox_insert env e payload headers])
        \<and> jsonb js (the (ev_Payload e)) = Some payload \<and> headers_jsonb js (ev_Headers e) = Some headers)"
    unfolding enqueue_def Let_def ob_commit_def by (simp split: option.split)
  then show ?thesis using refused accepted by blast
qed

lemma ClaimBatch_cases:
  fixes env js skip repo owner limit stale t
  defines "ids \<equiv> candidates env skip (nat limit) stale t"
  defines "t' \<equiv> update_where (\<lambda>r. ob_ID r \<in> set ids) (claim_row env (TrimSpace owner)) t"
  obtains (refused) err where "ClaimBatch env js skip repo owner limit stale t = (Inl err, t)"
  | (accepted) "ClaimBatch env js skip repo owner limit stale t = (Inr (map event_of (filter (\<lambda>r. ob_ID r \<in> set ids) t')), t')"
      "outbox_ok js t'" "repo = Some True" "0 < limit"
  unfolding ClaimBatch_def Let_def t'_def ids_def
  by (cases "repo = Some True"; cases "TrimSpace owner = []"; cases "limit \<le> 0"; cases "stale = zero_time";
      cases "down env ''ClaimBatch''";
      cases "outbox_ok js (update_where (\<lambda>r. ob_ID r \<in> set (candidates env skip (nat limit) stale t)) (claim_row env (TrimSpace owner)) t)";
      simp)

lemma update_held_cases:
  obtains (refused) err where "update_held env js name msg none P f t = (Some err, t)"
  | (accepted) "update_held env js name msg none P f t =
        (if length (filter P t) \<noteq> 1 then Some none else None, update_where P f t)"
      "outbox_ok js (update_where P f t)" "down env name = None"
  unfolding update_held_def
  by (rule ob_commit_cases [of env js name t "update_where P f t" "length (filter P t)"]) auto

lemma candidates_mem:
  "i \<in> set (candidates env skip n stale t) \<Longrightarrow> \<exists>r\<in>set t. ob_ID r = i \<and> claimable env stale r \<and> \<not> skip i"
  unfolding candidates_def by (auto dest!: in_set_takeD)


lemma same_event_refl [simp]: "same_event r r"
  by (simp add: same_event_def)

lemma same_event_trans: "same_event a b \<Longrightarrow> same_event b c \<Longrightarrow> same_event a c"
  by (simp add: same_event_def)

lemma candidates_row:
  assumes "outbox_ok js t" "r \<in> set t" "ob_ID r \<in> set (candidates env skip n stale t)"
  shows "claimable env stale r"
proof -
  obtain r' where r': "r' \<in> set t" "ob_ID r' = ob_ID r" "claimable env stale r'"
    using candidates_mem [OF assms(3)] by blast
  from outbox_unique [OF assms(1,2) r'(1) r'(2) [symmetric]] r'(3) show ?thesis by simp
qed

lemma update_where_row:
  assumes "r \<in> set t" "\<And>x. P x \<Longrightarrow> same_event x (f x)"
  shows "\<exists>r'\<in>set (update_where P f t). same_event r r' \<and> (P r \<or> r' = r)"
  using update_where_in [OF assms(1), of P f] assms(2) [of r] by (cases "P r") auto

lemma update_where_none: "(\<And>r. r \<in> set t \<Longrightarrow> \<not> P r) \<Longrightarrow> update_where P f t = t"
  by (induction t) (simp_all add: update_where_def)

text \<open>Every operation is refused, appends a fresh row, or updates rows that are not published.\<close>

lemma outbox_step_cases:
  assumes "outbox_step js t t'" and ok: "outbox_ok js t"
  obtains (same) "t' = t"
  | (insert) r where "t' = t @ [r]" "outbox_ok js t'" "ob_PublishedAt r = None"
  | (update) P f where "t' = update_where P f t" "outbox_ok js t'"
      "\<And>r. P r \<Longrightarrow> same_event r (f r)" "\<And>r. r \<in> set t \<Longrightarrow> P r \<Longrightarrow> ob_PublishedAt r = None"
proof -
  have held: thesis
    if "t' = t \<or> t' = snd (update_held env js name msg none P f t)" "\<And>r. P r \<Longrightarrow> same_event r (f r)"
      "\<And>r. P r \<Longrightarrow> ob_PublishedAt r = None" for env name msg none P f
  proof (cases rule: update_held_cases [of env js name msg none P f t])
    case (refused err)
    with that(1) show thesis by (intro same) simp
  next
    case accepted
    from that(1) show thesis
    proof
      assume "t' = snd (update_held env js name msg none P f t)"
      then have t': "t' = update_where P f t" using accepted(1) by simp
      show thesis by (rule update [OF t' accepted(2) [folded t']]) (rule that(2), assumption, rule that(3))
    qed (rule same)
  qed
  from assms(1) show thesis
  proof cases
    case (step_enqueue env ex e)
    then show thesis
      by (cases rule: enqueue_cases [of env js ex e t]) (use same insert in \<open>auto simp: outbox_insert_def\<close>)
  next
    case (step_claim env skip repo owner limit stale)
    show thesis
    proof (cases rule: ClaimBatch_cases [of env js skip repo owner limit stale t])
      case (refused err)
      with step_claim show thesis by (intro same) simp
    next
      case accepted
      let ?ids = "candidates env skip (nat limit) stale t"
      have t': "t' = update_where (\<lambda>r. ob_ID r \<in> set ?ids) (claim_row env (TrimSpace owner)) t"
        using step_claim accepted(1) by simp
      show thesis
        by (rule update [OF t' accepted(2) [folded t']])
          (simp add: same_event_def row_ops, use candidates_row [OF ok] in \<open>simp add: claimable_def\<close>)
    qed
  next
    case (step_published env ustr repo i owner)
    then show thesis unfolding MarkPublished_def
      by (intro held [of env "''MarkPublished''" "''mark outbox event '' @ ustr i @ '' published: ''" ErrClaimLost "held i owner" "publish_row env"])
        (auto simp: same_event_def row_ops held_def)
  next
    case (step_release env ustr repo i owner at msg)
    then show thesis unfolding outbox_Release_def
      by (intro held [of env "''Release''" "''release outbox event '' @ ustr i @ '': ''" ErrClaimLost "held i owner" "release_row env at msg"])
        (auto simp: same_event_def row_ops held_def)
  next
    case (step_quarantine env ustr repo i owner cd reason)
    then show thesis unfolding Quarantine_def Let_def
      by (intro held [of env "''Quarantine''" "''quarantine outbox event '' @ ustr i @ '': ''" ErrClaimLost "held i owner"
            "quarantine_row env (TrimSpace cd) (TrimSpace reason)"])
        (auto simp: same_event_def row_ops held_def)
  next
    case (step_redrive env ustr repo i at)
    then show thesis unfolding Redrive_def
      by (intro held [of env "''Redrive''" "''redrive outbox event '' @ ustr i @ '': ''" ErrNotQuarantined
            "\<lambda>r. ob_ID r = i \<and> ob_PublishedAt r = None \<and> ob_QuarantinedAt r \<noteq> None" "redrive_row env at"])
        (auto simp: same_event_def row_ops)
  qed
qed


lemma outbox_steps_keep:
  assumes "(outbox_step js)\<^sup>*\<^sup>* t t'" and "outbox_ok js t"
  shows "outbox_ok js t' \<and> (\<forall>r\<in>set t. \<exists>r'\<in>set t'. same_event r r' \<and> (ob_PublishedAt r \<noteq> None \<longrightarrow> r' = r))"
  using assms
proof (induction rule: rtranclp_induct)
  case base
  then show ?case using same_event_refl by blast
next
  case (step y z)
  then have ok: "outbox_ok js y" by blast
  have one: "outbox_ok js z \<and> (\<forall>r\<in>set y. \<exists>r'\<in>set z. same_event r r' \<and> (ob_PublishedAt r \<noteq> None \<longrightarrow> r' = r))"
  proof (cases rule: outbox_step_cases [OF step(2) ok])
    case 1
    with ok show ?thesis using same_event_refl by blast
  next
    case (2 r)
    then have "set y \<subseteq> set z" by auto
    with 2(2) show ?thesis using same_event_refl by blast
  next
    case (3 P f)
    with update_where_row [of _ y P f] show ?thesis by metis
  qed
  show ?case
  proof (intro conjI ballI)
    fix r assume "r \<in> set t"
    then obtain a where a: "a \<in> set y" "same_event r a" "ob_PublishedAt r \<noteq> None \<longrightarrow> a = r"
      using step.IH [OF step.prems] by blast
    then obtain b where b: "b \<in> set z" "same_event a b" "ob_PublishedAt a \<noteq> None \<longrightarrow> b = a"
      using one by blast
    with a same_event_trans [OF a(2) b(2)] show "\<exists>r'\<in>set z. same_event r r' \<and> (ob_PublishedAt r \<noteq> None \<longrightarrow> r' = r)"
      by blast
  qed (use one in blast)
qed

lemma demo_outbox_ok: "outbox_ok demo_json [demo_row]"
  by (simp add: outbox_ok_def outbox_row_ok_def demo_row_def demo_json_def not_blank_def count_ok_def)

lemma demo_claim:
  assumes "TrimSpace owner = ''relay''"
  shows "ClaimBatch relay_env demo_json (\<lambda>_. False) (Some True) owner 100 40000000 [demo_row]
    = (Inr [event_of (claim_row relay_env ''relay'' demo_row)], [claim_row relay_env ''relay'' demo_row])"
proof -
  have "outbox_ok demo_json [claim_row relay_env ''relay'' demo_row]"
    using demo_outbox_ok by (simp add: outbox_ok_def outbox_row_ok_def row_ops count_ok_def demo_row_def)
  moreover have "candidates relay_env (\<lambda>_. False) 100 40000000 [demo_row] = [5]"
    by (simp add: candidates_def claimable_def demo_row_def relay_env_def)
  moreover have "40000000 \<noteq> zero_time" by (simp add: zero_time_def)
  moreover have "ob_ID demo_row = 5" "ob_ID (claim_row relay_env ''relay'' demo_row) = 5" "down relay_env ''ClaimBatch'' = None"
    by (simp_all add: relay_env_def demo_row_def claim_row_def)
  ultimately show ?thesis
    using assms by (simp add: ClaimBatch_def Let_def ob_commit_def update_where_def)
qed

lemma demo_trim: "TrimSpace ''relay'' = ''relay''" "TrimSpace '' relay'' = ''relay''"
  by (simp_all add: TrimSpace_ascii is_ascii_def trim_both_def is_space_def)

text \<open>
  C13. Whatever any number of producers, relays and operators do, in whatever order and with whatever
  failures, no event is lost or altered: its row keeps its identifier, subject, aggregate, payload and
  headers, its counters never go back, the table keeps all its constraints, and the row of a published
  event never changes again, so it is never claimed a second time.
\<close>

theorem outbox_history:
  assumes "outbox_ok js t" and "(outbox_step js)\<^sup>*\<^sup>* t t'"
  shows "outbox_ok js t' \<and> (\<forall>r\<in>set t. \<exists>r'\<in>set t'. same_event r r' \<and> (ob_PublishedAt r \<noteq> None \<longrightarrow> r' = r))"
  by (rule outbox_steps_keep [OF assms(2,1)])

theorem outbox_history_witness:
  "\<exists>r'\<in>set (snd (ClaimBatch relay_env demo_json (\<lambda>_. False) (Some True) ''relay'' 100 40000000 [demo_row])). same_event demo_row r'"
  using outbox_history [OF demo_outbox_ok r_into_rtranclp [of "outbox_step demo_json",
    OF step_claim [of demo_json "[demo_row]" relay_env "\<lambda>_. False" "Some True" "''relay''" 100 40000000]]]
  by auto

section \<open>Claims\<close>

lemma unique_filter:
  assumes "distinct (map f t)" "r \<in> set t" "P r" "\<And>x. x \<in> set t \<Longrightarrow> P x \<Longrightarrow> f x = f r"
  shows "filter P t = [r]"
  using assms
proof (induction t)
  case (Cons x xs)
  show ?case
  proof (cases "x = r")
    case True
    with Cons.prems have "\<And>y. y \<in> set xs \<Longrightarrow> \<not> P y" by (metis image_eqI list.set_intros(2) list.set_map distinct.simps(2) list.simps(9))
    with True Cons.prems(3) show ?thesis by (simp add: filter_empty_conv)
  next
    case False
    then have r: "r \<in> set xs" using Cons.prems(2) by simp
    then have "f r \<in> f ` set xs" by (rule imageI)
    then have "\<not> P x" using Cons.prems(1) Cons.prems(4) [of x] by auto
    moreover have "filter P xs = [r]"
    proof (rule Cons.IH)
      show "f y = f r" if "y \<in> set xs" "P y" for y using Cons.prems(4) [of y] that by simp
    qed (use r Cons.prems(1,3) in auto)
    ultimately show ?thesis by simp
  qed
qed simp

lemma held_filter:
  assumes "outbox_ok js t" "r \<in> set t" "held i owner r"
  shows "filter (held i owner) t = [r]"
  by (rule unique_filter [of ob_ID t r "held i owner", OF _ assms(2,3)]) (use assms in \<open>simp_all add: outbox_ok_def held_def\<close>)

lemma outbox_ok_update:
  assumes "outbox_ok js t" "\<And>r. r \<in> set t \<Longrightarrow> P r \<Longrightarrow> outbox_row_ok js r \<Longrightarrow> outbox_row_ok js (f r)"
    "\<And>r. P r \<Longrightarrow> ob_ID (f r) = ob_ID r"
  shows "outbox_ok js (update_where P f t)"
proof -
  have "outbox_row_ok js r'" if r': "r' \<in> set (update_where P f t)" for r'
  proof -
    obtain r where "r \<in> set t" "r' = (if P r then f r else r)" using r' by (rule update_where_mem)
    with assms(1) assms(2) [of r] show ?thesis by (simp add: outbox_ok_def list_all_iff)
  qed
  with assms(1) update_where_keeps [of P ob_ID f t, OF assms(3)] show ?thesis
    by (simp add: outbox_ok_def list_all_iff)
qed

lemma lease_update:
  assumes "lease i owner at t" "\<And>r. r \<in> set t \<Longrightarrow> held i owner r \<Longrightarrow> ob_LockedAt r = Some at \<Longrightarrow> \<not> P r"
  shows "lease i owner at (update_where P f t)"
proof -
  obtain r where r: "r \<in> set t" "held i owner r" "ob_LockedAt r = Some at"
    using assms(1) by (auto simp: lease_def)
  from update_where_in [OF r(1), of P f] assms(2) [OF r] r(2,3) show ?thesis by (auto simp: lease_def)
qed

lemma lease_not_claimable:
  assumes "outbox_ok js t" "lease i owner at t" "stale \<le> at"
  shows "i \<notin> set (candidates env skip n stale t)"
proof
  assume i: "i \<in> set (candidates env skip n stale t)"
  obtain r where r: "r \<in> set t" "held i owner r" "ob_LockedAt r = Some at"
    using assms(2) by (auto simp: lease_def)
  with i have "claimable env stale r" by (intro candidates_row [OF assms(1)]) (auto simp: held_def)
  with r(3) assms(3) show False by (simp add: claimable_def)
qed

lemma update_held_lease:
  assumes "lease i owner at t" "\<And>r. r \<in> set t \<Longrightarrow> held i owner r \<Longrightarrow> \<not> P r"
  shows "lease i owner at (snd (update_held env js name msg none P f t))"
  by (cases rule: update_held_cases [of env js name msg none P f t])
    (use assms(1) lease_update [OF assms(1), of P f] assms(2) in simp_all)

lemma foreign_lease:
  assumes "foreign_step js owner at t t'" "outbox_ok js t" "lease i owner at t"
  shows "lease i owner at t'"
  using assms(1)
proof cases
  case (foreign_enqueue env ex e)
  then show ?thesis
    by (cases rule: enqueue_cases [of env js ex e t]) (use assms(3) in \<open>auto simp: lease_def\<close>)
next
  case (foreign_claim stale env skip repo other limit)
  let ?ids = "candidates env skip (nat limit) stale t"
  have "i \<notin> set ?ids" by (rule lease_not_claimable [OF assms(2,3) foreign_claim(2)])
  then have "lease i owner at (update_where (\<lambda>r. ob_ID r \<in> set ?ids) (claim_row env (TrimSpace other)) t)"
    by (intro lease_update [OF assms(3)]) (auto simp: held_def)
  then show ?thesis
    by (cases rule: ClaimBatch_cases [of env js skip repo other limit stale t])
      (use assms(3) foreign_claim(1) in simp_all)
next
  case (foreign_published other env ustr repo j)
  with assms(3) show ?thesis by (auto simp: MarkPublished_def held_def intro!: update_held_lease)
next
  case (foreign_release other env ustr repo j av msg)
  with assms(3) show ?thesis by (auto simp: outbox_Release_def held_def intro!: update_held_lease)
next
  case (foreign_quarantine other env ustr repo j cd reason)
  with assms(3) show ?thesis by (auto simp: Quarantine_def Let_def held_def intro!: update_held_lease)
next
  case (foreign_redrive env ustr repo j av)
  with assms(3) show ?thesis by (auto simp: Redrive_def held_def intro!: update_held_lease)
qed

lemma foreign_outbox_step: "foreign_step js owner at t t' \<Longrightarrow> outbox_step js t t'"
  by (induction rule: foreign_step.induct) (rule outbox_step.intros)+

lemma outbox_step_ok:
  assumes "outbox_step js t t'" "outbox_ok js t"
  shows "outbox_ok js t'"
  using outbox_steps_keep [OF r_into_rtranclp [of "outbox_step js", OF assms(1)] assms(2)] by blast

lemma foreign_steps_lease:
  assumes "(foreign_step js owner at)\<^sup>*\<^sup>* t t'" "outbox_ok js t" "lease i owner at t"
  shows "outbox_ok js t' \<and> lease i owner at t'"
  using assms
proof (induction rule: rtranclp_induct)
  case (step y z)
  then have y: "outbox_ok js y" "lease i owner at y" by blast+
  with outbox_step_ok [OF foreign_outbox_step [OF step(2)]] foreign_lease [OF step(2)] show ?case by blast
qed simp

lemma claim_leases:
  assumes "outbox_ok js t" "ClaimBatch env js skip repo owner limit stale t = (Inr es, t')" "e \<in> set es"
  shows "lease (ev_ID e) (TrimSpace owner) (now env) t'" "outbox_ok js t'"
    "ev_ID e \<in> set (candidates env skip (nat limit) stale t)"
proof -
  let ?ids = "candidates env skip (nat limit) stale t"
  let ?t = "update_where (\<lambda>r. ob_ID r \<in> set ?ids) (claim_row env (TrimSpace owner)) t"
  have t': "t' = ?t" "outbox_ok js ?t" and es: "es = map event_of (filter (\<lambda>r. ob_ID r \<in> set ?ids) ?t)"
    by (cases rule: ClaimBatch_cases [of env js skip repo owner limit stale t]; use assms(2) in simp)+
  from t' show "outbox_ok js t'" by simp
  obtain r where r: "r \<in> set ?t" "ob_ID r \<in> set ?ids" "e = event_of r" using assms(3) es by auto
  then show "ev_ID e \<in> set ?ids" by (simp add: event_of_def)
  obtain x where x: "x \<in> set t" "r = (if ob_ID x \<in> set ?ids then claim_row env (TrimSpace owner) x else x)"
    using r(1) by (rule update_where_mem)
  then have "ob_ID x \<in> set ?ids" using r(2) by (auto simp: row_ops split: if_splits)
  with x candidates_row [OF assms(1) x(1)] r(1,3) t'(1) show "lease (ev_ID e) (TrimSpace owner) (now env) t'"
    unfolding lease_def by (intro bexI [of _ r]) (auto simp: held_def row_ops event_of_def claimable_def)
qed

lemma update_held_ok:
  assumes "outbox_ok js t" "r \<in> set t" "held i owner r" "down env name = None"
    "outbox_row_ok js (f r)" "\<And>x. ob_ID (f x) = ob_ID x"
  shows "update_held env js name msg none (held i owner) f t = (None, update_where (held i owner) f t)"
proof -
  have "filter (held i owner) t = [r]" by (rule held_filter [OF assms(1-3)])
  moreover have "outbox_ok js (update_where (held i owner) f t)"
  proof (rule outbox_ok_update [OF assms(1)])
    show "outbox_row_ok js (f x)" if "x \<in> set t" "held i owner x" for x
      using outbox_unique [OF assms(1) that(1) assms(2)] that(2) assms(3,5) by (simp add: held_def)
  qed (rule assms(6))
  ultimately show ?thesis using assms(4) by (simp add: update_held_def ob_commit_def)
qed

lemma publish_row_ok: "outbox_row_ok js r \<Longrightarrow> held i owner r \<Longrightarrow> outbox_row_ok js (publish_row env r)"
  by (simp add: outbox_row_ok_def held_def row_ops)

lemma release_row_ok:
  "outbox_row_ok js r \<Longrightarrow> ob_PublishFailures r < 2147483647 \<Longrightarrow> outbox_row_ok js (release_row env at msg r)"
  by (simp add: outbox_row_ok_def row_ops count_ok_def)

lemma quarantine_row_ok:
  "outbox_row_ok js r \<Longrightarrow> held i owner r \<Longrightarrow> ob_PublishFailures r < 2147483647 \<Longrightarrow> not_blank cd \<Longrightarrow> not_blank reason
    \<Longrightarrow> outbox_row_ok js (quarantine_row env cd reason r)"
  by (simp add: outbox_row_ok_def held_def row_ops count_ok_def)

lemma outbox_row_in: "outbox_ok js t \<Longrightarrow> r \<in> set t \<Longrightarrow> outbox_row_ok js r"
  by (simp add: outbox_ok_def list_all_iff)

lemma row_ops_ID [simp]:
  "ob_ID (publish_row env r) = ob_ID r" "ob_ID (release_row env at msg r) = ob_ID r"
  "ob_ID (quarantine_row env cd reason r) = ob_ID r" "ob_ID (claim_row env owner r) = ob_ID r"
  by (simp_all add: row_ops)

text \<open>
  C14. A claim is exclusive while its lock is not stale. After an owner has claimed a batch, whatever
  the other callers do, no claim whose stale time is not after the moment of the first one returns an
  event of the batch again, and the owner can still mark each of its events as published.
\<close>

theorem claim_exclusive:
  assumes "outbox_ok js t" and "ClaimBatch env js skip repo owner limit stale t = (Inr es, t1)"
    and "(foreign_step js (TrimSpace owner) (now env))\<^sup>*\<^sup>* t1 t2" and "e \<in> set es"
  shows "(stale' \<le> now env \<longrightarrow> ClaimBatch env' js skip' repo' other limit' stale' t2 = (Inr es', t3)
            \<longrightarrow> ev_ID e \<notin> ev_ID ` set es')
    \<and> (down env' ''MarkPublished'' = None
            \<longrightarrow> fst (MarkPublished env' js ustr (Some True) (ev_ID e) (TrimSpace owner) t2) = None)"
proof -
  note l1 = claim_leases [OF assms(1,2,4)]
  have l2: "outbox_ok js t2" "lease (ev_ID e) (TrimSpace owner) (now env) t2"
    using foreign_steps_lease [OF assms(3) l1(2,1)] by blast+
  have "ev_ID e \<notin> ev_ID ` set es'"
    if "stale' \<le> now env" "ClaimBatch env' js skip' repo' other limit' stale' t2 = (Inr es', t3)"
    using claim_leases(3) [OF l2(1) that(2)] lease_not_claimable [OF l2 that(1)] by fastforce
  moreover obtain r where r: "r \<in> set t2" "held (ev_ID e) (TrimSpace owner) r" using l2(2) by (auto simp: lease_def)
  then have "fst (MarkPublished env' js ustr (Some True) (ev_ID e) (TrimSpace owner) t2) = None"
    if "down env' ''MarkPublished'' = None"
    using update_held_ok [OF l2(1) r that, of "publish_row env'"] publish_row_ok [OF outbox_row_in [OF l2(1) r(1)] r(2)]
    by (simp add: MarkPublished_def)
  ultimately show ?thesis by blast
qed

theorem claim_exclusive_witness:
  "fst (MarkPublished relay_env demo_json (\<lambda>_. ''id'') (Some True) 5 ''relay'' [claim_row relay_env ''relay'' demo_row]) = None"
  using claim_exclusive [OF demo_outbox_ok demo_claim [OF demo_trim(1)] rtranclp.rtrancl_refl,
    of "event_of (claim_row relay_env ''relay'' demo_row)" _ relay_env]
  by (simp add: demo_trim event_of_def claim_row_def demo_row_def relay_env_def)

section \<open>The relay\<close>

lemma update_held_None:
  assumes "update_held env js name msg none P f t = (None, t')"
  shows "t' = update_where P f t \<and> outbox_ok js t'"
  by (cases rule: update_held_cases [of env js name msg none P f t]) (use assms in \<open>auto split: if_splits\<close>)

lemma MarkPublished_None:
  "MarkPublished env js ustr repo i owner t = (None, t') \<Longrightarrow> t' = update_where (held i owner) (publish_row env) t \<and> outbox_ok js t'"
  unfolding MarkPublished_def by (rule update_held_None) (simp split: if_splits)

lemma Release_None:
  "outbox_Release env js ustr repo i owner at msg t = (None, t')
    \<Longrightarrow> t' = update_where (held i owner) (release_row env at msg) t \<and> outbox_ok js t'"
  unfolding outbox_Release_def by (rule update_held_None) (simp split: if_splits)

lemma Quarantine_None:
  "Quarantine env js ustr repo i owner cd reason t = (None, t')
    \<Longrightarrow> t' = update_where (held i owner) (quarantine_row env (TrimSpace cd) (TrimSpace reason)) t \<and> outbox_ok js t'"
  unfolding Quarantine_def Let_def by (rule update_held_None) (simp split: if_splits)

text \<open>What handling one event comes to, for each answer of the publisher.\<close>

lemma processEvent_ack:
  assumes "publish (ev_Subject e) (the (ev_Payload e)) (event_headers ustr e) (ustr (ev_ID e)) w = (None, w1)"
  shows "processEvent env js ustr rl publish e (t, w) =
    (let (err, t') = MarkPublished env js ustr (rl_repository rl) (ev_ID e) (rl_owner rl) t in (err, t', w1))"
  using assms by (simp add: processEvent_def)

lemma processEvent_permanent:
  assumes "publish (ev_Subject e) (the (ev_Payload e)) (event_headers ustr e) (ustr (ev_ID e)) w = (Some pe, w1)" "pe_permanent pe"
  shows "processEvent env js ustr rl publish e (t, w) =
    (let (err, t') = Quarantine env js ustr (rl_repository rl) (ev_ID e) (rl_owner rl)
           (snd (classifyPublishError (Some pe))) (pe_text pe) t in (err, t', w1))"
  using assms by (simp add: processEvent_def classifyPublishError_def Let_def)

lemma processEvent_retry:
  assumes "publish (ev_Subject e) (the (ev_Payload e)) (event_headers ustr e) (ustr (ev_ID e)) w = (Some pe, w1)" "\<not> pe_permanent pe"
  shows "processEvent env js ustr rl publish e (t, w) =
    (let (err, t') = outbox_Release env js ustr (rl_repository rl) (ev_ID e) (rl_owner rl)
           (wall env + retryDelay (ev_PublishFailures e)) (pe_text pe) t in (err, t', w1))"
  using assms by (simp add: processEvent_def classifyPublishError_def Let_def)

lemma processEvent_form:
  assumes "processEvent env js ustr rl publish e (t, w) = (None, t', w')"
  obtains f where "t' = update_where (held (ev_ID e) (rl_owner rl)) f t" "outbox_ok js t'"
    "f = publish_row env \<and> (\<exists>h. publish (ev_Subject e) (the (ev_Payload e)) h (ustr (ev_ID e)) w = (None, w'))
     \<or> (\<exists>cd reason. f = quarantine_row env cd reason)
     \<or> (\<exists>msg. f = release_row env (wall env + retryDelay (ev_PublishFailures e)) msg)"
proof (cases "publish (ev_Subject e) (the (ev_Payload e)) (event_headers ustr e) (ustr (ev_ID e)) w")
  case (Pair pe w1)
  show ?thesis
  proof (cases pe)
    case None
    note ack = Pair [unfolded None]
    have "MarkPublished env js ustr (rl_repository rl) (ev_ID e) (rl_owner rl) t = (None, t')" "w1 = w'"
      using assms unfolding processEvent_ack [of publish e ustr w w1, OF ack] by (simp_all split: prod.splits)
    with MarkPublished_None [OF this(1)] ack show ?thesis by (intro that [of "publish_row env"]) blast+
  next
    case (Some x)
    show ?thesis
    proof (cases "pe_permanent x")
      case True
      have "Quarantine env js ustr (rl_repository rl) (ev_ID e) (rl_owner rl) (snd (classifyPublishError (Some x))) (pe_text x) t
          = (None, t')"
        using assms unfolding processEvent_permanent [of publish e ustr w x w1, OF Pair [unfolded Some] True] by (simp split: prod.splits)
      from Quarantine_None [OF this] show ?thesis by (intro that) blast+
    next
      case False
      have "outbox_Release env js ustr (rl_repository rl) (ev_ID e) (rl_owner rl)
          (wall env + retryDelay (ev_PublishFailures e)) (pe_text x) t = (None, t')"
        using assms unfolding processEvent_retry [of publish e ustr w x w1, OF Pair [unfolded Some] False] by (simp split: prod.splits)
      from Release_None [OF this] show ?thesis by (intro that) blast+
    qed
  qed
qed

lemma claimed_Cons:
  assumes "claimed owner (e # es) t"
  obtains r where "r \<in> set t" "held (ev_ID e) owner r" "ob_PublishFailures r = ev_PublishFailures e"
    "claimed owner es (update_where (held (ev_ID e) owner) f t)"
proof -
  obtain r where r: "r \<in> set t" "held (ev_ID e) owner r" "ob_PublishFailures r = ev_PublishFailures e"
    using assms by (auto simp: claimed_def)
  have "\<exists>x'\<in>set (update_where (held (ev_ID e) owner) f t). held (ev_ID d) owner x' \<and> ob_PublishFailures x' = ev_PublishFailures d"
    if d: "d \<in> set es" for d
  proof -
    obtain x where x: "x \<in> set t" "held (ev_ID d) owner x" "ob_PublishFailures x = ev_PublishFailures d"
      using assms d unfolding claimed_def by (meson list.set_intros(2))
    have "ev_ID e \<notin> ev_ID ` set es" using assms by (simp add: claimed_def)
    then have "ev_ID d \<noteq> ev_ID e" using imageI [OF d, of ev_ID] by metis
    then have "\<not> held (ev_ID e) owner x" using x(2) by (simp add: held_def)
    with update_where_in [OF x(1), of "held (ev_ID e) owner" f] x show ?thesis by auto
  qed
  with assms have "claimed owner es (update_where (held (ev_ID e) owner) f t)" by (simp add: claimed_def)
  with r show ?thesis by (rule that)
qed

lemma processEvents_settle:
  assumes "processEvents envs js ustr rl publish k es (t, w) = (None, t', w')" "outbox_ok js t" "claimed (rl_owner rl) es t"
  shows "outbox_ok js t' \<and> map ob_ID t' = map ob_ID t
    \<and> (\<forall>x\<in>set t. \<exists>x'\<in>set t'. if ob_ID x \<in> ev_ID ` set es then settled_row envs x x' else x' = x)"
  using assms
proof (induction es arbitrary: k t w)
  case (Cons e es)
  obtain t1 w1 where e: "processEvent (envs k) js ustr rl publish e (t, w) = (None, t1, w1)"
      and es: "processEvents envs js ustr rl publish (Suc k) es (t1, w1) = (None, t', w')"
    using Cons.prems(1) by (cases "processEvent (envs k) js ustr rl publish e (t, w)") (auto split: option.splits)
  let ?H = "held (ev_ID e) (rl_owner rl)"
  obtain f where f: "t1 = update_where ?H f t" "outbox_ok js t1"
    and "f = publish_row (envs k) \<and> (\<exists>h. publish (ev_Subject e) (the (ev_Payload e)) h (ustr (ev_ID e)) w = (None, w1))
      \<or> (\<exists>cd reason. f = quarantine_row (envs k) cd reason)
      \<or> (\<exists>msg. f = release_row (envs k) (wall (envs k) + retryDelay (ev_PublishFailures e)) msg)"
    using e by (rule processEvent_form)
  then have f3: "f = publish_row (envs k) \<or> (\<exists>cd reason. f = quarantine_row (envs k) cd reason)
      \<or> (\<exists>msg. f = release_row (envs k) (wall (envs k) + retryDelay (ev_PublishFailures e)) msg)" by auto
  obtain r where r: "r \<in> set t" "?H r" "ob_PublishFailures r = ev_PublishFailures e" "claimed (rl_owner rl) es t1"
    unfolding f(1) using Cons.prems(3) by (rule claimed_Cons)
  have ids: "map ob_ID t1 = map ob_ID t"
    unfolding f(1) by (rule update_where_keeps) (use f3 in auto)
  have IH: "outbox_ok js t'" "map ob_ID t' = map ob_ID t1"
    "\<And>x. x \<in> set t1 \<Longrightarrow> \<exists>x'\<in>set t'. if ob_ID x \<in> ev_ID ` set es then settled_row envs x x' else x' = x"
    using Cons.IH [OF es f(2) r(4)] by blast+
  have "\<exists>x'\<in>set t'. if ob_ID x \<in> ev_ID ` set (e # es) then settled_row envs x x' else x' = x" if x: "x \<in> set t" for x
  proof (cases "ob_ID x = ev_ID e")
    case True
    with r have xr: "x = r" by (intro outbox_unique [OF Cons.prems(2) x]) (auto simp: held_def)
    have "ob_ID (f r) = ob_ID r" using f3 by auto
    moreover have "ev_ID e \<notin> ev_ID ` set es" using Cons.prems(3) by (simp add: claimed_def)
    moreover have "f r \<in> set t1" using update_where_in [OF r(1), of ?H f] r(2) f(1) by simp
    ultimately have "f r \<in> set t'" using IH(3) [of "f r"] True xr by auto
    moreover have "settled_row envs r (f r)" using f3 r(3) by (auto simp: settled_row_def)
    ultimately show ?thesis using True xr by auto
  next
    case False
    then have "x \<in> set t1" using update_where_in [OF x, of ?H f] f(1) by (simp add: held_def)
    from IH(3) [OF this] False show ?thesis by auto
  qed
  with IH(1,2) ids show ?case by auto
qed auto

lemma event_of_ID [simp]: "ev_ID (event_of r) = ob_ID r"
  by (simp add: event_of_def)

lemma claim_claimed:
  assumes "outbox_ok js t" "ClaimBatch env js skip repo owner limit stale t = (Inr es, t')"
  shows "claimed (TrimSpace owner) es t'" "outbox_ok js t'"
    "t' = update_where (\<lambda>r. ob_ID r \<in> set (candidates env skip (nat limit) stale t)) (claim_row env (TrimSpace owner)) t"
    "es = map event_of (filter (\<lambda>r. ob_ID r \<in> set (candidates env skip (nat limit) stale t)) t')"
proof -
  let ?ids = "candidates env skip (nat limit) stale t"
  let ?t = "update_where (\<lambda>r. ob_ID r \<in> set ?ids) (claim_row env (TrimSpace owner)) t"
  show t': "t' = ?t" and "outbox_ok js t'" and es: "es = map event_of (filter (\<lambda>r. ob_ID r \<in> set ?ids) t')"
    by (cases rule: ClaimBatch_cases [of env js skip repo owner limit stale t]; use assms(2) in simp)+
  have "map ev_ID es = map ob_ID (filter (\<lambda>r. ob_ID r \<in> set ?ids) t')" by (simp add: es event_of_def)
  then have "distinct (map ev_ID es)" using \<open>outbox_ok js t'\<close> by (simp add: outbox_ok_def distinct_map_filter)
  moreover have "\<exists>r\<in>set t'. held (ev_ID e) (TrimSpace owner) r \<and> ob_PublishFailures r = ev_PublishFailures e" if e: "e \<in> set es" for e
  proof -
    obtain r where r: "r \<in> set t'" "e = event_of r" using e es by auto
    obtain r2 where r2: "r2 \<in> set t'" "held (ev_ID e) (TrimSpace owner) r2"
      using claim_leases(1) [OF assms e] by (auto simp: lease_def)
    have "r2 = r" by (rule outbox_unique [OF \<open>outbox_ok js t'\<close> r2(1) r(1)]) (use r(2) r2(2) in \<open>simp add: held_def event_of_def\<close>)
    with r2 r(2) show ?thesis by (auto simp: event_of_def)
  qed
  ultimately show "claimed (TrimSpace owner) es t'" by (simp add: claimed_def)
qed

lemma claimed_IDs:
  assumes "outbox_ok js t" "ClaimBatch env js skip repo owner limit stale t = (Inr es, t')"
  shows "ev_ID ` set es = set (candidates env skip (nat limit) stale t)"
proof -
  let ?ids = "candidates env skip (nat limit) stale t"
  have "map ob_ID t' = map ob_ID t"
    by (subst claim_claimed(3) [OF assms], rule update_where_keeps, simp)
  then have "ob_ID ` set t' = ob_ID ` set t" by (metis list.set_map)
  moreover have "set ?ids \<subseteq> ob_ID ` set t"
  proof
    fix i assume "i \<in> set ?ids"
    from candidates_mem [OF this] show "i \<in> ob_ID ` set t" by blast
  qed
  moreover have "ev_ID ` set es = ob_ID ` set t' \<inter> set ?ids"
    by (subst claim_claimed(4) [OF assms]) (auto simp: image_image)
  ultimately show ?thesis by (simp only: Int_absorb1)
qed

lemma RunOnce_claim:
  assumes "RunOnce envs js ustr skip rl (t, w) = (None, t', w')"
  obtains publish es t1 where "rl_publisher rl = Some publish"
    "ClaimBatch (envs 0) js skip (rl_repository rl) (rl_owner rl) (rl_batchSize rl) (wall (envs 0) - rl_lockAge rl) t = (Inr es, t1)"
    "processEvents envs js ustr rl publish 1 es (t1, w) = (None, t', w')"
  using assms unfolding RunOnce_def by (auto split: if_splits option.splits prod.splits sum.splits)


lemma demo_mark:
  "MarkPublished relay_env demo_json (\<lambda>_. ''id'') (Some True) 5 ''relay'' [claim_row relay_env ''relay'' demo_row]
    = (None, [publish_row relay_env (claim_row relay_env ''relay'' demo_row)])"
proof -
  let ?r = "claim_row relay_env ''relay'' demo_row"
  have r: "held 5 ''relay'' ?r" by (simp add: held_def claim_row_def demo_row_def)
  have "outbox_ok demo_json [?r]" using claim_claimed(2) [OF demo_outbox_ok demo_claim [OF demo_trim(1)]] .
  then show ?thesis
    using update_held_ok [OF _ _ r, of demo_json "[?r]" relay_env "''MarkPublished''" "publish_row relay_env"]
      publish_row_ok [OF outbox_row_in r, of demo_json "[?r]"] r
    by (simp add: MarkPublished_def relay_env_def update_where_def)
qed

lemma demo_RunOnce:
  "RunOnce (\<lambda>_. relay_env) demo_json (\<lambda>_. ''id'') (\<lambda>_. False) (NewRelay (Some True) (Some demo_publish) ''relay'') ([demo_row], [])
    = (None, [publish_row relay_env (claim_row relay_env ''relay'' demo_row)], [''id''])"
proof -
  have "wall relay_env - 60000000 = 40000000" "ob_ID demo_row = 5" by (simp_all add: relay_env_def demo_row_def)
  then show ?thesis
    using demo_claim [OF demo_trim(1)] demo_mark by (simp add: RunOnce_def NewRelay_def processEvent_def demo_publish_def)
qed


lemma not_blank_Nil [simp]: "\<not> not_blank []"
  by (simp add: not_blank_def)

lemma claim_row_ok:
  "outbox_row_ok js r \<Longrightarrow> ob_Attempts r < 2147483647 \<Longrightarrow> outbox_row_ok js (claim_row env owner r)"
  by (simp add: outbox_row_ok_def row_ops count_ok_def)

lemma processEvent_completes:
  assumes "outbox_ok js t" "r \<in> set t" "held (ev_ID e) (rl_owner rl) r" "ob_PublishFailures r < 2147483647"
    "rl_repository rl = Some True" "down env = (\<lambda>_. None)"
    and rep: "reports publish"
  shows "\<exists>t' w'. processEvent env js ustr rl publish e (t, w) = (None, t', w')"
proof (cases "publish (ev_Subject e) (the (ev_Payload e)) (event_headers ustr e) (ustr (ev_ID e)) w")
  case (Pair pe w1)
  have row: "outbox_row_ok js r" by (rule outbox_row_in [OF assms(1,2)])
  have d: "down env name = None" for name using assms(6) by simp
  note upd = update_held_ok [OF assms(1-3) d]
  show ?thesis
  proof (cases pe)
    case None
    show ?thesis
      unfolding processEvent_ack [of publish e ustr w w1, OF Pair [unfolded None]] MarkPublished_def
      using upd [of "publish_row env"] publish_row_ok [OF row assms(3)] assms(5) by simp
  next
    case (Some x)
    show ?thesis
    proof (cases "pe_permanent x")
      case True
      let ?cd = "TrimSpace (snd (classifyPublishError (Some x)))" and ?reason = "TrimSpace (pe_text x)"
      have "reportable x" using rep Pair [unfolded Some] unfolding reports_def by blast
      then have nb: "not_blank ?cd" "not_blank ?reason" using True by (simp_all add: reportable_def)
      then have "?cd \<noteq> []" "?reason \<noteq> []" by auto
      then show ?thesis
        unfolding processEvent_permanent [of publish e ustr w x w1, OF Pair [unfolded Some] True] Quarantine_def
        using upd [of "quarantine_row env ?cd ?reason"] quarantine_row_ok [OF row assms(3,4) nb] assms(5) by simp
    next
      case False
      show ?thesis
        unfolding processEvent_retry [of publish e ustr w x w1, OF Pair [unfolded Some] False] outbox_Release_def
        using upd [of "release_row env (wall env + retryDelay (ev_PublishFailures e)) (pe_text x)"]
          release_row_ok [OF row assms(4)] assms(5) by simp
    qed
  qed
qed

lemma processEvents_complete:
  assumes "outbox_ok js t" "claimed (rl_owner rl) es t" "\<And>e. e \<in> set es \<Longrightarrow> ev_PublishFailures e < 2147483647"
    "rl_repository rl = Some True" "\<And>k. down (envs k) = (\<lambda>_. None)"
    and rep: "reports publish"
  shows "\<exists>t' w'. processEvents envs js ustr rl publish k es (t, w) = (None, t', w')"
  using assms(1-3)
proof (induction es arbitrary: k t w)
  case (Cons e es)
  obtain r where r: "r \<in> set t" "held (ev_ID e) (rl_owner rl) r" "ob_PublishFailures r = ev_PublishFailures e"
    using Cons.prems(2) by (rule claimed_Cons)
  have "ob_PublishFailures r < 2147483647" using Cons.prems(3) [of e] r(3) by simp
  then obtain t1 w1 where e: "processEvent (envs k) js ustr rl publish e (t, w) = (None, t1, w1)"
    using processEvent_completes [where publish = publish, OF Cons.prems(1) r(1,2) _ assms(4,5) rep] by blast
  obtain f where f: "t1 = update_where (held (ev_ID e) (rl_owner rl)) f t" "outbox_ok js t1"
    using e by (rule processEvent_form)
  have "claimed (rl_owner rl) es t1" unfolding f(1) using Cons.prems(2) by (rule claimed_Cons)
  then obtain t' w' where "processEvents envs js ustr rl publish (Suc k) es (t1, w1) = (None, t', w')"
    using Cons.IH [OF f(2)] Cons.prems(3) by (meson list.set_intros(2))
  with e show ?case by simp
qed simp

text \<open>A run ends without an error when the database answers and every failure can be recorded.\<close>

lemma relay_ends:
  assumes "outbox_ok js t" and "TrimSpace owner = owner" and "owner \<noteq> []" and "\<And>k. down (envs k) = (\<lambda>_. None)"
    and "wall (envs 0) - 60000000 \<noteq> zero_time"
    and "\<And>r. r \<in> set t \<Longrightarrow> ob_Attempts r < 2147483647 \<and> ob_PublishFailures r < 2147483647"
    and "reports publish"
  shows "fst (RunOnce envs js ustr skip (NewRelay (Some True) (Some publish) owner) (t, w)) = None"
proof -
  let ?rl = "NewRelay (Some True) (Some publish) owner"
  let ?stale = "wall (envs 0) - 60000000"
  let ?ids = "candidates (envs 0) skip (nat 100) ?stale t"
  let ?t = "update_where (\<lambda>r. ob_ID r \<in> set ?ids) (claim_row (envs 0) owner) t"
  let ?es = "map event_of (filter (\<lambda>r. ob_ID r \<in> set ?ids) ?t)"
  have "outbox_ok js ?t" by (rule outbox_ok_update [OF assms(1)]) (use claim_row_ok assms(6) in simp_all)
  then have c: "ClaimBatch (envs 0) js skip (Some True) owner 100 ?stale t = (Inr ?es, ?t)"
    using assms(2-5) by (simp add: ClaimBatch_def ob_commit_def Let_def)
  have room: "ev_PublishFailures e < 2147483647" if e: "e \<in> set ?es" for e
  proof -
    obtain r where r: "r \<in> set ?t" "e = event_of r" using e by auto
    then obtain x where "x \<in> set t" "r = (if ob_ID x \<in> set ?ids then claim_row (envs 0) owner x else x)"
      by (auto elim: update_where_mem)
    with assms(6) [of x] r(2) show ?thesis by (simp add: event_of_def row_ops)
  qed
  have cl: "claimed (rl_owner ?rl) ?es ?t"
    using claim_claimed(1) [OF assms(1) c] assms(2) by (simp add: NewRelay_def)
  have repo: "rl_repository ?rl = Some True" by (simp add: NewRelay_def)
  obtain t' w' where "processEvents envs js ustr ?rl publish 1 ?es (?t, w) = (None, t', w')"
    using processEvents_complete [where envs = envs and publish = publish, OF \<open>outbox_ok js ?t\<close> cl room repo assms(4,7)]
    by blast
  with c show ?thesis by (simp add: RunOnce_def NewRelay_def)
qed

text \<open>
  An owner with surrounding white space can claim events but never finish them, because only
  \<open>ClaimBatch\<close> trims the name: the relay has its first event accepted by the publisher, loses the claim, stops,
  and leaves the whole batch locked and unpublished, to be published again once the locks are stale.
\<close>

theorem untrimmed_owner_loses:
  assumes "outbox_ok js t" and "TrimSpace owner \<noteq> owner"
    and "ClaimBatch (envs 0) js skip (Some True) owner 100 (wall (envs 0) - 60000000) t = (Inr (e # es), t1)"
    and "publish (ev_Subject e) (the (ev_Payload e)) (event_headers ustr e) (ustr (ev_ID e)) w = (None, w1)"
    and "down (envs 1) ''MarkPublished'' = None"
  shows "RunOnce envs js ustr skip (NewRelay (Some True) (Some publish) owner) (t, w) = (Some ErrClaimLost, t1, w1)
    \<and> lease (ev_ID e) (TrimSpace owner) (now (envs 0)) t1"
proof -
  note l = claim_leases [OF assms(1,3), of e, simplified]
  obtain r where r: "r \<in> set t1" "held (ev_ID e) (TrimSpace owner) r" using l(1) by (auto simp: lease_def)
  have none: "\<not> held (ev_ID e) owner x" if "x \<in> set t1" for x
    using outbox_unique [OF l(2) that r(1)] r(2) assms(2) by (auto simp: held_def)
  have "MarkPublished (envs 1) js ustr (Some True) (ev_ID e) owner t1 = (Some ErrClaimLost, t1)"
    using update_where_none [of t1 "held (ev_ID e) owner" "publish_row (envs 1)"] none l(2) assms(5)
      filter_False [of t1 "held (ev_ID e) owner"]
    by (simp add: MarkPublished_def update_held_def ob_commit_def)
  then have "processEvent (envs 1) js ustr (NewRelay (Some True) (Some publish) owner) publish e (t1, w) = (Some ErrClaimLost, t1, w1)"
    unfolding processEvent_ack [of publish e ustr w w1, OF assms(4)] by (simp add: NewRelay_def)
  with assms(3) l(1) show ?thesis by (simp add: RunOnce_def NewRelay_def)
qed

theorem untrimmed_owner_loses_witness:
  "fst (RunOnce (\<lambda>_. relay_env) demo_json (\<lambda>_. ''id'') (\<lambda>_. False) (NewRelay (Some True) (Some demo_publish) '' relay'') ([demo_row], []))
    = Some ErrClaimLost"
proof -
  have "wall relay_env - 60000000 = 40000000" "down relay_env ''MarkPublished'' = None" by (simp_all add: relay_env_def)
  with untrimmed_owner_loses [of demo_json "[demo_row]" "'' relay''" "\<lambda>_. relay_env" "\<lambda>_. False"
      "event_of (claim_row relay_env ''relay'' demo_row)" "[]" "[claim_row relay_env ''relay'' demo_row]" demo_publish "\<lambda>_. ''id''" "[]" "[''id'']"]
    demo_outbox_ok demo_claim [OF demo_trim(2)] demo_trim(2)
  show ?thesis by (simp add: demo_publish_def)
qed

lemma retryDelay_bounds:
  "1000000 \<le> retryDelay n" "retryDelay n \<le> 1024000000" "m \<le> n \<Longrightarrow> retryDelay m \<le> retryDelay n"
proof -
  have e: "retryDelay n = 2 ^ nat (max 0 (min 10 n)) * 1000000" for n
    by (simp add: retryDelay_def Let_def push_bit_eq_mult)
  show "1000000 \<le> retryDelay n" by (simp add: e)
  have "(2::int) ^ nat (max 0 (min 10 n)) \<le> 2 ^ 10" by (rule power_increasing) simp_all
  then show "retryDelay n \<le> 1024000000" by (simp add: e)
  show "retryDelay m \<le> retryDelay n" if "m \<le> n"
    unfolding e by (intro mult_right_mono power_increasing) (use that in auto)
qed

section \<open>The publisher\<close>

lemma unpublished_update:
  assumes "r' \<in> set (update_where P f t)" "ob_PublishedAt r' \<noteq> None"
    "\<And>r. r \<in> set t \<Longrightarrow> P r \<Longrightarrow> ob_PublishedAt (f r) = None"
  shows "r' \<in> set t"
proof -
  obtain r where "r \<in> set t" "r' = (if P r then f r else r)" using assms(1) by (rule update_where_mem)
  with assms(2) assms(3) [of r] show ?thesis by (cases "P r") auto
qed

lemma update_held_published:
  assumes "r' \<in> set (snd (update_held env js name msg none P f t))" "ob_PublishedAt r' \<noteq> None"
    "\<And>r. P r \<Longrightarrow> ob_PublishedAt (f r) = None"
  shows "r' \<in> set t"
  by (cases rule: update_held_cases [of env js name msg none P f t])
    (use assms(1) unpublished_update [OF _ assms(2), of P f t] assms(3) in simp_all)

text \<open>Handling an event publishes at most its own row, and only if the publisher has acknowledged it.\<close>

lemma processEvent_published:
  assumes "processEvent env js ustr rl publish e (t, w) = (err, t', w')" "r' \<in> set t'" "ob_PublishedAt r' \<noteq> None"
  shows "r' \<in> set t
    \<or> ob_ID r' = ev_ID e
      \<and> publish (ev_Subject e) (the (ev_Payload e)) (event_headers ustr e) (ustr (ev_ID e)) w = (None, w')"
proof (cases "publish (ev_Subject e) (the (ev_Payload e)) (event_headers ustr e) (ustr (ev_ID e)) w")
  case (Pair pe w1)
  show ?thesis
  proof (cases pe)
    case None
    note ack = Pair [unfolded None]
    have m: "t' = snd (MarkPublished env js ustr (rl_repository rl) (ev_ID e) (rl_owner rl) t)" "w1 = w'"
      using assms(1) unfolding processEvent_ack [of publish e ustr w w1, OF ack] by (simp_all split: prod.splits)
    let ?H = "held (ev_ID e) (rl_owner rl)"
    have "r' \<in> set t \<or> r' \<in> set (update_where ?H (publish_row env) t)"
      using assms(2) unfolding m(1) MarkPublished_def
      by (cases rule: update_held_cases [of env js "''MarkPublished''" "''mark outbox event '' @ ustr (ev_ID e) @ '' published: ''"
            ErrClaimLost ?H "publish_row env" t]) (auto split: if_splits)
    then have "r' \<in> set t \<or> ob_ID r' = ev_ID e" by (auto simp: held_def elim!: update_where_mem)
    with ack m(2) show ?thesis by blast
  next
    case (Some x)
    have "r' \<in> set t"
    proof (cases "pe_permanent x")
      case True
      with assms Pair Some have "r' \<in> set (snd (Quarantine env js ustr (rl_repository rl) (ev_ID e) (rl_owner rl)
          (snd (classifyPublishError (Some x))) (pe_text x) t))"
        by (simp add: processEvent_permanent split: prod.splits)
      then show ?thesis using assms(3)
        by (auto simp: Quarantine_def Let_def row_ops held_def split: if_splits dest!: update_held_published)
    next
      case False
      with assms Pair Some have "r' \<in> set (snd (outbox_Release env js ustr (rl_repository rl) (ev_ID e) (rl_owner rl)
          (wall env + retryDelay (ev_PublishFailures e)) (pe_text x) t))"
        by (simp add: processEvent_retry split: prod.splits)
      then show ?thesis using assms(3)
        by (auto simp: outbox_Release_def row_ops held_def split: if_splits dest!: update_held_published)
    qed
    then show ?thesis ..
  qed
qed

lemma processEvent_step: "outbox_step js t (fst (snd (processEvent env js ustr rl publish e (t, w))))"
proof (cases "publish (ev_Subject e) (the (ev_Payload e)) (event_headers ustr e) (ustr (ev_ID e)) w")
  case (Pair pe w1)
  show ?thesis
  proof (cases pe)
    case None
    with Pair have "fst (snd (processEvent env js ustr rl publish e (t, w)))
        = snd (MarkPublished env js ustr (rl_repository rl) (ev_ID e) (rl_owner rl) t)"
      by (simp add: processEvent_ack split: prod.splits)
    then show ?thesis by (simp only: step_published)
  next
    case (Some x)
    with Pair have "fst (snd (processEvent env js ustr rl publish e (t, w)))
        = (if pe_permanent x
           then snd (Quarantine env js ustr (rl_repository rl) (ev_ID e) (rl_owner rl) (snd (classifyPublishError (Some x))) (pe_text x) t)
           else snd (outbox_Release env js ustr (rl_repository rl) (ev_ID e) (rl_owner rl)
             (wall env + retryDelay (ev_PublishFailures e)) (pe_text x) t))"
      by (simp add: processEvent_permanent processEvent_retry split: prod.splits)
    then show ?thesis by (simp add: step_quarantine step_release)
  qed
qed

lemma bus_step_ok: "bus_step js ustr publish s s' \<Longrightarrow> outbox_ok js (fst s) \<Longrightarrow> outbox_ok js (fst s')"
  by (induction rule: bus_step.induct)
    (simp_all add: outbox_step_ok [OF step_enqueue] outbox_step_ok [OF step_claim] outbox_step_ok [OF step_redrive]
      outbox_step_ok [OF processEvent_step])

lemma enqueue_published:
  "r' \<in> set (snd (enqueue env js ex e t)) \<Longrightarrow> ob_PublishedAt r' \<noteq> None \<Longrightarrow> r' \<in> set t"
  by (cases rule: enqueue_cases [of env js ex e t]) (auto simp: outbox_insert_def)

lemma claim_published:
  assumes "outbox_ok js t" "r' \<in> set (snd (ClaimBatch env js skip repo owner limit stale t))" "ob_PublishedAt r' \<noteq> None"
  shows "r' \<in> set t"
proof (cases rule: ClaimBatch_cases [of env js skip repo owner limit stale t])
  case accepted
  let ?ids = "candidates env skip (nat limit) stale t"
  have "r' \<in> set (update_where (\<lambda>r. ob_ID r \<in> set ?ids) (claim_row env (TrimSpace owner)) t)"
    using assms(2) accepted(1) by simp
  then show ?thesis using assms(3)
    by (rule unpublished_update) (use candidates_row [OF assms(1)] in \<open>simp add: row_ops claimable_def\<close>)
qed (use assms(2) in simp)

lemma redrive_published:
  "r' \<in> set (snd (Redrive env js ustr repo i at t)) \<Longrightarrow> ob_PublishedAt r' \<noteq> None \<Longrightarrow> r' \<in> set t"
  by (auto simp: Redrive_def row_ops split: if_splits dest!: update_held_published)

text \<open>A run of a relay is a sequence of such steps.\<close>

lemma describes_step:
  assumes "outbox_step js t t'" "outbox_ok js t" "describes t e"
  shows "describes t' e"
proof -
  obtain r where r: "r \<in> set t" "ob_ID r = ev_ID e \<and> ob_Subject r = ev_Subject e \<and> ev_Payload e = Some (ob_Payload r)"
    using assms(3) by (auto simp: describes_def)
  obtain r' where "r' \<in> set t'" "same_event r r'"
    using outbox_steps_keep [OF r_into_rtranclp [of "outbox_step js", OF assms(1)] assms(2)] r(1) by blast
  with r(2) show ?thesis by (auto simp: describes_def same_event_def)
qed

lemma processEvents_bus:
  assumes "outbox_ok js (fst s)" "\<And>e. e \<in> set es \<Longrightarrow> describes (fst s) e"
  shows "(bus_step js ustr publish)\<^sup>*\<^sup>* s (snd (processEvents envs js ustr rl publish k es s))"
  using assms
proof (induction es arbitrary: k s)
  case (Cons e es)
  let ?s = "snd (processEvent (envs k) js ustr rl publish e s)"
  have st: "outbox_step js (fst s) (fst ?s)" using processEvent_step [of js "fst s" _ ustr rl publish e "snd s"] by simp
  have "bus_step js ustr publish s ?s"
    using bus_process [of "fst s" e js ustr publish "snd s"] Cons.prems(2) by simp
  moreover have "(bus_step js ustr publish)\<^sup>*\<^sup>* ?s (snd (processEvents envs js ustr rl publish k (e # es) s))"
    using Cons.IH [OF outbox_step_ok [OF st Cons.prems(1)]] describes_step [OF st Cons.prems(1)] Cons.prems(2)
    by (cases "processEvent (envs k) js ustr rl publish e s") (simp split: option.split)
  ultimately show ?case by (rule converse_rtranclp_into_rtranclp)
qed simp

lemma RunOnce_bus:
  assumes "rl_publisher rl = Some publish" "outbox_ok js t"
  shows "(bus_step js ustr publish)\<^sup>*\<^sup>* (t, w) (snd (RunOnce envs js ustr skip rl (t, w)))"
proof (cases "ClaimBatch (envs 0) js skip (rl_repository rl) (rl_owner rl) (rl_batchSize rl) (wall (envs 0) - rl_lockAge rl) t")
  case (Pair res t1)
  have step: "bus_step js ustr publish (t, w) (t1, w)"
    using bus_claim [of js ustr publish t w "envs 0" skip "rl_repository rl" "rl_owner rl" "rl_batchSize rl"
      "wall (envs 0) - rl_lockAge rl"] Pair by simp
  have rest: "(bus_step js ustr publish)\<^sup>*\<^sup>* (t1, w) (snd (processEvents envs js ustr rl publish 1 es (t1, w)))" if "res = Inr es" for es
  proof (rule processEvents_bus)
    note c = claim_claimed [OF assms(2) Pair [unfolded that]]
    from c(2) show "outbox_ok js (fst (t1, w))" by simp
    show "describes (fst (t1, w)) e" if "e \<in> set es" for e
      using that c(4) by (auto simp: describes_def event_of_def)
  qed
  show ?thesis
  proof (cases "rl_repository rl = None")
    case False
    have "(bus_step js ustr publish)\<^sup>*\<^sup>* (t1, w) (snd (RunOnce envs js ustr skip rl (t, w)))"
      using False Pair assms(1) rest by (auto simp: RunOnce_def split: sum.split)
    with step show ?thesis by (rule converse_rtranclp_into_rtranclp)
  qed (simp add: RunOnce_def)
qed

text \<open>
  What the relay relies on: an answer without error means that the message with this subject, payload and
  identifier is on the bus, and the bus keeps what it has.
\<close>

locale publisher =
  fixes publish :: "'w publish" and delivered :: "'w \<Rightarrow> string \<Rightarrow> string \<Rightarrow> string \<Rightarrow> bool"
  assumes acknowledged: "publish s p h m w = (None, w') \<Longrightarrow> delivered w' s p m"
    and durable: "delivered w s p m \<Longrightarrow> delivered (snd (publish s' p' h' m' w)) s p m"
begin

lemma step_delivered:
  assumes "bus_step js ustr publish s s'" "outbox_ok js (fst s)" "all_delivered delivered ustr (fst s) (snd s)"
  shows "all_delivered delivered ustr (fst s') (snd s')"
  using assms(1)
proof cases
  case (bus_enqueue t w env ex e)
  with assms(3) show ?thesis by (auto simp: all_delivered_def dest: enqueue_published)
next
  case (bus_claim t w env skip repo owner limit stale)
  with assms(2,3) show ?thesis by (auto simp: all_delivered_def dest: claim_published)
next
  case (bus_redrive t w env repo i at)
  with assms(3) show ?thesis by (auto simp: all_delivered_def dest: redrive_published)
next
  case (bus_process t e w env rl)
  obtain err t' w' where p: "processEvent env js ustr rl publish e (t, w) = (err, t', w')" by (rule prod_cases3)
  have w': "w' = snd (publish (ev_Subject e) (the (ev_Payload e)) (event_headers ustr e) (ustr (ev_ID e)) w)"
    using p by (simp add: processEvent_def split: prod.splits)
  have st: "outbox_step js t t'" using processEvent_step [of js t env ustr rl publish e w] p by simp
  have ok: "outbox_ok js t" "outbox_ok js t'" using assms(2) outbox_step_ok [OF st] by (simp_all add: bus_process(1))
  obtain r0 where r0: "r0 \<in> set t'" "ob_ID r0 = ev_ID e" "ob_Subject r0 = ev_Subject e" "ev_Payload e = Some (ob_Payload r0)"
    using describes_step [OF st ok(1) bus_process(3)] by (auto simp: describes_def)
  have "delivered w' (ob_Subject r) (ob_Payload r) (ustr (ob_ID r))" if r: "r \<in> set t'" "ob_PublishedAt r \<noteq> None" for r
    using processEvent_published [OF p r]
  proof
    assume "r \<in> set t"
    with assms(3) r(2) have "delivered w (ob_Subject r) (ob_Payload r) (ustr (ob_ID r))"
      by (simp add: all_delivered_def bus_process(1))
    then show ?thesis unfolding w' by (rule durable)
  next
    assume n: "ob_ID r = ev_ID e
      \<and> publish (ev_Subject e) (the (ev_Payload e)) (event_headers ustr e) (ustr (ev_ID e)) w = (None, w')"
    then have "r = r0" by (intro outbox_unique [OF ok(2) r(1) r0(1)]) (simp add: r0(2))
    moreover have "delivered w' (ev_Subject e) (the (ev_Payload e)) (ustr (ev_ID e))" using n by (intro acknowledged) blast
    ultimately show ?thesis using r0(2-4) by simp
  qed
  then show ?thesis using p by (simp add: all_delivered_def bus_process(2))
qed

lemma steps_delivered:
  assumes "(bus_step js ustr publish)\<^sup>*\<^sup>* s s'" "outbox_ok js (fst s)" "all_delivered delivered ustr (fst s) (snd s)"
  shows "outbox_ok js (fst s') \<and> all_delivered delivered ustr (fst s') (snd s')"
  using assms
proof (induction rule: rtranclp_induct)
  case (step y z)
  with bus_step_ok [OF step(2)] step_delivered [OF step(2)] show ?case by blast
qed simp

end

end
