(* ===== verification/Nats_Bus.thy ===== *)
theory Nats_Bus
  imports Outbox
begin

text \<open>
  \<open>internal/adapters/nats\<close>: the client of the message bus, its streams and its publisher. The library
  \<open>nats.go\<close> is the record \<open>nats_api\<close> of the calls the adapter makes; each acts on the state \<open>'w\<close> of the
  outside world. A client is nil or says which of its two handles are set, and \<open>ctx\<close> is whether the context
  is set. Durations are microseconds. The publisher of the outbox is \<open>nats_Publish\<close>; the contract
  \<open>publisher\<close> is interpreted on it, over a bus that keeps the messages it has accepted.
\<close>

section \<open>Subjects and streams\<close>

definition JobsStreamName :: string where "JobsStreamName = ''SHIYAO_JOBS''"
definition DLQStreamName :: string where "DLQStreamName = ''SHIYAO_DLQ''"
definition JobsSubject :: string where "JobsSubject = ''shiyao.job.>''"
definition DLQSubject :: string where "DLQSubject = ''shiyao.dlq.>''"
definition SubjectSandboxCreate :: string where "SubjectSandboxCreate = ''shiyao.job.sandbox.create''"
definition SubjectSandboxDestroy :: string where "SubjectSandboxDestroy = ''shiyao.job.sandbox.destroy''"

definition maxMessageSize :: nat where "maxMessageSize = 64 * 1024"

record stream_limits =
  JobsMaxBytes :: int
  DLQMaxBytes :: int
  JobsMaxAge :: int
  DLQMaxAge :: int
  Replicas :: int

definition hour :: int where "hour = 3600000000"

definition DefaultStreamLimits :: stream_limits where
  "DefaultStreamLimits =
     \<lparr>JobsMaxBytes = 5 * 1024 * 1024 * 1024, DLQMaxBytes = 5 * 1024 * 1024 * 1024, JobsMaxAge = 7 * 24 * hour,
      DLQMaxAge = 90 * 24 * hour, Replicas = 1\<rparr>"

definition normalizeStreamLimits :: "stream_limits \<Rightarrow> stream_limits" where
  "normalizeStreamLimits limits =
     (let defaults = DefaultStreamLimits;
          limits = (if JobsMaxBytes limits \<le> 0 then limits\<lparr>JobsMaxBytes := JobsMaxBytes defaults\<rparr> else limits);
          limits = (if DLQMaxBytes limits \<le> 0 then limits\<lparr>DLQMaxBytes := DLQMaxBytes defaults\<rparr> else limits);
          limits = (if JobsMaxAge limits \<le> 0 then limits\<lparr>JobsMaxAge := JobsMaxAge defaults\<rparr> else limits);
          limits = (if DLQMaxAge limits \<le> 0 then limits\<lparr>DLQMaxAge := DLQMaxAge defaults\<rparr> else limits);
          limits = (if Replicas limits \<le> 0 then limits\<lparr>Replicas := Replicas defaults\<rparr> else limits)
      in limits)"

datatype retention = LimitsPolicy | WorkQueuePolicy
datatype discard = DiscardOld | DiscardNew
datatype storage = FileStorage

record stream_config =
  sc_Name :: string
  sc_Description :: string
  sc_Subjects :: "string list"
  sc_Retention :: retention
  sc_Discard :: discard
  sc_Storage :: storage
  sc_Replicas :: int
  sc_MaxBytes :: int
  sc_MaxAge :: int
  sc_MaxMsgSize :: nat
  sc_Duplicates :: int

definition StreamConfigs :: "stream_limits \<Rightarrow> stream_config list" where
  "StreamConfigs limits =
     (let limits = normalizeStreamLimits limits
      in [\<lparr>sc_Name = JobsStreamName, sc_Description = ''Durable Shiyao sandbox lifecycle jobs'', sc_Subjects = [JobsSubject],
           sc_Retention = WorkQueuePolicy, sc_Discard = DiscardNew, sc_Storage = FileStorage, sc_Replicas = Replicas limits,
           sc_MaxBytes = JobsMaxBytes limits, sc_MaxAge = JobsMaxAge limits, sc_MaxMsgSize = maxMessageSize,
           sc_Duplicates = 600000000\<rparr>,
          \<lparr>sc_Name = DLQStreamName, sc_Description = ''Shiyao jobs requiring operator inspection or redrive'',
           sc_Subjects = [DLQSubject], sc_Retention = LimitsPolicy, sc_Discard = DiscardOld, sc_Storage = FileStorage,
           sc_Replicas = Replicas limits, sc_MaxBytes = DLQMaxBytes limits, sc_MaxAge = DLQMaxAge limits,
           sc_MaxMsgSize = maxMessageSize, sc_Duplicates = 600000000\<rparr>])"

section \<open>The client\<close>

record conn_options =
  co_Name :: string
  co_Timeout :: int
  co_MaxReconnects :: int
  co_ReconnectWait :: int

record message =
  msg_Subject :: string
  msg_Data :: string
  msg_Header :: "(string, string) gomap"

record consumer_config =
  cc_Durable :: string
  cc_Name :: string
  cc_FilterSubject :: string
  cc_AckWait :: int
  cc_MaxDeliver :: int

record 'w nats_api =
  api_Connect :: "string \<Rightarrow> conn_options \<Rightarrow> 'w \<Rightarrow> error option \<times> 'w"
  api_JetStream :: "'w \<Rightarrow> error option \<times> 'w"
  api_AccountInfo :: "'w \<Rightarrow> error option \<times> 'w"
  api_Close :: "'w \<Rightarrow> 'w"
  api_Drain :: "'w \<Rightarrow> error option \<times> 'w"
  api_IsClosed :: "'w \<Rightarrow> bool"
  api_IsConnected :: "'w \<Rightarrow> bool"
  api_CreateOrUpdateStream :: "stream_config \<Rightarrow> 'w \<Rightarrow> error option \<times> 'w"
  api_CreateOrUpdateConsumer :: "string \<Rightarrow> consumer_config \<Rightarrow> 'w \<Rightarrow> error option \<times> 'w"
  api_PublishMsg :: "message \<Rightarrow> string option \<Rightarrow> 'w \<Rightarrow> error option \<times> 'w"

record client =
  cl_connection :: bool
  cl_jetStream :: bool

definition ErrClientUnavailable :: error where "ErrClientUnavailable = Sentinel ''JetStream client is unavailable''"

definition connectionOptions :: "string \<Rightarrow> conn_options" where
  "connectionOptions clientName =
     \<lparr>co_Name = clientName, co_Timeout = 5000000, co_MaxReconnects = -1, co_ReconnectWait = 2000000\<rparr>"

definition nats_New :: "'w nats_api \<Rightarrow> bool \<Rightarrow> string \<Rightarrow> string list \<Rightarrow> 'w \<Rightarrow> client result \<times> 'w" where
  "nats_New api ctx serverURL clientName w =
     (if \<not> ctx then (Inl (Errorf ''NATS context is required''), w)
      else let serverURL = TrimSpace serverURL
           in if serverURL = [] then (Inl (Errorf ''NATS URL is required''), w)
              else let name = (case clientName of
                                 n # _ \<Rightarrow> if TrimSpace n \<noteq> [] then TrimSpace n else ''shiyao''
                               | [] \<Rightarrow> ''shiyao'')
                   in (case api_Connect api serverURL (connectionOptions name) w of
                         (Some err, w) \<Rightarrow> (Inl (Wrapf ''connect to NATS: '' err []), w)
                       | (None, w) \<Rightarrow>
                           (case api_JetStream api w of
                              (Some err, w) \<Rightarrow> (Inl (Wrapf ''initialize JetStream: '' err []), api_Close api w)
                            | (None, w) \<Rightarrow>
                                (case api_AccountInfo api w of
                                   (Some err, w) \<Rightarrow> (Inl (Wrapf ''verify JetStream account: '' err []), api_Close api w)
                                 | (None, w) \<Rightarrow> (Inr \<lparr>cl_connection = True, cl_jetStream = True\<rparr>, w)))))"

definition nats_Close :: "'w nats_api \<Rightarrow> client option \<Rightarrow> 'w \<Rightarrow> error option \<times> 'w" where
  "nats_Close api c w =
     (if c = None \<or> \<not> cl_connection (the c) \<or> api_IsClosed api w then (None, w)
      else (case api_Drain api w of
              (Some err, w) \<Rightarrow> (Some (Wrapf ''drain NATS connection: '' err []), api_Close api w)
            | (None, w) \<Rightarrow> (None, w)))"

definition nats_Ping :: "'w nats_api \<Rightarrow> bool \<Rightarrow> client option \<Rightarrow> 'w \<Rightarrow> error option \<times> 'w" where
  "nats_Ping api ctx c w =
     (if \<not> ctx then (Some (Errorf ''JetStream health context is required''), w)
      else if c = None \<or> \<not> cl_connection (the c) \<or> \<not> cl_jetStream (the c) then (Some ErrClientUnavailable, w)
      else if \<not> api_IsConnected api w then (Some (Errorf ''JetStream client is not connected''), w)
      else (case api_AccountInfo api w of
              (Some err, w) \<Rightarrow> (Some (Wrapf ''read JetStream account info: '' err []), w)
            | (None, w) \<Rightarrow> (None, w)))"

fun provision_streams :: "'w nats_api \<Rightarrow> stream_config list \<Rightarrow> 'w \<Rightarrow> error option \<times> 'w" where
  "provision_streams api [] w = (None, w)"
| "provision_streams api (config # configs) w =
     (case api_CreateOrUpdateStream api config w of
        (Some err, w) \<Rightarrow> (Some (Wrapf (''provision JetStream stream '' @ sc_Name config @ '': '') err []), w)
      | (None, w) \<Rightarrow> provision_streams api configs w)"

definition Provision :: "'w nats_api \<Rightarrow> bool \<Rightarrow> client option \<Rightarrow> stream_limits \<Rightarrow> 'w \<Rightarrow> error option \<times> 'w" where
  "Provision api ctx c limits w =
     (if \<not> ctx then (Some (Errorf ''JetStream provisioning context is required''), w)
      else if c = None \<or> \<not> cl_jetStream (the c) then (Some ErrClientUnavailable, w)
      else provision_streams api (StreamConfigs limits) w)"

text \<open>The verb \<open>%q\<close> quotes the name of the consumer; the quoting is the argument \<open>quote\<close>.\<close>

definition consumerName :: "consumer_config \<Rightarrow> string" where
  "consumerName config = (if TrimSpace (cc_Durable config) \<noteq> [] then TrimSpace (cc_Durable config) else TrimSpace (cc_Name config))"

definition CreateOrUpdateConsumer ::
  "'w nats_api \<Rightarrow> (string \<Rightarrow> string) \<Rightarrow> bool \<Rightarrow> client option \<Rightarrow> string \<Rightarrow> consumer_config \<Rightarrow> 'w \<Rightarrow> error option \<times> 'w" where
  "CreateOrUpdateConsumer api quote ctx c stream config w =
     (if \<not> ctx then (Some (Errorf ''JetStream consumer context is required''), w)
      else if c = None \<or> \<not> cl_jetStream (the c) then (Some ErrClientUnavailable, w)
      else let stream = TrimSpace stream
           in if stream = [] then (Some (Errorf ''JetStream stream name is required''), w)
              else if TrimSpace (cc_Durable config) = [] \<and> TrimSpace (cc_Name config) = []
              then (Some (Errorf ''JetStream consumer durable or name is required''), w)
              else (case api_CreateOrUpdateConsumer api stream config w of
                      (Some err, w) \<Rightarrow>
                        (Some (Wrapf (''create or update consumer '' @ quote (consumerName config) @ '' on '' @ stream @ '': '') err []), w)
                    | (None, w) \<Rightarrow> (None, w)))"

section \<open>The publisher\<close>

definition PublishError :: "error \<Rightarrow> string \<Rightarrow> bool \<Rightarrow> bool \<Rightarrow> publish_error" where
  "PublishError err cd retryable permanent =
     \<lparr>pe_text = Error err, pe_code = Some cd, pe_permanent = permanent, pe_retryable = retryable\<rparr>"

text \<open>The loop over the headers; keys are trimmed and blank keys are dropped.\<close>

definition message_header :: "(string, string) gomap \<Rightarrow> (string, string) gomap" where
  "message_header headers =
     fold (\<lambda>(key, value) h. if TrimSpace key \<noteq> [] then AList.update (TrimSpace key) value h else h) headers []"

definition nats_Publish :: "'w nats_api \<Rightarrow> bool \<Rightarrow> client option \<Rightarrow> 'w publish" where
  "nats_Publish api ctx c subject payload headers messageID w =
     (if \<not> ctx then (Some (PublishError (Errorf ''JetStream publish context is required'') ''invalid_context'' False True), w)
      else if c = None \<or> \<not> cl_jetStream (the c) \<or> \<not> cl_connection (the c)
      then (Some (PublishError ErrClientUnavailable ''client_unavailable'' True False), w)
      else let subject = TrimSpace subject
           in if subject = [] then (Some (PublishError (Errorf ''JetStream subject is required'') ''invalid_subject'' False True), w)
              else if length payload > maxMessageSize
              then (Some (PublishError (Errorf (''JetStream message payload is '' @ nat_str (length payload)
                       @ '' bytes; maximum is '' @ nat_str maxMessageSize)) ''message_too_large'' False True), w)
              else let message = \<lparr>msg_Subject = subject, msg_Data = payload, msg_Header = message_header headers\<rparr>;
                       messageID = TrimSpace messageID
                   in (case api_PublishMsg api message (if messageID \<noteq> [] then Some messageID else None) w of
                         (Some err, w) \<Rightarrow>
                           (Some (PublishError (Wrapf (''publish JetStream message to '' @ subject @ '': '') err [])
                              ''jetstream_publish_failed'' True False), w)
                       | (None, w) \<Rightarrow> (None, w)))"

text \<open>
  A bus that keeps the messages it has accepted with their identifiers. \<open>orc\<close> decides each call: its error,
  and whether a call with an error has stored the message all the same, as after a lost acknowledgement.
\<close>

type_synonym bus = "(message \<times> string option) list"

definition kept_api :: "bus nats_api \<Rightarrow> (message \<Rightarrow> string option \<Rightarrow> bus \<Rightarrow> error option \<times> bool) \<Rightarrow> bus nats_api" where
  "kept_api api orc =
     api\<lparr>api_PublishMsg := (\<lambda>m i w. let (err, stored) = orc m i w in (err, if err = None \<or> stored then w @ [(m, i)] else w))\<rparr>"

definition on_bus :: "bus \<Rightarrow> string \<Rightarrow> string \<Rightarrow> string \<Rightarrow> bool" where
  "on_bus w subject payload i \<longleftrightarrow>
     (\<exists>(m, j)\<in>set w. msg_Subject m = TrimSpace subject \<and> msg_Data m = payload
        \<and> j = (if TrimSpace i \<noteq> [] then Some (TrimSpace i) else None))"

definition demo_api :: "bus nats_api" where
  "demo_api =
     \<lparr>api_Connect = (\<lambda>_ _ w. (None, w)), api_JetStream = (\<lambda>w. (None, w)), api_AccountInfo = (\<lambda>w. (None, w)), api_Close = (\<lambda>w. w),
      api_Drain = (\<lambda>w. (None, w)), api_IsClosed = (\<lambda>_. False), api_IsConnected = (\<lambda>_. True),
      api_CreateOrUpdateStream = (\<lambda>_ w. (None, w)), api_CreateOrUpdateConsumer = (\<lambda>_ _ w. (None, w)),
      api_PublishMsg = (\<lambda>_ _ w. (None, w))\<rparr>"

section \<open>Correctness\<close>

lemma normalizeStreamLimits_positive:
  "0 < JobsMaxBytes (normalizeStreamLimits l)" "0 < DLQMaxBytes (normalizeStreamLimits l)"
  "0 < JobsMaxAge (normalizeStreamLimits l)" "0 < DLQMaxAge (normalizeStreamLimits l)" "0 < Replicas (normalizeStreamLimits l)"
  by (simp_all add: normalizeStreamLimits_def DefaultStreamLimits_def hour_def Let_def)

lemma normalizeStreamLimits_id:
  assumes "0 < JobsMaxBytes l" "0 < DLQMaxBytes l" "0 < JobsMaxAge l" "0 < DLQMaxAge l" "0 < Replicas l"
  shows "normalizeStreamLimits l = l"
  using assms by (simp add: normalizeStreamLimits_def Let_def)

lemma not_blank_trim:
  assumes "ascii (c # s)" "\<not> is_space (code c)"
  shows "not_blank (TrimSpace (c # s))"
proof -
  have "c \<noteq> CHR '' ''" using assms(2) by (auto simp: is_space_def)
  moreover have "c \<in> set (trim_both (\<lambda>c. is_space (code c)) (c # s))"
    using assms(2) by (simp add: trim_both_def dropWhile_append)
  ultimately show ?thesis using assms(1) by (auto simp: TrimSpace_ascii not_blank_def list_ex_iff)
qed

text \<open>The permanent failures of the publisher can always be recorded by the outbox.\<close>

lemma PublishError_reportable:
  assumes "permanent \<Longrightarrow> not_blank (TrimSpace cd) \<and> cd \<noteq> [] \<and> not_blank (TrimSpace (Error err))"
  shows "reportable (PublishError err cd retryable permanent)"
  using assms by (simp add: reportable_def classifyPublishError_def PublishError_def)

lemma nats_reports: "reports (nats_Publish api ctx c)"
proof -
  have "reportable pe" if "nats_Publish api ctx c s p h m w = (Some pe, w')" for s p h m w pe w'
  proof -
    have "reportable (PublishError (Errorf ''JetStream publish context is required'') ''invalid_context'' False True)"
      "reportable (PublishError (Errorf ''JetStream subject is required'') ''invalid_subject'' False True)"
      "reportable (PublishError (Errorf (''JetStream message payload is '' @ nat_str (length p)
         @ '' bytes; maximum is '' @ nat_str maxMessageSize)) ''message_too_large'' False True)"
      "reportable (PublishError err cd retryable False)" for err cd retryable
      by (rule PublishError_reportable,
          auto simp: is_ascii_def is_space_def nat_str_ascii intro!: not_blank_trim)+
    then show ?thesis
      using that by (auto simp: nats_Publish_def Let_def split: if_splits prod.splits option.splits)
  qed
  then show ?thesis unfolding reports_def by blast
qed

lemma nats_New_handles:
  assumes "nats_New api ctx url names w = (Inr c, w')"
  shows "c = \<lparr>cl_connection = True, cl_jetStream = True\<rparr>"
  using assms by (auto simp: nats_New_def Let_def split: if_splits prod.splits option.splits)

lemma kept_PublishMsg: "\<exists>ms. snd (api_PublishMsg (kept_api api orc) m i w) = w @ ms"
  by (simp add: kept_api_def split: prod.split)

lemma nats_Publish_keeps: "\<exists>ms. snd (nats_Publish (kept_api api orc) ctx c s p h m w) = w @ ms"
proof -
  let ?msg = "\<lparr>msg_Subject = TrimSpace s, msg_Data = p, msg_Header = message_header h\<rparr>"
  let ?i = "if TrimSpace m \<noteq> [] then Some (TrimSpace m) else None"
  obtain err w1 where call: "api_PublishMsg (kept_api api orc) ?msg ?i w = (err, w1)" by (rule prod.exhaust)
  then have "snd (nats_Publish (kept_api api orc) ctx c s p h m w) \<in> {w, w1}"
    by (cases err; cases "TrimSpace m = []") (simp_all add: nats_Publish_def Let_def)
  moreover obtain ms where "w1 = w @ ms" using kept_PublishMsg [of api orc ?msg ?i w] call by auto
  ultimately show ?thesis by auto
qed

interpretation nats_bus: publisher "nats_Publish (kept_api api orc) ctx c" on_bus for api orc ctx c
proof
  show "on_bus w' s p m" if "nats_Publish (kept_api api orc) ctx c s p h m w = (None, w')" for s p h m w w'
    using that by (auto simp: nats_Publish_def kept_api_def on_bus_def Let_def split: if_splits prod.splits option.splits)
  show "on_bus (snd (nats_Publish (kept_api api orc) ctx c s' p' h' m' w)) s p m" if "on_bus w s p m" for w s p m s' p' h' m'
    using that nats_Publish_keeps [of api orc ctx c s' p' h' m' w] by (auto simp: on_bus_def)
qed

text \<open>
  A run of the relay ends without an error when the database answers and the counters have
  room, whatever the bus does with each message: the client may be missing, the payload too large or
  the connection lost, but a failed event never keeps the rest of the batch from being handled.
\<close>

theorem RunOnce_completes:
  assumes "outbox_ok js t" and "TrimSpace owner = owner" and "owner \<noteq> []" and "\<And>k. down (envs k) = (\<lambda>_. None)"
    and "wall (envs 0) - 60000000 \<noteq> zero_time"
    and "\<And>r. r \<in> set t \<Longrightarrow> ob_Attempts r < 2147483647 \<and> ob_PublishFailures r < 2147483647"
  shows "fst (RunOnce envs js ustr skip (NewRelay (Some True) (Some (nats_Publish api ctx c)) owner) (t, w)) = None"
  by (rule relay_ends [where envs = envs, OF assms(1-5) _ nats_reports]) (rule assms(6))

theorem RunOnce_completes_witness:
  "fst (RunOnce (\<lambda>_. relay_env) demo_json (\<lambda>_. ''id'') (\<lambda>_. False)
     (NewRelay (Some True) (Some (nats_Publish demo_api True None)) ''relay'') ([demo_row], [])) = None"
  by (rule RunOnce_completes [OF demo_outbox_ok demo_trim(1)]) (simp_all add: relay_env_def demo_row_def zero_time_def)

text \<open>
  C4. Every event that the table shows as published is on the bus, with its subject and its payload, under its
  own identifier. This holds in every state that producers, operators and relays reach together
  from one where it holds, with any interleaving and with any failures of the database and of the bus, which may
  also keep a message and lose the acknowledgement.
\<close>

theorem published_on_bus:
  assumes "outbox_ok js t0" and "all_delivered on_bus ustr t0 w0"
    and "(bus_step js ustr (nats_Publish (kept_api api orc) ctx c))\<^sup>*\<^sup>* (t0, w0) (t, w)"
    and "r \<in> set t" and "ob_PublishedAt r \<noteq> None"
  shows "on_bus w (ob_Subject r) (ob_Payload r) (ustr (ob_ID r))"
  using nats_bus.steps_delivered [OF assms(3)] assms(1,2,4,5) by (simp add: all_delivered_def)

lemma demo_nats:
  "nats_Publish (kept_api demo_api (\<lambda>_ _ _. (None, False))) True (Some \<lparr>cl_connection = True, cl_jetStream = True\<rparr>) ''job'' ''{}'' h ''id'' []
    = (None, [(\<lparr>msg_Subject = ''job'', msg_Data = ''{}'', msg_Header = message_header h\<rparr>, Some ''id'')])"
proof -
  have "TrimSpace ''job'' = ''job''" "TrimSpace ''id'' = ''id''"
    by (simp_all add: TrimSpace_ascii is_ascii_def trim_both_def is_space_def)
  then show ?thesis by (simp add: nats_Publish_def kept_api_def maxMessageSize_def)
qed

theorem published_on_bus_witness:
  "on_bus [(\<lparr>msg_Subject = ''job'', msg_Data = ''{}'',
       msg_Header = message_header (event_headers (\<lambda>_. ''id'') (event_of (claim_row relay_env ''relay'' demo_row)))\<rparr>, Some ''id'')]
     ''job'' ''{}'' ''id''"
proof -
  let ?r = "claim_row relay_env ''relay'' demo_row"
  let ?pub = "nats_Publish (kept_api demo_api (\<lambda>_ _ _. (None, False))) True (Some \<lparr>cl_connection = True, cl_jetStream = True\<rparr>)"
  let ?rl = "NewRelay (Some True) (Some ?pub) ''relay''"
  have e: "ev_Subject (event_of ?r) = ''job''" "ev_Payload (event_of ?r) = Some ''{}''" "ob_ID demo_row = 5"
    by (simp_all add: event_of_def claim_row_def demo_row_def)
  have "processEvent relay_env demo_json (\<lambda>_. ''id'') ?rl ?pub (event_of ?r) ([?r], [])
      = (None, [publish_row relay_env ?r], [(\<lparr>msg_Subject = ''job'', msg_Data = ''{}'',
          msg_Header = message_header (event_headers (\<lambda>_. ''id'') (event_of ?r))\<rparr>, Some ''id'')])"
    using demo_nats demo_mark by (simp add: processEvent_def NewRelay_def e)
  moreover have "describes [?r] (event_of ?r)" by (simp add: describes_def event_of_def)
  ultimately have "(bus_step demo_json (\<lambda>_. ''id'') ?pub)\<^sup>*\<^sup>* ([?r], []) ([publish_row relay_env ?r],
      [(\<lparr>msg_Subject = ''job'', msg_Data = ''{}'', msg_Header = message_header (event_headers (\<lambda>_. ''id'') (event_of ?r))\<rparr>, Some ''id'')])"
    using bus_process [of "[?r]" "event_of ?r" demo_json "\<lambda>_. ''id''" ?pub "[]" relay_env ?rl] by auto
  moreover have "outbox_ok demo_json [?r]" using claim_claimed(2) [OF demo_outbox_ok demo_claim [OF demo_trim(1)]] .
  ultimately show ?thesis
    using published_on_bus [of demo_json "[?r]" "\<lambda>_. ''id''" "[]" demo_api "\<lambda>_ _ _. (None, False)" True
        "Some \<lparr>cl_connection = True, cl_jetStream = True\<rparr>" "[publish_row relay_env ?r]" _ "publish_row relay_env ?r"]
    by (simp add: all_delivered_def row_ops demo_row_def)
qed

end
