(* ===== verification/Queries.thy ===== *)
theory Queries
  imports Database
begin

text \<open>
  The queries of \<open>internal/database/sqlc\<close> on the identity tables, one definition per query, in the order of
  the files. Every one reads the clock of the database once. Where a query orders its rows and several
  rows are equal, the database may pick any; here the one inserted first comes first.
\<close>

section \<open>users\<close>

definition live_user :: "uuid \<Rightarrow> user \<Rightarrow> bool" where
  "live_user uid u \<longleftrightarrow> u_ID u = uid \<and> u_DisabledAt u = None"

definition CreateUser :: "call_env \<Rightarrow> pg \<Rightarrow> string option \<Rightarrow> string \<Rightarrow> string option \<Rightarrow> db \<Rightarrow> user result \<times> db" where
  "CreateUser env pg name email passwordHash d =
     (let u = \<lparr>u_ID = gen_uuid env, u_Email = email, u_EmailVerified = False, u_Name = name, u_PasswordHash = passwordHash,
               u_DisabledAt = None, u_CreatedAt = now env, u_UpdatedAt = now env\<rparr>
      in commit env pg ''CreateUser'' d (d\<lparr>users := users d @ [u]\<rparr>) (Inr u))"

definition DisableUser :: "call_env \<Rightarrow> pg \<Rightarrow> uuid \<Rightarrow> db \<Rightarrow> error option \<times> db" where
  "DisableUser env pg uid d =
     exec_stmt env pg ''DisableUser'' d
       (d\<lparr>users := update_where (live_user uid) (\<lambda>u. u\<lparr>u_DisabledAt := Some (now env), u_UpdatedAt := now env\<rparr>) (users d)\<rparr>)"

definition GetUserByEmail :: "call_env \<Rightarrow> pg \<Rightarrow> string \<Rightarrow> db \<Rightarrow> user result" where
  "GetUserByEmail env pg email d =
     select_one env ''GetUserByEmail'' (\<lambda>u. pg_lower pg (u_Email u) = pg_lower pg email \<and> u_DisabledAt u = None) (users d)"

definition GetUserByEmailIncludingDisabled :: "call_env \<Rightarrow> pg \<Rightarrow> string \<Rightarrow> db \<Rightarrow> user result" where
  "GetUserByEmailIncludingDisabled env pg email d =
     select_one env ''GetUserByEmailIncludingDisabled'' (\<lambda>u. pg_lower pg (u_Email u) = pg_lower pg email) (users d)"

definition GetUserByID :: "call_env \<Rightarrow> uuid \<Rightarrow> db \<Rightarrow> user result" where
  "GetUserByID env uid d = select_one env ''GetUserByID'' (live_user uid) (users d)"

text \<open>An \<open>UPDATE users ... RETURNING\<close> of one live user.\<close>

definition update_user :: "call_env \<Rightarrow> pg \<Rightarrow> string \<Rightarrow> uuid \<Rightarrow> (user \<Rightarrow> user) \<Rightarrow> db \<Rightarrow> user result \<times> db" where
  "update_user env pg name uid f d =
     (let g = (\<lambda>u. (f u)\<lparr>u_UpdatedAt := now env\<rparr>)
      in commit env pg name d (d\<lparr>users := update_where (live_user uid) g (users d)\<rparr>)
           (returning (live_user uid) g (users d)))"

definition MarkUserEmailVerified :: "call_env \<Rightarrow> pg \<Rightarrow> uuid \<Rightarrow> db \<Rightarrow> user result \<times> db" where
  "MarkUserEmailVerified env pg uid d =
     update_user env pg ''MarkUserEmailVerified'' uid (\<lambda>u. u\<lparr>u_EmailVerified := True\<rparr>) d"

definition SetUserPassword :: "call_env \<Rightarrow> pg \<Rightarrow> string option \<Rightarrow> uuid \<Rightarrow> db \<Rightarrow> user result \<times> db" where
  "SetUserPassword env pg passwordHash uid d =
     update_user env pg ''SetUserPassword'' uid (\<lambda>u. u\<lparr>u_PasswordHash := passwordHash\<rparr>) d"

definition UpdateUserProfile ::
  "call_env \<Rightarrow> pg \<Rightarrow> string option \<Rightarrow> string option \<Rightarrow> uuid \<Rightarrow> db \<Rightarrow> user result \<times> db" where
  "UpdateUserProfile env pg name email uid d =
     update_user env pg ''UpdateUserProfile'' uid
       (\<lambda>u. u\<lparr>u_Name := (if name = None then u_Name u else name),
              u_Email := (case email of None \<Rightarrow> u_Email u | Some e \<Rightarrow> e)\<rparr>) d"

section \<open>auth\_transactions\<close>

definition open_tx :: "auth_transaction \<Rightarrow> bool" where
  "open_tx t \<longleftrightarrow> tx_State t \<noteq> ''authenticated'' \<and> tx_State t \<noteq> ''expired''"

definition CreateAuthTransaction ::
  "call_env \<Rightarrow> pg \<Rightarrow> string \<Rightarrow> uuid option \<Rightarrow> time option \<Rightarrow> db \<Rightarrow> auth_transaction result \<times> db" where
  "CreateAuthTransaction env pg identifier userID expiresAt d =
     (let t = \<lparr>tx_ID = gen_uuid env, tx_Identifier = identifier, tx_UserID = userID, tx_State = ''started'',
               tx_SelectedMethod = None, tx_ExpiresAt = expiresAt, tx_CreatedAt = now env, tx_UpdatedAt = now env\<rparr>
      in commit env pg ''CreateAuthTransaction'' d (d\<lparr>auth_transactions := auth_transactions d @ [t]\<rparr>) (Inr t))"

text \<open>\<open>ON DELETE CASCADE\<close> takes the challenges of the deleted transactions along.\<close>

definition DeleteExpiredAuthTransactions :: "call_env \<Rightarrow> pg \<Rightarrow> db \<Rightarrow> error option \<times> db" where
  "DeleteExpiredAuthTransactions env pg d =
     (let gone = filter (\<lambda>t. case tx_ExpiresAt t of Some x \<Rightarrow> x \<le> now env | None \<Rightarrow> False) (auth_transactions d);
          ids = map tx_ID gone
      in exec_stmt env pg ''DeleteExpiredAuthTransactions'' d
           (d\<lparr>auth_transactions := filter (\<lambda>t. tx_ID t \<notin> set ids) (auth_transactions d),
              auth_challenges := filter (\<lambda>c. case ch_AuthTransactionID c of Some t \<Rightarrow> t \<notin> set ids | None \<Rightarrow> True)
                (auth_challenges d)\<rparr>))"

definition ExpireAuthTransaction :: "call_env \<Rightarrow> pg \<Rightarrow> uuid \<Rightarrow> db \<Rightarrow> error option \<times> db" where
  "ExpireAuthTransaction env pg tid d =
     exec_stmt env pg ''ExpireAuthTransaction'' d
       (d\<lparr>auth_transactions := update_where (\<lambda>t. tx_ID t = tid \<and> open_tx t)
            (\<lambda>t. t\<lparr>tx_State := ''expired'', tx_UpdatedAt := now env\<rparr>) (auth_transactions d)\<rparr>)"

definition live_tx :: "call_env \<Rightarrow> uuid \<Rightarrow> auth_transaction \<Rightarrow> bool" where
  "live_tx env tid t \<longleftrightarrow> tx_ID t = tid \<and> after (tx_ExpiresAt t) (now env) \<and> open_tx t"

definition GetAuthTransactionByID :: "call_env \<Rightarrow> uuid \<Rightarrow> db \<Rightarrow> auth_transaction result" where
  "GetAuthTransactionByID env tid d = select_one env ''GetAuthTransactionByID'' (live_tx env tid) (auth_transactions d)"

definition GetAuthTransactionByIDAnyState :: "call_env \<Rightarrow> uuid \<Rightarrow> db \<Rightarrow> auth_transaction result" where
  "GetAuthTransactionByIDAnyState env tid d =
     select_one env ''GetAuthTransactionByIDAnyState'' (\<lambda>t. tx_ID t = tid) (auth_transactions d)"

definition update_tx ::
  "call_env \<Rightarrow> pg \<Rightarrow> string \<Rightarrow> (auth_transaction \<Rightarrow> bool) \<Rightarrow> (auth_transaction \<Rightarrow> auth_transaction) \<Rightarrow> db
    \<Rightarrow> auth_transaction result \<times> db" where
  "update_tx env pg name P f d =
     (let g = (\<lambda>t. (f t)\<lparr>tx_UpdatedAt := now env\<rparr>)
      in commit env pg name d (d\<lparr>auth_transactions := update_where P g (auth_transactions d)\<rparr>)
           (returning P g (auth_transactions d)))"

definition MarkAuthTransactionAuthenticated :: "call_env \<Rightarrow> pg \<Rightarrow> uuid \<Rightarrow> db \<Rightarrow> auth_transaction result \<times> db" where
  "MarkAuthTransactionAuthenticated env pg tid d =
     update_tx env pg ''MarkAuthTransactionAuthenticated''
       (\<lambda>t. tx_ID t = tid \<and> after (tx_ExpiresAt t) (now env) \<and> tx_State t \<noteq> ''expired'')
       (\<lambda>t. t\<lparr>tx_State := ''authenticated''\<rparr>) d"

definition SetAuthTransactionMethod :: "call_env \<Rightarrow> pg \<Rightarrow> string option \<Rightarrow> uuid \<Rightarrow> db \<Rightarrow> auth_transaction result \<times> db" where
  "SetAuthTransactionMethod env pg method tid d =
     update_tx env pg ''SetAuthTransactionMethod'' (live_tx env tid) (\<lambda>t. t\<lparr>tx_SelectedMethod := method\<rparr>) d"

definition SetAuthTransactionState :: "call_env \<Rightarrow> pg \<Rightarrow> string \<Rightarrow> uuid \<Rightarrow> db \<Rightarrow> auth_transaction result \<times> db" where
  "SetAuthTransactionState env pg st tid d =
     update_tx env pg ''SetAuthTransactionState'' (live_tx env tid) (\<lambda>t. t\<lparr>tx_State := st\<rparr>) d"

definition SetAuthTransactionUser :: "call_env \<Rightarrow> pg \<Rightarrow> uuid option \<Rightarrow> uuid \<Rightarrow> db \<Rightarrow> auth_transaction result \<times> db" where
  "SetAuthTransactionUser env pg userID tid d =
     update_tx env pg ''SetAuthTransactionUser'' (\<lambda>t. tx_ID t = tid \<and> after (tx_ExpiresAt t) (now env))
       (\<lambda>t. t\<lparr>tx_UserID := userID\<rparr>) d"

section \<open>auth\_challenges\<close>

definition active_ch :: "call_env \<Rightarrow> auth_challenge \<Rightarrow> bool" where
  "active_ch env c \<longleftrightarrow> ch_ConsumedAt c = None \<and> after (ch_ExpiresAt c) (now env) \<and> ch_Attempts c < ch_MaxAttempts c"

definition update_ch ::
  "call_env \<Rightarrow> pg \<Rightarrow> string \<Rightarrow> uuid \<Rightarrow> (auth_challenge \<Rightarrow> auth_challenge) \<Rightarrow> db \<Rightarrow> auth_challenge result \<times> db" where
  "update_ch env pg name cid f d =
     (let P = (\<lambda>c. ch_ID c = cid \<and> active_ch env c)
      in commit env pg name d (d\<lparr>auth_challenges := update_where P f (auth_challenges d)\<rparr>)
           (returning P f (auth_challenges d)))"

definition ConsumeAuthChallenge :: "call_env \<Rightarrow> pg \<Rightarrow> uuid \<Rightarrow> db \<Rightarrow> auth_challenge result \<times> db" where
  "ConsumeAuthChallenge env pg cid d =
     update_ch env pg ''ConsumeAuthChallenge'' cid (\<lambda>c. c\<lparr>ch_ConsumedAt := Some (now env)\<rparr>) d"

definition CreateAuthChallenge ::
  "call_env \<Rightarrow> pg \<Rightarrow> uuid option \<Rightarrow> string \<Rightarrow> string \<Rightarrow> string \<Rightarrow> string option \<Rightarrow> int \<Rightarrow> time option \<Rightarrow> db
    \<Rightarrow> auth_challenge result \<times> db" where
  "CreateAuthChallenge env pg txID identifier secretHash purpose st maxAttempts expiresAt d =
     (let c = \<lparr>ch_ID = gen_uuid env, ch_AuthTransactionID = txID, ch_Identifier = identifier, ch_SecretHash = secretHash,
               ch_Purpose = purpose, ch_State = st, ch_Attempts = 0, ch_MaxAttempts = maxAttempts,
               ch_ExpiresAt = expiresAt, ch_ConsumedAt = None, ch_CreatedAt = now env\<rparr>
      in commit env pg ''CreateAuthChallenge'' d (d\<lparr>auth_challenges := auth_challenges d @ [c]\<rparr>) (Inr c))"

definition DeleteExpiredAuthChallenges :: "call_env \<Rightarrow> pg \<Rightarrow> db \<Rightarrow> error option \<times> db" where
  "DeleteExpiredAuthChallenges env pg d =
     exec_stmt env pg ''DeleteExpiredAuthChallenges'' d
       (d\<lparr>auth_challenges := filter (\<lambda>c. \<not> ((case ch_ExpiresAt c of Some x \<Rightarrow> x \<le> now env | None \<Rightarrow> False)
            \<or> ch_ConsumedAt c \<noteq> None)) (auth_challenges d)\<rparr>)"

definition GetActiveAuthChallenge :: "call_env \<Rightarrow> uuid option \<Rightarrow> string \<Rightarrow> db \<Rightarrow> auth_challenge result" where
  "GetActiveAuthChallenge env txID purpose d =
     select_one env ''GetActiveAuthChallenge''
       (\<lambda>c. txID \<noteq> None \<and> ch_AuthTransactionID c = txID \<and> ch_Purpose c = purpose \<and> active_ch env c)
       (sort_key (\<lambda>c. - ch_CreatedAt c) (auth_challenges d))"

definition GetAuthChallengeByID :: "call_env \<Rightarrow> uuid \<Rightarrow> db \<Rightarrow> auth_challenge result" where
  "GetAuthChallengeByID env cid d = select_one env ''GetAuthChallengeByID'' (\<lambda>c. ch_ID c = cid) (auth_challenges d)"

definition IncrementAuthChallengeAttempts :: "call_env \<Rightarrow> pg \<Rightarrow> uuid \<Rightarrow> db \<Rightarrow> auth_challenge result \<times> db" where
  "IncrementAuthChallengeAttempts env pg cid d =
     update_ch env pg ''IncrementAuthChallengeAttempts'' cid (\<lambda>c. c\<lparr>ch_Attempts := ch_Attempts c + 1\<rparr>) d"

section \<open>sessions\<close>

text \<open>A session that is neither expired nor revoked and whose user is live.\<close>

definition live_session :: "call_env \<Rightarrow> db \<Rightarrow> session \<Rightarrow> bool" where
  "live_session env d s \<longleftrightarrow> after (se_ExpiresAt s) (now env) \<and> se_RevokedAt s = None
     \<and> list_ex (live_user (se_UserID s)) (users d)"

definition CreateSession ::
  "call_env \<Rightarrow> pg \<Rightarrow> string \<Rightarrow> string option \<Rightarrow> string option \<Rightarrow> time option \<Rightarrow> uuid \<Rightarrow> db \<Rightarrow> session result \<times> db" where
  "CreateSession env pg tokenHash ipAddress userAgent expiresAt userID d =
     (if \<not> list_ex (live_user userID) (users d)
      then commit env pg ''CreateSession'' d d (Inl ErrNoRows)
      else let s = \<lparr>se_ID = gen_uuid env, se_UserID = userID, se_TokenHash = tokenHash, se_IpAddress = ipAddress,
                    se_UserAgent = userAgent, se_ExpiresAt = expiresAt, se_LastSeenAt = Some (now env),
                    se_RevokedAt = None, se_CreatedAt = now env\<rparr>
           in commit env pg ''CreateSession'' d (d\<lparr>sessions := sessions d @ [s]\<rparr>) (Inr s))"

definition GetSessionByID :: "call_env \<Rightarrow> uuid \<Rightarrow> db \<Rightarrow> session result" where
  "GetSessionByID env sid d =
     select_one env ''GetSessionByID'' (\<lambda>s. se_ID s = sid \<and> live_session env d s) (sessions d)"

definition GetSessionByTokenHash :: "call_env \<Rightarrow> string \<Rightarrow> db \<Rightarrow> session result" where
  "GetSessionByTokenHash env tokenHash d =
     select_one env ''GetSessionByTokenHash'' (\<lambda>s. se_TokenHash s = tokenHash \<and> live_session env d s) (sessions d)"

text \<open>\<open>ORDER BY last_seen_at DESC NULLS LAST\<close>\<close>

definition ListSessionsByUserID :: "call_env \<Rightarrow> uuid \<Rightarrow> db \<Rightarrow> session list result" where
  "ListSessionsByUserID env userID d =
     (case down env ''ListSessionsByUserID'' of
        Some err \<Rightarrow> Inl err
      | None \<Rightarrow>
          let rows = filter (\<lambda>s. se_UserID s = userID \<and> live_session env d s) (sessions d)
          in Inr (sort_key (\<lambda>s. case se_LastSeenAt s of Some x \<Rightarrow> - x | None \<Rightarrow> 0) (filter (\<lambda>s. se_LastSeenAt s \<noteq> None) rows)
                  @ filter (\<lambda>s. se_LastSeenAt s = None) rows))"

definition RevokeSession :: "call_env \<Rightarrow> pg \<Rightarrow> uuid \<Rightarrow> uuid \<Rightarrow> db \<Rightarrow> error option \<times> db" where
  "RevokeSession env pg sid userID d =
     exec_stmt env pg ''RevokeSession'' d
       (d\<lparr>sessions := update_where (\<lambda>s. se_ID s = sid \<and> se_UserID s = userID \<and> se_RevokedAt s = None)
            (\<lambda>s. s\<lparr>se_RevokedAt := Some (now env)\<rparr>) (sessions d)\<rparr>)"

definition RevokeUserSessions :: "call_env \<Rightarrow> pg \<Rightarrow> uuid \<Rightarrow> db \<Rightarrow> error option \<times> db" where
  "RevokeUserSessions env pg userID d =
     exec_stmt env pg ''RevokeUserSessions'' d
       (d\<lparr>sessions := update_where (\<lambda>s. se_UserID s = userID \<and> se_RevokedAt s = None)
            (\<lambda>s. s\<lparr>se_RevokedAt := Some (now env)\<rparr>) (sessions d)\<rparr>)"

definition TouchSession :: "call_env \<Rightarrow> pg \<Rightarrow> uuid \<Rightarrow> uuid \<Rightarrow> db \<Rightarrow> error option \<times> db" where
  "TouchSession env pg sid userID d =
     exec_stmt env pg ''TouchSession'' d
       (d\<lparr>sessions := update_where (\<lambda>s. se_ID s = sid \<and> se_UserID s = userID \<and> after (se_ExpiresAt s) (now env)
              \<and> se_RevokedAt s = None
              \<and> (case se_LastSeenAt s of None \<Rightarrow> True | Some x \<Rightarrow> x < now env - 300000000))
            (\<lambda>s. s\<lparr>se_LastSeenAt := Some (now env)\<rparr>) (sessions d)\<rparr>)"

section \<open>personal\_access\_tokens\<close>

definition CreateToken ::
  "call_env \<Rightarrow> pg \<Rightarrow> uuid \<Rightarrow> string \<Rightarrow> string \<Rightarrow> string \<Rightarrow> string list \<Rightarrow> time option \<Rightarrow> db \<Rightarrow> access_token result \<times> db" where
  "CreateToken env pg userID name tokenHash tokenPrefix scopes expiresAt d =
     (let t = \<lparr>pt_ID = gen_uuid env, pt_UserID = userID, pt_Name = name, pt_TokenHash = tokenHash,
               pt_TokenPrefix = tokenPrefix, pt_Scopes = scopes, pt_ExpiresAt = expiresAt, pt_LastUsedAt = None,
               pt_CreatedAt = now env\<rparr>
      in commit env pg ''CreateToken'' d (d\<lparr>access_tokens := access_tokens d @ [t]\<rparr>) (Inr t))"

definition GetTokenByHash :: "call_env \<Rightarrow> string \<Rightarrow> db \<Rightarrow> access_token result" where
  "GetTokenByHash env tokenHash d =
     select_one env ''GetTokenByHash''
       (\<lambda>t. pt_TokenHash t = tokenHash \<and> (pt_ExpiresAt t = None \<or> after (pt_ExpiresAt t) (now env))) (access_tokens d)"

record list_token_row =
  lt_ID :: uuid
  lt_Name :: string
  lt_TokenPrefix :: string
  lt_Scopes :: "string list"
  lt_ExpiresAt :: "time option"
  lt_LastUsedAt :: "time option"
  lt_CreatedAt :: time

definition ListTokensByUser :: "call_env \<Rightarrow> uuid \<Rightarrow> db \<Rightarrow> list_token_row list result" where
  "ListTokensByUser env userID d =
     (case down env ''ListTokensByUser'' of
        Some err \<Rightarrow> Inl err
      | None \<Rightarrow>
          Inr (map (\<lambda>t. \<lparr>lt_ID = pt_ID t, lt_Name = pt_Name t, lt_TokenPrefix = pt_TokenPrefix t, lt_Scopes = pt_Scopes t,
                         lt_ExpiresAt = pt_ExpiresAt t, lt_LastUsedAt = pt_LastUsedAt t, lt_CreatedAt = pt_CreatedAt t\<rparr>)
                 (sort_key (\<lambda>t. - pt_CreatedAt t) (filter (\<lambda>t. pt_UserID t = userID) (access_tokens d)))))"

definition RevokeToken :: "call_env \<Rightarrow> pg \<Rightarrow> uuid \<Rightarrow> uuid \<Rightarrow> db \<Rightarrow> error option \<times> db" where
  "RevokeToken env pg tid userID d =
     exec_stmt env pg ''RevokeToken'' d
       (d\<lparr>access_tokens := filter (\<lambda>t. \<not> (pt_ID t = tid \<and> pt_UserID t = userID)) (access_tokens d)\<rparr>)"

definition TouchToken :: "call_env \<Rightarrow> pg \<Rightarrow> uuid \<Rightarrow> db \<Rightarrow> error option \<times> db" where
  "TouchToken env pg tid d =
     exec_stmt env pg ''TouchToken'' d
       (d\<lparr>access_tokens := update_where (\<lambda>t. pt_ID t = tid
              \<and> (case pt_LastUsedAt t of None \<Rightarrow> True | Some x \<Rightarrow> x < now env - 60000000))
            (\<lambda>t. t\<lparr>pt_LastUsedAt := Some (now env)\<rparr>) (access_tokens d)\<rparr>)"

section \<open>team\_access\_tokens\<close>

definition team_admin :: "db \<Rightarrow> uuid \<Rightarrow> uuid \<Rightarrow> bool" where
  "team_admin d teamID userID \<longleftrightarrow>
     list_ex (\<lambda>m. tm_TeamID m = teamID \<and> tm_UserID m = userID \<and> tm_Role m \<in> set [''owner'', ''admin'']) (team_members d)"

definition in_team :: "db \<Rightarrow> uuid \<Rightarrow> uuid \<Rightarrow> bool" where
  "in_team d teamID userID \<longleftrightarrow> list_ex (\<lambda>m. tm_TeamID m = teamID \<and> tm_UserID m = userID) (team_members d)"

definition CreateTeamToken ::
  "call_env \<Rightarrow> pg \<Rightarrow> uuid \<Rightarrow> string \<Rightarrow> string \<Rightarrow> string \<Rightarrow> string list \<Rightarrow> time option \<Rightarrow> uuid \<Rightarrow> db \<Rightarrow> team_token result \<times> db" where
  "CreateTeamToken env pg teamID name tokenHash tokenPrefix scopes expiresAt createdBy d =
     (if \<not> team_admin d teamID createdBy
      then commit env pg ''CreateTeamToken'' d d (Inl ErrNoRows)
      else let t = \<lparr>tt_ID = gen_uuid env, tt_TeamID = teamID, tt_Name = name, tt_TokenHash = tokenHash,
                    tt_TokenPrefix = tokenPrefix, tt_Scopes = scopes, tt_ExpiresAt = expiresAt, tt_LastUsedAt = None,
                    tt_CreatedBy = Some createdBy, tt_CreatedAt = now env\<rparr>
           in commit env pg ''CreateTeamToken'' d (d\<lparr>team_tokens := team_tokens d @ [t]\<rparr>) (Inr t))"

record team_token_row =
  lr_ID :: uuid
  lr_Name :: string
  lr_TokenPrefix :: string
  lr_Scopes :: "string list"
  lr_ExpiresAt :: "time option"
  lr_LastUsedAt :: "time option"
  lr_CreatedBy :: "uuid option"
  lr_CreatedAt :: time

definition ListTeamTokens :: "call_env \<Rightarrow> uuid \<Rightarrow> uuid \<Rightarrow> db \<Rightarrow> team_token_row list result" where
  "ListTeamTokens env teamID userID d =
     (case down env ''ListTeamTokens'' of
        Some err \<Rightarrow> Inl err
      | None \<Rightarrow>
          Inr (map (\<lambda>t. \<lparr>lr_ID = tt_ID t, lr_Name = tt_Name t, lr_TokenPrefix = tt_TokenPrefix t, lr_Scopes = tt_Scopes t,
                         lr_ExpiresAt = tt_ExpiresAt t, lr_LastUsedAt = tt_LastUsedAt t, lr_CreatedBy = tt_CreatedBy t,
                         lr_CreatedAt = tt_CreatedAt t\<rparr>)
                 (sort_key (\<lambda>t. - tt_CreatedAt t)
                   (filter (\<lambda>t. tt_TeamID t = teamID \<and> in_team d (tt_TeamID t) userID) (team_tokens d)))))"

text \<open>\<open>:execrows\<close>: the number of deleted rows.\<close>

definition RevokeTeamToken :: "call_env \<Rightarrow> pg \<Rightarrow> uuid \<Rightarrow> uuid \<Rightarrow> uuid \<Rightarrow> db \<Rightarrow> int result \<times> db" where
  "RevokeTeamToken env pg tid teamID userID d =
     (let P = (\<lambda>t. tt_ID t = tid \<and> tt_TeamID t = teamID \<and> team_admin d (tt_TeamID t) userID)
      in commit env pg ''RevokeTeamToken'' d (d\<lparr>team_tokens := filter (\<lambda>t. \<not> P t) (team_tokens d)\<rparr>)
           (Inr (int (length (filter P (team_tokens d))))))"

section \<open>Lemmas\<close>

named_theorems query_defs "queries, unfolded to statements"

lemmas [query_defs] =
  CreateUser_def DisableUser_def GetUserByEmail_def GetUserByID_def update_user_def MarkUserEmailVerified_def
  SetUserPassword_def UpdateUserProfile_def CreateAuthTransaction_def DeleteExpiredAuthTransactions_def
  ExpireAuthTransaction_def GetAuthTransactionByID_def update_tx_def MarkAuthTransactionAuthenticated_def
  SetAuthTransactionMethod_def SetAuthTransactionState_def SetAuthTransactionUser_def update_ch_def
  ConsumeAuthChallenge_def CreateAuthChallenge_def DeleteExpiredAuthChallenges_def GetActiveAuthChallenge_def
  IncrementAuthChallengeAttempts_def CreateSession_def GetSessionByID_def GetSessionByTokenHash_def
  RevokeSession_def RevokeUserSessions_def TouchSession_def CreateToken_def GetTokenByHash_def RevokeToken_def
  TouchToken_def CreateTeamToken_def RevokeTeamToken_def

lemma filter_ConsD: "filter P rows = r # rs \<Longrightarrow> r \<in> set rows \<and> P r"
  by (drule arg_cong [of _ _ set]) auto

lemma select_one_Inr: "select_one env name P rows = Inr r \<Longrightarrow> r \<in> set rows \<and> P r"
  by (auto simp: select_one_def dest: filter_ConsD split: option.splits list.splits)

lemma select_one_unique:
  assumes "down env name = None" "r \<in> set rows" "P r" "\<And>r'. r' \<in> set rows \<Longrightarrow> P r' \<Longrightarrow> r' = r"
  shows "select_one env name P rows = Inr r"
proof -
  have "r \<in> set (filter P rows)" using assms(2,3) by simp
  then obtain r' rs where "filter P rows = r' # rs" by (cases "filter P rows") auto
  moreover then have "r' \<in> set rows" "P r'" by (auto dest: filter_ConsD)
  ultimately show ?thesis using assms(1,4) by (simp add: select_one_def)
qed

lemma select_one_none: "(\<And>r. r \<in> set rows \<Longrightarrow> \<not> P r) \<Longrightarrow> \<exists>e. select_one env name P rows = Inl e"
  by (simp add: select_one_def filter_False split: option.split)

lemma commit_cases:
  obtains (kept) e where "commit env pg name d d' r = (Inl e, d)"
  | (written) "commit env pg name d d' r = (r, d')" "schema_ok pg d'" "down env name = None"
  by (cases "down env name"; cases "schema_ok pg d'") (auto simp: commit_def)

lemma commit_schema: "schema_ok pg d \<Longrightarrow> schema_ok pg (snd (commit env pg name d d' r))"
  by (auto simp: commit_def split: option.split)

lemma exec_schema: "schema_ok pg d \<Longrightarrow> schema_ok pg (snd (exec_stmt env pg name d d'))"
  using commit_schema [of pg d env name d' "Inr ()"]
  by (auto simp: exec_stmt_def as_exec_def split: prod.splits sum.splits)

lemma exec_cases:
  obtains (kept) e where "exec_stmt env pg name d d' = (Some e, d)"
  | (written) "exec_stmt env pg name d d' = (None, d')" "schema_ok pg d'" "down env name = None"
  by (cases "down env name"; cases "schema_ok pg d'") (auto simp: exec_stmt_def as_exec_def commit_def)

text \<open>A statement keeps what both the old and the new tables satisfy.\<close>

lemma commit_keeps: "Q d \<Longrightarrow> Q d' \<Longrightarrow> Q (snd (commit env pg name d d' r))"
  by (cases rule: commit_cases [of env pg name d d' r]) simp_all

lemma exec_keeps: "Q d \<Longrightarrow> Q d' \<Longrightarrow> Q (snd (exec_stmt env pg name d d'))"
  by (cases rule: exec_cases [of env pg name d d']) simp_all

end
