(* ===== verification/Auth_Service.thy ===== *)
theory Auth_Service
  imports Queries
begin

text \<open>
  \<open>internal/identity/auth\<close>: sign-in transactions, passwords and one-time codes. SHA-256 and
  Argon2 are arguments (\<open>sha\<close>, \<open>argon2\<close>), as are the Unicode case tables (\<open>ul\<close>). \<open>rand_Read\<close> fills a
  buffer of the requested length or fails. The comparison \<open>subtle.ConstantTimeCompare\<close> is equality.
\<close>

section \<open>Validation\<close>

definition minPasswordLength :: nat where "minPasswordLength = 8"
definition maxPasswordLength :: nat where "maxPasswordLength = 128"
definition otpCodeLength :: nat where "otpCodeLength = 6"

definition ValidateStart :: "string \<Rightarrow> error option" where
  "ValidateStart email =
     (let email = TrimSpace email
      in if email = [] then Some (NewBadRequest ''email is required'')
         else if 254 < RuneCountInString email then Some (NewBadRequest ''email is too long'')
         else None)"

definition validatePassword :: "string \<Rightarrow> error option" where
  "validatePassword password =
     (let len = RuneCountInString password
      in if len < minPasswordLength then Some (NewBadRequest ''password must be at least 8 characters'')
         else if maxPasswordLength < len then Some (NewBadRequest ''password must not exceed 128 characters'')
         else None)"

definition ValidatePasswordLogin :: "string \<Rightarrow> string \<Rightarrow> error option" where
  "ValidatePasswordLogin transactionID password =
     (if TrimSpace transactionID = [] then Some (NewBadRequest ''transaction_id is required'')
      else if password = [] then Some (NewBadRequest ''password is required'')
      else validatePassword password)"

definition ValidateSendOTP :: "string \<Rightarrow> error option" where
  "ValidateSendOTP transactionID =
     (if TrimSpace transactionID = [] then Some (NewBadRequest ''transaction_id is required'') else None)"

definition ValidateVerifyOTP :: "string \<Rightarrow> string \<Rightarrow> error option" where
  "ValidateVerifyOTP transactionID cd =
     (if TrimSpace transactionID = [] then Some (NewBadRequest ''transaction_id is required'')
      else let cd = TrimSpace cd
           in if cd = [] then Some (NewBadRequest ''code is required'')
              else if length cd \<noteq> otpCodeLength then Some (NewBadRequest ''code must be 6 digits'')
              else if list_ex (\<lambda>(r, _). r < 48 \<or> 57 < r) (runes cd)
              then Some (NewBadRequest ''code must contain only digits'')
              else None)"

definition ValidateSetPassword :: "string \<Rightarrow> error option" where
  "ValidateSetPassword password =
     (if password = [] then Some (NewBadRequest ''password is required'') else validatePassword password)"

section \<open>Secrets\<close>

definition authTransactionTTL :: time where "authTransactionTTL = 600000000"
definition authChallengeTTL :: time where "authChallengeTTL = 600000000"
definition otpLength :: nat where "otpLength = 6"
definition otpMaxAttempts :: int where "otpMaxAttempts = 5"

definition rand_Read :: "call_env \<Rightarrow> nat \<Rightarrow> byte list result" where
  "rand_Read env n = (case rand env n of Inl err \<Rightarrow> Inl err | Inr bs \<Rightarrow> Inr (take n (bs @ replicate n 0)))"

type_synonym kdf = "byte list \<Rightarrow> byte list \<Rightarrow> nat \<Rightarrow> nat \<Rightarrow> nat \<Rightarrow> nat \<Rightarrow> byte list"

definition hashPassword :: "call_env \<Rightarrow> kdf \<Rightarrow> string \<Rightarrow> string result" where
  "hashPassword env argon2 password =
     (case rand_Read env 16 of
        Inl err \<Rightarrow> Inl (NewInternal ''failed to generate password salt'' (Some err))
      | Inr salt \<Rightarrow>
          let hash = argon2 (bytes_of password) salt 3 (64 * 1024) 4 32
          in Inr (''argon2id$v=19$m=65536,t=3,p=4$'' @ hex_encode salt @ ''$'' @ hex_encode hash))"

definition verifyPassword :: "kdf \<Rightarrow> string \<Rightarrow> string \<Rightarrow> bool" where
  "verifyPassword argon2 password encoded =
     (let parts = split_on (CHR ''$'') encoded
      in if length parts \<noteq> 5 then False
         else if parts ! 0 \<noteq> ''argon2id'' then False
         else case hex_decode (parts ! 3) of
                None \<Rightarrow> False
              | Some salt \<Rightarrow>
                  (case hex_decode (parts ! 4) of
                     None \<Rightarrow> False
                   | Some expected \<Rightarrow> argon2 (bytes_of password) salt 3 (64 * 1024) 4 32 = expected))"

text \<open>The verb \<open>%0*d\<close>: decimal digits with leading zeros up to a width.\<close>

definition pad_zero :: "nat \<Rightarrow> nat \<Rightarrow> string" where
  "pad_zero w n = replicate (w - length (nat_str n)) (CHR ''0'') @ nat_str n"

definition be32 :: "byte list \<Rightarrow> 32 word" where
  "be32 b = or (or (or (push_bit 24 (ucast (b ! 0))) (push_bit 16 (ucast (b ! 1)))) (push_bit 8 (ucast (b ! 2)))) (ucast (b ! 3))"

definition generateOTP :: "call_env \<Rightarrow> string result" where
  "generateOTP env =
     (case rand_Read env 4 of
        Inl err \<Rightarrow> Inl err
      | Inr buffer \<Rightarrow> let val = be32 buffer mod 1000000 in Inr (pad_zero otpLength (unat val)))"

definition hashToken :: "(byte list \<Rightarrow> byte list) \<Rightarrow> string \<Rightarrow> string" where
  "hashToken sha token = hex_encode (sha (bytes_of token))"

definition normalizeEmail :: "(string \<Rightarrow> string) \<Rightarrow> string \<Rightarrow> string" where
  "normalizeEmail ul email = ToLower ul (TrimSpace email)"

section \<open>The service\<close>

definition auth_Start :: "call_env \<Rightarrow> pg \<Rightarrow> (string \<Rightarrow> string) \<Rightarrow> string \<Rightarrow> db \<Rightarrow> auth_transaction result \<times> db" where
  "auth_Start env pg ul email d =
     (let email = normalizeEmail ul email
      in if email = [] then (Inl (NewBadRequest ''email is required''), d)
         else case GetUserByEmail env pg email d of
                Inl err \<Rightarrow> (Inl err, d)
              | Inr user \<Rightarrow>
                  CreateAuthTransaction env pg email (Some (u_ID user))
                    (NullableTimestamptz (Some (wall env + authTransactionTTL))) d)"

definition getValidTransaction :: "call_env \<Rightarrow> pg \<Rightarrow> uuid \<Rightarrow> db \<Rightarrow> auth_transaction result \<times> db" where
  "getValidTransaction env pg tid d =
     (if tid = uuid_Nil then (Inl (NewBadRequest ''invalid transaction_id''), d)
      else case GetAuthTransactionByID env tid d of
             Inl _ \<Rightarrow> (Inl (NewUnauthorized ''invalid authentication transaction''), d)
           | Inr transaction \<Rightarrow>
               if tx_ExpiresAt transaction \<noteq> None \<and> TimestamptzToTime (tx_ExpiresAt transaction) < wall env
               then (Inl (NewUnauthorized ''authentication transaction has expired''),
                     snd (ExpireAuthTransaction env pg tid d))
               else (Inr transaction, d))"

definition LoginWithPassword :: "call_env \<Rightarrow> pg \<Rightarrow> kdf \<Rightarrow> uuid \<Rightarrow> string \<Rightarrow> db \<Rightarrow> user result \<times> db" where
  "LoginWithPassword env pg argon2 tid password d =
     (case getValidTransaction env pg tid d of
        (Inl err, d) \<Rightarrow> (Inl err, d)
      | (Inr transaction, d) \<Rightarrow>
     (case tx_UserID transaction of
        None \<Rightarrow> (Inl (NewUnauthorized ''invalid credentials''), d)
      | Some uid \<Rightarrow>
     (case GetUserByID env uid d of
        Inl _ \<Rightarrow> (Inl (NewUnauthorized ''invalid credentials''), d)
      | Inr user \<Rightarrow>
          if u_DisabledAt user \<noteq> None then (Inl (NewUnauthorized ''account is disabled''), d)
          else if u_PasswordHash user = None \<or> u_PasswordHash user = Some []
          then (Inl (NewBadRequest ''password is not enrolled''), d)
          else if \<not> verifyPassword argon2 password (the (u_PasswordHash user))
          then (Inl (NewUnauthorized ''invalid credentials''), d)
          else (case MarkAuthTransactionAuthenticated env pg tid d of
                  (Inl err, d) \<Rightarrow> (Inl err, d)
                | (Inr _, d) \<Rightarrow> (Inr user, d)))))"

definition SetPassword :: "call_env \<Rightarrow> pg \<Rightarrow> kdf \<Rightarrow> uuid \<Rightarrow> string \<Rightarrow> db \<Rightarrow> user result \<times> db" where
  "SetPassword env pg argon2 uid password d =
     (if uid = uuid_Nil then (Inl (NewUnauthorized ''authentication required''), d)
      else case hashPassword env argon2 password of
             Inl err \<Rightarrow> (Inl err, d)
           | Inr hash \<Rightarrow> SetUserPassword env pg (Some hash) uid d)"

definition SendOTP :: "call_env \<Rightarrow> pg \<Rightarrow> (byte list \<Rightarrow> byte list) \<Rightarrow> uuid \<Rightarrow> db \<Rightarrow> string result \<times> db" where
  "SendOTP env pg sha tid d =
     (case getValidTransaction env pg tid d of
        (Inl err, d) \<Rightarrow> (Inl err, d)
      | (Inr transaction, d) \<Rightarrow>
     (case generateOTP env of
        Inl err \<Rightarrow> (Inl (NewInternal ''failed to generate authentication code'' (Some err)), d)
      | Inr cd \<Rightarrow>
     (case CreateAuthChallenge env pg (Some tid) (tx_Identifier transaction) (hashToken sha cd) ''otp'' None otpMaxAttempts
             (NullableTimestamptz (Some (wall env + authChallengeTTL))) d of
        (Inl err, d) \<Rightarrow> (Inl err, d)
      | (Inr _, d) \<Rightarrow> (Inr cd, d))))"

definition getOrCreateOTPUser :: "call_env \<Rightarrow> pg \<Rightarrow> (string \<Rightarrow> string) \<Rightarrow> auth_transaction \<Rightarrow> db \<Rightarrow> user result \<times> db" where
  "getOrCreateOTPUser env pg ul transaction d =
     (case tx_UserID transaction of
        Some uid \<Rightarrow> (GetUserByID env uid d, d)
      | None \<Rightarrow>
          let email = normalizeEmail ul (tx_Identifier transaction)
          in if email = [] then (Inl (NewBadRequest ''authentication identifier is missing''), d)
             else CreateUser env pg None email None d)"

text \<open>From the consumed challenge to the result of \<open>VerifyOTP\<close>.\<close>

definition complete_otp :: "call_env \<Rightarrow> pg \<Rightarrow> (string \<Rightarrow> string) \<Rightarrow> uuid \<Rightarrow> auth_transaction \<Rightarrow> db \<Rightarrow> user result \<times> db" where
  "complete_otp env pg ul tid transaction d =
     (case getOrCreateOTPUser env pg ul transaction d of
        (Inl err, d) \<Rightarrow> (Inl err, d)
      | (Inr user, d) \<Rightarrow>
          if u_DisabledAt user \<noteq> None then (Inl (NewUnauthorized ''account is disabled''), d)
          else (case MarkUserEmailVerified env pg (u_ID user) d of
                  (Inl err, d) \<Rightarrow> (Inl err, d)
                | (Inr _, d) \<Rightarrow>
                    (case MarkAuthTransactionAuthenticated env pg tid d of
                       (Inl err, d) \<Rightarrow> (Inl err, d)
                     | (Inr _, d) \<Rightarrow> (Inr user, d))))"

definition VerifyOTP ::
  "call_env \<Rightarrow> pg \<Rightarrow> (string \<Rightarrow> string) \<Rightarrow> (byte list \<Rightarrow> byte list) \<Rightarrow> uuid \<Rightarrow> string \<Rightarrow> db \<Rightarrow> user result \<times> db" where
  "VerifyOTP env pg ul sha tid cd d =
     (case getValidTransaction env pg tid d of
        (Inl err, d) \<Rightarrow> (Inl err, d)
      | (Inr transaction, d) \<Rightarrow>
     (case GetActiveAuthChallenge env (Some tid) ''otp'' d of
        Inl _ \<Rightarrow> (Inl (NewUnauthorized ''invalid or expired authentication code''), d)
      | Inr challenge \<Rightarrow>
          if ch_ConsumedAt challenge \<noteq> None then (Inl (NewUnauthorized ''authentication code has already been used''), d)
          else if TimestamptzToTime (ch_ExpiresAt challenge) < wall env
          then (Inl (NewUnauthorized ''authentication code has expired''), d)
          else if otpMaxAttempts \<le> ch_Attempts challenge
          then (Inl (NewUnauthorized ''too many authentication attempts''), d)
          else if hashToken sha (TrimSpace cd) \<noteq> ch_SecretHash challenge
          then (Inl (NewUnauthorized ''invalid authentication code''),
                snd (IncrementAuthChallengeAttempts env pg (ch_ID challenge) d))
          else (case ConsumeAuthChallenge env pg (ch_ID challenge) d of
                  (Inl err, d) \<Rightarrow> (Inl err, d)
                | (Inr _, d) \<Rightarrow> complete_otp env pg ul tid transaction d)))"

text \<open>What \<open>LoginWithPassword\<close> accepts.\<close>

definition may_login :: "call_env \<Rightarrow> kdf \<Rightarrow> uuid \<Rightarrow> string \<Rightarrow> db \<Rightarrow> user \<Rightarrow> bool" where
  "may_login env argon2 tid password d user \<longleftrightarrow>
     tid \<noteq> uuid_Nil \<and> user \<in> set (users d) \<and> u_DisabledAt user = None
     \<and> (\<exists>h. u_PasswordHash user = Some h \<and> h \<noteq> [] \<and> verifyPassword argon2 password h)
     \<and> (\<exists>t \<in> set (auth_transactions d). live_tx env tid t \<and> tx_UserID t = Some (u_ID user)
          \<and> wall env \<le> the (tx_ExpiresAt t))"

text \<open>One call of the service, whatever surrounds it.\<close>

inductive auth_step :: "pg \<Rightarrow> kdf \<Rightarrow> (string \<Rightarrow> string) \<Rightarrow> (byte list \<Rightarrow> byte list) \<Rightarrow> db \<Rightarrow> db \<Rightarrow> bool"
  for pg argon2 ul sha where
  start: "auth_step pg argon2 ul sha d (snd (auth_Start env pg ul email d))"
| login: "auth_step pg argon2 ul sha d (snd (LoginWithPassword env pg argon2 tid password d))"
| enrol: "auth_step pg argon2 ul sha d (snd (SetPassword env pg argon2 uid password d))"
| send: "auth_step pg argon2 ul sha d (snd (SendOTP env pg sha tid d))"
| verify: "auth_step pg argon2 ul sha d (snd (VerifyOTP env pg ul sha tid cd d))"

text \<open>A transaction that exists and is no longer open.\<close>

definition closed_tx :: "uuid \<Rightarrow> db \<Rightarrow> bool" where
  "closed_tx tid d \<longleftrightarrow> tid \<in> tx_ID ` set (auth_transactions d)
     \<and> (\<forall>t \<in> set (auth_transactions d). tx_ID t = tid \<longrightarrow> \<not> open_tx t)"

definition keeps_closed :: "pg \<Rightarrow> uuid \<Rightarrow> db \<Rightarrow> db \<Rightarrow> bool" where
  "keeps_closed pg tid d d' \<longleftrightarrow> (schema_ok pg d \<and> closed_tx tid d \<longrightarrow> schema_ok pg d' \<and> closed_tx tid d')"

text \<open>A database with one user and one open transaction, for the examples.\<close>

definition demo_pg :: pg where "demo_pg = \<lparr>pg_lower = (\<lambda>s. s), pg_json_object = (\<lambda>_. True)\<rparr>"

definition demo_call :: call_env where
  "demo_call = \<lparr>wall = 100, now = 100, gen_uuid = 9, rand = (\<lambda>_. Inr []), down = (\<lambda>_. None)\<rparr>"

definition demo_kdf :: kdf where "demo_kdf p s a b c e = []"

definition demo_db :: db where
  "demo_db =
     \<lparr>users = [\<lparr>u_ID = 1, u_Email = ''a@b.c'', u_EmailVerified = True, u_Name = None,
                u_PasswordHash = Some ''argon2id$v=19$m=65536,t=3,p=4$$'', u_DisabledAt = None, u_CreatedAt = 0, u_UpdatedAt = 0\<rparr>],
      auth_transactions = [\<lparr>tx_ID = 2, tx_Identifier = ''a@b.c'', tx_UserID = Some 1, tx_State = ''started'',
                            tx_SelectedMethod = None, tx_ExpiresAt = Some 600, tx_CreatedAt = 50, tx_UpdatedAt = 50\<rparr>],
      auth_challenges = [], sessions = [], access_tokens = [], teams = [7], team_members = [\<lparr>tm_TeamID = 7, tm_UserID = 1, tm_Role = ''owner''\<rparr>],
      team_tokens = []\<rparr>"

section \<open>Lemmas\<close>

lemma getValidTransaction_Inr:
  "getValidTransaction env pg tid d = (Inr t, d') \<Longrightarrow>
   d' = d \<and> tid \<noteq> uuid_Nil \<and> t \<in> set (auth_transactions d) \<and> live_tx env tid t
   \<and> wall env \<le> TimestamptzToTime (tx_ExpiresAt t)"
  using select_one_Inr [of env "''GetAuthTransactionByID''" "live_tx env tid" "auth_transactions d" t]
  by (auto simp: getValidTransaction_def GetAuthTransactionByID_def live_tx_def after_def
      split: if_splits sum.splits option.splits)

lemma schema_tx_unique:
  "schema_ok pg d \<Longrightarrow> t \<in> set (auth_transactions d) \<Longrightarrow> t' \<in> set (auth_transactions d) \<Longrightarrow> tx_ID t = tx_ID t' \<Longrightarrow> t = t'"
  by (auto simp: schema_ok_def transactions_ok_def distinct_map dest: inj_onD)

lemma schema_user_unique:
  "schema_ok pg d \<Longrightarrow> u \<in> set (users d) \<Longrightarrow> u' \<in> set (users d) \<Longrightarrow> u_ID u = u_ID u' \<Longrightarrow> u = u'"
  by (auto simp: schema_ok_def users_ok_def distinct_map dest: inj_onD)

text \<open>A change of state or of the time of change keeps the constraints.\<close>

lemma schema_tx_state:
  assumes "schema_ok pg d" and "st \<in> set tx_states"
  shows "schema_ok pg (d\<lparr>auth_transactions := update_where P (\<lambda>t. t\<lparr>tx_State := st, tx_UpdatedAt := n\<rparr>) (auth_transactions d)\<rparr>)"
proof -
  let ?ts = "update_where P (\<lambda>t. t\<lparr>tx_State := st, tx_UpdatedAt := n\<rparr>) (auth_transactions d)"
  have ids: "map tx_ID ?ts = map tx_ID (auth_transactions d)" by (rule update_where_keeps) simp
  have "list_all (tx_row_ok (map u_ID (users d))) ?ts"
    using assms by (auto simp: schema_ok_def transactions_ok_def list_all_iff update_where_def tx_row_ok_def)
  then have "transactions_ok (d\<lparr>auth_transactions := ?ts\<rparr>)"
    using ids assms(1) by (simp add: transactions_ok_def schema_ok_def)
  moreover have "challenges_ok pg (d\<lparr>auth_transactions := ?ts\<rparr>) = challenges_ok pg d"
    using ids by (simp add: challenges_ok_def)
  ultimately show ?thesis using assms(1) by (simp add: schema_ok_def)
qed

lemma getValidTransaction_ok:
  assumes "schema_ok pg d" and "down env = (\<lambda>_. None)" and "tid \<noteq> uuid_Nil"
    and "t \<in> set (auth_transactions d)" and "live_tx env tid t" and "wall env \<le> the (tx_ExpiresAt t)"
  shows "getValidTransaction env pg tid d = (Inr t, d)"
proof -
  have "GetAuthTransactionByID env tid d = Inr t"
    unfolding GetAuthTransactionByID_def
  proof (rule select_one_unique)
    fix t' assume "t' \<in> set (auth_transactions d)" "live_tx env tid t'"
    then show "t' = t" using schema_tx_unique [OF assms(1) _ assms(4), of t'] assms(5) by (simp add: live_tx_def)
  qed (use assms in simp_all)
  then show ?thesis
    using assms(3,5,6) by (auto simp: getValidTransaction_def live_tx_def after_def TimestamptzToTime_def split: option.splits)
qed

lemma GetUserByID_ok:
  assumes "schema_ok pg d" and "down env = (\<lambda>_. None)" and "u \<in> set (users d)" and "live_user uid u"
  shows "GetUserByID env uid d = Inr u"
  unfolding GetUserByID_def
proof (rule select_one_unique)
  fix u' assume "u' \<in> set (users d)" "live_user uid u'"
  then show "u' = u" using schema_user_unique [OF assms(1) _ assms(3), of u'] assms(4) by (simp add: live_user_def)
qed (use assms in simp_all)

lemma mark_authenticated_ok:
  assumes "schema_ok pg d" and "down env = (\<lambda>_. None)" and "t \<in> set (auth_transactions d)" and "live_tx env tid t"
  shows "\<exists>t'. MarkAuthTransactionAuthenticated env pg tid d = (Inr t', d\<lparr>auth_transactions :=
    update_where (\<lambda>t. tx_ID t = tid \<and> after (tx_ExpiresAt t) (now env) \<and> tx_State t \<noteq> ''expired'')
      (\<lambda>t. t\<lparr>tx_State := ''authenticated'', tx_UpdatedAt := now env\<rparr>) (auth_transactions d)\<rparr>)"
proof -
  let ?P = "\<lambda>t. tx_ID t = tid \<and> after (tx_ExpiresAt t) (now env) \<and> tx_State t \<noteq> ''expired''"
  have "t \<in> set (filter ?P (auth_transactions d))" using assms(3,4) by (auto simp: live_tx_def open_tx_def)
  then obtain t0 ts where "filter ?P (auth_transactions d) = t0 # ts" by (cases "filter ?P (auth_transactions d)") auto
  then show ?thesis
    using assms(2) schema_tx_state [OF assms(1), of "''authenticated''" ?P "now env"]
    by (simp add: MarkAuthTransactionAuthenticated_def update_tx_def commit_def returning_def tx_states_def)
qed

lemma login_sound:
  assumes "LoginWithPassword env pg argon2 tid password d = (Inr user, d')"
  shows "may_login env argon2 tid password d user \<and> (\<exists>r. MarkAuthTransactionAuthenticated env pg tid d = (Inr r, d'))"
proof -
  obtain t where t: "getValidTransaction env pg tid d = (Inr t, d)"
    using assms getValidTransaction_Inr [of env pg tid d]
    by (auto simp: LoginWithPassword_def split: prod.splits sum.splits)
  obtain uid u where u: "tx_UserID t = Some uid" "GetUserByID env uid d = Inr u"
    using assms t by (auto simp: LoginWithPassword_def split: option.splits sum.splits)
  have "u \<in> set (users d)" "u_ID u = uid" "u_DisabledAt u = None"
    using select_one_Inr [OF u(2) [unfolded GetUserByID_def]] by (auto simp: live_user_def)
  moreover have "u = user \<and> (\<exists>h. u_PasswordHash user = Some h \<and> h \<noteq> [] \<and> verifyPassword argon2 password h)
      \<and> (\<exists>r. MarkAuthTransactionAuthenticated env pg tid d = (Inr r, d'))"
    using assms t u by (auto simp: LoginWithPassword_def split: if_splits prod.splits sum.splits)
  moreover have "tid \<noteq> uuid_Nil" "t \<in> set (auth_transactions d)" "live_tx env tid t" "wall env \<le> the (tx_ExpiresAt t)"
    using getValidTransaction_Inr [OF t] by (auto simp: live_tx_def after_def TimestamptzToTime_def split: option.splits)
  ultimately show ?thesis using u by (auto simp: may_login_def)
qed

lemma login_complete:
  assumes "schema_ok pg d" and "down env = (\<lambda>_. None)" and "may_login env argon2 tid password d user"
  shows "fst (LoginWithPassword env pg argon2 tid password d) = Inr user"
proof -
  obtain t h where t: "t \<in> set (auth_transactions d)" "live_tx env tid t" "tx_UserID t = Some (u_ID user)"
      "wall env \<le> the (tx_ExpiresAt t)" "u_PasswordHash user = Some h" "h \<noteq> []" "verifyPassword argon2 password h"
    using assms(3) by (auto simp: may_login_def)
  have "getValidTransaction env pg tid d = (Inr t, d)"
    using assms t by (intro getValidTransaction_ok) (auto simp: may_login_def)
  moreover have "GetUserByID env (u_ID user) d = Inr user"
    using assms by (intro GetUserByID_ok) (auto simp: may_login_def live_user_def)
  ultimately show ?thesis
    using t assms(3) mark_authenticated_ok [OF assms(1,2) t(1,2)] by (auto simp: LoginWithPassword_def may_login_def)
qed

subsection \<open>Closed transactions stay closed\<close>

lemma keeps_closed_refl [simp]: "keeps_closed pg tid d d"
  by (simp add: keeps_closed_def)

lemma keeps_closed_trans: "keeps_closed pg tid d d1 \<Longrightarrow> keeps_closed pg tid d1 d2 \<Longrightarrow> keeps_closed pg tid d d2"
  by (simp add: keeps_closed_def)

lemma keeps_closed_commit:
  "auth_transactions d' = auth_transactions d \<Longrightarrow> keeps_closed pg tid d (snd (commit env pg name d d' r))"
  by (cases rule: commit_cases [of env pg name d d' r]) (auto simp: keeps_closed_def closed_tx_def)

lemma closed_tx_update:
  assumes "\<And>t. tx_ID (f t) = tx_ID t" and "\<And>t. P t \<Longrightarrow> \<not> open_tx t \<Longrightarrow> \<not> open_tx (f t)" and "closed_tx tid d"
  shows "closed_tx tid (d\<lparr>auth_transactions := update_where P f (auth_transactions d)\<rparr>)"
proof -
  have "map tx_ID (update_where P f (auth_transactions d)) = map tx_ID (auth_transactions d)"
    by (rule update_where_keeps) (rule assms(1))
  then have "tx_ID ` set (update_where P f (auth_transactions d)) = tx_ID ` set (auth_transactions d)"
    by (metis set_map)
  moreover have "\<not> open_tx t'" if t': "t' \<in> set (update_where P f (auth_transactions d))" "tx_ID t' = tid" for t'
  proof -
    obtain t where t: "t \<in> set (auth_transactions d)" "t' = (if P t then f t else t)"
      using t'(1) by (rule update_where_mem)
    then have "tx_ID t = tid" using t'(2) assms(1) [of t] by (cases "P t") simp_all
    then have "\<not> open_tx t" using t(1) assms(3) by (simp add: closed_tx_def)
    then show ?thesis using t(2) assms(2) [of t] by (cases "P t") simp_all
  qed
  ultimately show ?thesis using assms(3) by (simp add: closed_tx_def)
qed

lemma keeps_closed_update:
  assumes "\<And>t. tx_ID (f t) = tx_ID t" and "\<And>t. P t \<Longrightarrow> \<not> open_tx t \<Longrightarrow> \<not> open_tx (f t)"
  shows "keeps_closed pg tid d (snd (commit env pg name d (d\<lparr>auth_transactions := update_where P f (auth_transactions d)\<rparr>) r))"
  using closed_tx_update [of f P tid d, OF assms]
  by (cases rule: commit_cases [of env pg name d "d\<lparr>auth_transactions := update_where P f (auth_transactions d)\<rparr>" r])
     (simp_all add: keeps_closed_def)

lemma keeps_closed_exec:
  "keeps_closed pg tid d (snd (commit env pg name d d' (Inr ()))) \<Longrightarrow> keeps_closed pg tid d (snd (exec_stmt env pg name d d'))"
  by (auto simp: exec_stmt_def as_exec_def split: prod.split sum.split)

lemma keeps_closed_queries:
  "keeps_closed pg tid d (snd (CreateUser env pg x0 e p d))"
  "keeps_closed pg tid d (snd (update_user env pg n uid g d))"
  "keeps_closed pg tid d (snd (update_ch env pg n cid h d))"
  "keeps_closed pg tid d (snd (CreateAuthChallenge env pg x1 x2 x3 x4 x5 x6 x7 d))"
  by (auto simp: CreateUser_def update_user_def update_ch_def CreateAuthChallenge_def Let_def intro!: keeps_closed_commit)

lemma keeps_closed_tx_queries:
  "keeps_closed pg tid d (snd (ExpireAuthTransaction env pg tid' d))"
  "keeps_closed pg tid d (snd (MarkAuthTransactionAuthenticated env pg tid' d))"
  by (auto simp: ExpireAuthTransaction_def MarkAuthTransactionAuthenticated_def update_tx_def Let_def open_tx_def
      intro!: keeps_closed_exec keeps_closed_update)

lemmas keeps_closed_all = keeps_closed_queries keeps_closed_tx_queries

lemma keeps_closed_create:
  "keeps_closed pg tid d (snd (CreateAuthTransaction env pg x y z d))"
proof -
  let ?t = "\<lparr>tx_ID = gen_uuid env, tx_Identifier = x, tx_UserID = y, tx_State = ''started'',
    tx_SelectedMethod = None, tx_ExpiresAt = z, tx_CreatedAt = now env, tx_UpdatedAt = now env\<rparr>"
  let ?d = "d\<lparr>auth_transactions := auth_transactions d @ [?t]\<rparr>"
  show ?thesis
  proof (cases rule: commit_cases [of env pg "''CreateAuthTransaction''" d ?d "Inr ?t"])
    case written
    then have "gen_uuid env \<notin> tx_ID ` set (auth_transactions d)" by (simp add: schema_ok_def transactions_ok_def)
    then have "closed_tx tid ?d" if "closed_tx tid d" using that by (auto simp: closed_tx_def)
    with written show ?thesis by (simp add: CreateAuthTransaction_def keeps_closed_def Let_def)
  qed (simp add: CreateAuthTransaction_def Let_def)
qed

lemma keeps_closed_valid: "keeps_closed pg tid d (snd (getValidTransaction env pg tid' d))"
  using keeps_closed_tx_queries(1) [of pg tid d env tid'] by (simp add: getValidTransaction_def split: sum.split)

text \<open>Every service call is a sequence of queries.\<close>

lemma keeps_closed_seq:
  assumes "keeps_closed pg tid d (snd p)" and "\<And>x d1. p = (Inr x, d1) \<Longrightarrow> keeps_closed pg tid d1 (snd (k x d1))"
  shows "keeps_closed pg tid d (snd (case p of (Inl err, d1) \<Rightarrow> (Inl err, d1) | (Inr x, d1) \<Rightarrow> k x d1))"
  using assms by (cases p; cases "fst p") (auto intro: keeps_closed_trans)

lemma keeps_closed_services:
  "keeps_closed pg tid d (snd (auth_Start env pg ul email d))"
  "keeps_closed pg tid d (snd (LoginWithPassword env pg argon2 tid' password d))"
  "keeps_closed pg tid d (snd (SetPassword env pg argon2 uid password d))"
  "keeps_closed pg tid d (snd (SendOTP env pg sha tid' d))"
proof -
  show "keeps_closed pg tid d (snd (auth_Start env pg ul email d))"
    by (simp add: auth_Start_def Let_def keeps_closed_create split: sum.split)
  show "keeps_closed pg tid d (snd (LoginWithPassword env pg argon2 tid' password d))"
    unfolding LoginWithPassword_def
    by (intro keeps_closed_seq keeps_closed_valid)
       (auto intro!: keeps_closed_seq keeps_closed_all split: option.split sum.split)
  show "keeps_closed pg tid d (snd (SetPassword env pg argon2 uid password d))"
    by (simp add: SetPassword_def SetUserPassword_def keeps_closed_all split: sum.split)
  show "keeps_closed pg tid d (snd (SendOTP env pg sha tid' d))"
    unfolding SendOTP_def
    by (intro keeps_closed_seq keeps_closed_valid)
       (auto intro!: keeps_closed_seq keeps_closed_all split: sum.split)
qed

lemma keeps_closed_complete: "keeps_closed pg tid d (snd (complete_otp env pg ul tid' t d))"
proof -
  have "keeps_closed pg tid d (snd (getOrCreateOTPUser env pg ul t d))"
    by (simp add: getOrCreateOTPUser_def keeps_closed_all Let_def split: option.split)
  then show ?thesis
    unfolding complete_otp_def MarkUserEmailVerified_def
    by (rule keeps_closed_seq) (auto intro!: keeps_closed_seq keeps_closed_all)
qed

lemma keeps_closed_verify: "keeps_closed pg tid d (snd (VerifyOTP env pg ul sha tid' cd d))"
  unfolding VerifyOTP_def ConsumeAuthChallenge_def IncrementAuthChallengeAttempts_def
  by (intro keeps_closed_seq keeps_closed_valid)
     (auto intro!: keeps_closed_seq keeps_closed_all keeps_closed_complete split: sum.split)

lemma auth_steps_closed:
  "(auth_step pg argon2 ul sha)\<^sup>*\<^sup>* d d' \<Longrightarrow> schema_ok pg d \<Longrightarrow> closed_tx tid d \<Longrightarrow> schema_ok pg d' \<and> closed_tx tid d'"
proof (induction rule: rtranclp_induct)
  case (step d1 d2)
  from step.hyps(2) have "keeps_closed pg tid d1 d2"
    by cases (simp_all add: keeps_closed_services keeps_closed_verify)
  with step show ?case by (simp add: keeps_closed_def)
qed simp

lemma closed_tx_rejected: "closed_tx tid d \<Longrightarrow> \<exists>e. getValidTransaction env pg tid d = (Inl e, d)"
  using select_one_none [of "auth_transactions d" "live_tx env tid" env "''GetAuthTransactionByID''"]
  by (auto simp: getValidTransaction_def GetAuthTransactionByID_def closed_tx_def live_tx_def split: sum.split)

lemma login_closes:
  assumes "schema_ok pg d" and "LoginWithPassword env pg argon2 tid password d = (Inr user, d')"
  shows "schema_ok pg d' \<and> closed_tx tid d'"
proof -
  obtain t r where t: "t \<in> set (auth_transactions d)" "live_tx env tid t"
    and m: "MarkAuthTransactionAuthenticated env pg tid d = (Inr r, d')"
    using login_sound [OF assms(2)] by (auto simp: may_login_def)
  let ?P = "\<lambda>t. tx_ID t = tid \<and> after (tx_ExpiresAt t) (now env) \<and> tx_State t \<noteq> ''expired''"
  let ?f = "\<lambda>t. t\<lparr>tx_State := ''authenticated'', tx_UpdatedAt := now env\<rparr>"
  have d': "schema_ok pg d'" "auth_transactions d' = update_where ?P ?f (auth_transactions d)"
    using m by (auto simp: MarkAuthTransactionAuthenticated_def update_tx_def commit_def Let_def split: option.splits if_splits)
  have "?P t'" if "t' \<in> set (auth_transactions d)" "tx_ID t' = tid" for t'
    using schema_tx_unique [OF assms(1) that(1) t(1)] that(2) t(2) by (auto simp: live_tx_def open_tx_def)
  note all = this
  have "\<not> open_tx t'" if t': "t' \<in> set (auth_transactions d')" "tx_ID t' = tid" for t'
  proof -
    obtain t0 where t0: "t0 \<in> set (auth_transactions d)" "t' = (if ?P t0 then ?f t0 else t0)"
      using t'(1) unfolding d'(2) by (rule update_where_mem)
    then have "tx_ID t0 = tid" using t'(2) by (cases "?P t0") simp_all
    with all [OF t0(1)] t0(2) show ?thesis by (simp add: open_tx_def)
  qed
  moreover have "tid \<in> tx_ID ` set (auth_transactions d')"
  proof -
    have "map tx_ID (auth_transactions d') = map tx_ID (auth_transactions d)"
      unfolding d'(2) by (rule update_where_keeps) simp
    then have "tx_ID ` set (auth_transactions d') = tx_ID ` set (auth_transactions d)" by (metis set_map)
    with t show ?thesis by (auto simp: live_tx_def)
  qed
  ultimately have "closed_tx tid d'" by (simp add: closed_tx_def)
  with d' show ?thesis by simp
qed

subsection \<open>Passwords\<close>

lemma hex_no_dollar: "CHR ''$'' \<notin> set (hex_encode bs)"
  using concat_hex_set [of "CHR ''$''" bs] hex_digit_neq by metis

lemma password_roundtrip:
  assumes "hashPassword env argon2 password = Inr h"
  shows "h \<noteq> [] \<and> verifyPassword argon2 password h"
proof -
  obtain salt where h: "h = ''argon2id$v=19$m=65536,t=3,p=4$'' @ hex_encode salt @ ''$''
      @ hex_encode (argon2 (bytes_of password) salt 3 (64 * 1024) 4 32)"
    using assms by (auto simp: hashPassword_def split: sum.splits)
  let ?e = "hex_encode salt" and ?x = "hex_encode (argon2 (bytes_of password) salt 3 (64 * 1024) 4 32)"
  have "split_on (CHR ''$'') (?e @ ''$'' @ ?x) = [?e, ?x]"
    using split_on_append [OF hex_no_dollar [of salt], of ?x] split_on_no_sep [OF hex_no_dollar]
    by simp
  then have "split_on (CHR ''$'') h = [''argon2id'', ''v=19'', ''m=65536,t=3,p=4'', ?e, ?x]"
    by (simp add: h)
  then show ?thesis by (simp add: verifyPassword_def h)
qed

lemma SetPassword_Inr:
  assumes "schema_ok pg d" and "SetPassword env pg argon2 uid password d = (Inr u, d1)"
  shows "schema_ok pg d1 \<and> u \<in> set (users d1) \<and> u_ID u = uid \<and> u_DisabledAt u = None
    \<and> (\<exists>h. u_PasswordHash u = Some h \<and> h \<noteq> [] \<and> verifyPassword argon2 password h)"
proof -
  obtain h where h: "hashPassword env argon2 password = Inr h"
    and q: "SetUserPassword env pg (Some h) uid d = (Inr u, d1)"
    using assms(2) by (auto simp: SetPassword_def split: if_splits sum.splits)
  let ?f = "\<lambda>u. u\<lparr>u_PasswordHash := Some h, u_UpdatedAt := now env\<rparr>"
  have c: "schema_ok pg d1" "users d1 = update_where (live_user uid) ?f (users d)"
      "returning (live_user uid) ?f (users d) = Inr u"
    using q by (auto simp: SetUserPassword_def update_user_def Let_def commit_def split: option.splits if_splits)
  then obtain r rs where r: "filter (live_user uid) (users d) = r # rs" "u = ?f r"
    by (auto simp: returning_def split: list.splits)
  then have "r \<in> set (users d)" "live_user uid r" using filter_ConsD [OF r(1)] by simp_all
  then show ?thesis
    using update_where_in [of r "users d" "live_user uid" ?f] c r(2) password_roundtrip [OF h]
    by (auto simp: live_user_def)
qed

subsection \<open>One-time codes\<close>

lemma pad_zero_props:
  assumes "n < 10 ^ w" and "0 < w"
  shows "length (pad_zero w n) = w" and "list_all is_digit (pad_zero w n)"
  using nat_str_length [OF assms] nat_str_digits [of n] by (auto simp: pad_zero_def is_digit_def list_all_iff)

lemma digits_trim:
  assumes "list_all is_digit s" and "s \<noteq> []"
  shows "TrimSpace s = s"
proof -
  have "is_digit (hd s)" "is_digit (last s)" using assms by (simp_all add: list_all_iff)
  then have "\<not> is_space (code (hd s))" "\<not> is_space (code (last s))" by (auto simp: is_digit_def is_space_def)
  then show ?thesis using assms(2) by (simp add: TrimSpace_ascii digits_ascii [OF assms(1)] trim_both_id)
qed

lemma generateOTP_digits:
  "generateOTP env = Inr cd \<Longrightarrow> length cd = otpLength \<and> list_all is_digit cd"
proof -
  assume "generateOTP env = Inr cd"
  then obtain w :: "32 word" where cd: "cd = pad_zero otpLength (unat (w mod 1000000))"
    by (auto simp: generateOTP_def Let_def split: sum.splits)
  have "unat (w mod 1000000) < 10 ^ otpLength" by (simp add: unat_mod otpLength_def)
  from pad_zero_props [OF this] show ?thesis by (simp add: cd otpLength_def)
qed

lemma demo_login:
  "schema_ok demo_pg demo_db" "may_login demo_call demo_kdf 2 ''secret'' demo_db (hd (users demo_db))" "down demo_call = (\<lambda>_. None)"
  by code_simp (simp_all add: may_login_def demo_db_def demo_call_def demo_kdf_def uuid_Nil_def verifyPassword_def live_tx_def
        open_tx_def after_def)

section \<open>Properties\<close>

text \<open>
  C9. Password login accepts exactly what it should. On a database that satisfies its constraints and
  can be reached, \<open>LoginWithPassword\<close> returns a user iff the transaction exists, is open and unexpired on
  both clocks, belongs to this user, the user is not disabled and the password matches the stored hash.
\<close>

theorem LoginWithPassword_iff:
  assumes "schema_ok pg d" and "down env = (\<lambda>_. None)"
  shows "fst (LoginWithPassword env pg argon2 tid password d) = Inr user \<longleftrightarrow> may_login env argon2 tid password d user"
  using login_complete [OF assms] login_sound [of env pg argon2 tid password d user]
  by (metis prod.collapse)

theorem LoginWithPassword_iff_witness:
  "fst (LoginWithPassword demo_call demo_pg demo_kdf 2 ''secret'' demo_db) = Inr (hd (users demo_db))"
  using LoginWithPassword_iff [OF demo_login(1,3)] demo_login(2) by simp



text \<open>
  C29. Enrolled passwords work. After a successful \<open>SetPassword\<close> the same password signs the user in
  through every open transaction of this user, for any key derivation function.
\<close>

theorem enrol_then_login:
  assumes "schema_ok pg d" and "SetPassword env pg argon2 uid password d = (Inr u, d1)"
    and "t \<in> set (auth_transactions d1)" and "live_tx env' tid t" and "tx_UserID t = Some uid"
    and "wall env' \<le> the (tx_ExpiresAt t)" and "tid \<noteq> uuid_Nil" and "down env' = (\<lambda>_. None)"
  shows "fst (LoginWithPassword env' pg argon2 tid password d1) = Inr u"
proof (rule login_complete)
  show "schema_ok pg d1" using SetPassword_Inr [OF assms(1,2)] by simp
  show "may_login env' argon2 tid password d1 u"
    using SetPassword_Inr [OF assms(1,2)] assms(3-7) by (auto simp: may_login_def)
qed (rule assms(8))

theorem enrol_then_login_witness:
  "\<exists>u d1. SetPassword demo_call demo_pg demo_kdf 1 ''pw'' demo_db = (Inr u, d1)
     \<and> fst (LoginWithPassword demo_call demo_pg demo_kdf 2 ''pw'' d1) = Inr u"
proof -
  obtain u d1 where r: "SetPassword demo_call demo_pg demo_kdf 1 ''pw'' demo_db = (Inr u, d1)"
      "auth_transactions d1 = auth_transactions demo_db"
    by (simp add: SetPassword_def uuid_Nil_def hashPassword_def rand_Read_def demo_call_def demo_kdf_def
        SetUserPassword_def update_user_def commit_def demo_db_def demo_pg_def update_where_def live_user_def returning_def
        schema_ok_def users_ok_def transactions_ok_def tx_row_ok_def challenges_ok_def sessions_ok_def tokens_ok_def
        teams_ok_def tm_row_ok_def tx_states_def after_def ref_ok_def)
  from enrol_then_login [OF demo_login(1) r(1), of "hd (auth_transactions demo_db)" demo_call 2] r show ?thesis
    by (simp add: demo_db_def demo_call_def live_tx_def open_tx_def after_def uuid_Nil_def)
qed

text \<open>
  C35. One-time codes cannot be used. The constraints of \<open>auth_challenges\<close> do not admit the purpose
  \<open>otp\<close>, nor a missing \<open>state\<close>: on every database that satisfies them \<open>SendOTP\<close> fails and no code is ever
  accepted by \<open>VerifyOTP\<close>.
\<close>

theorem otp_unusable:
  assumes "schema_ok pg d"
  shows "(\<exists>e. fst (SendOTP env pg sha tid d) = Inl e) \<and> (\<exists>e. fst (VerifyOTP env' pg ul sha tid' cd d) = Inl e)"
proof
  show "\<exists>e. fst (SendOTP env pg sha tid d) = Inl e"
  proof -
    obtain r d1 where v: "getValidTransaction env pg tid d = (r, d1)" by fastforce
    have no: "\<not> schema_ok pg (d1\<lparr>auth_challenges := auth_challenges d1 @ [c]\<rparr>)" if "ch_Purpose c = ''otp''" for c
      using that by (simp add: schema_ok_def challenges_ok_def ch_row_ok_def ch_purposes_def)
    show ?thesis
      by (cases r; cases "generateOTP env")
         (simp_all add: SendOTP_def v CreateAuthChallenge_def commit_def no Let_def split: option.split)
  qed
next
  show "\<exists>e. fst (VerifyOTP env' pg ul sha tid' cd d) = Inl e"
  proof -
    obtain r d1 where v: "getValidTransaction env' pg tid' d = (r, d1)" by fastforce
    show ?thesis
    proof (cases r)
      case (Inr t)
      then have d1: "d1 = d" using getValidTransaction_Inr v by blast
      have "GetActiveAuthChallenge env' (Some tid') ''otp'' d \<noteq> Inr c" for c
      proof
        assume "GetActiveAuthChallenge env' (Some tid') ''otp'' d = Inr c"
        then have "c \<in> set (auth_challenges d)" "ch_Purpose c = ''otp''"
          using select_one_Inr by (fastforce simp: GetActiveAuthChallenge_def)+
        then show False
          using assms by (auto simp: schema_ok_def challenges_ok_def ch_row_ok_def ch_purposes_def list_all_iff)
      qed
      then obtain e where "GetActiveAuthChallenge env' (Some tid') ''otp'' d = Inl e"
        by (cases "GetActiveAuthChallenge env' (Some tid') ''otp'' d") auto
      then show ?thesis using v Inr d1 by (simp add: VerifyOTP_def)
    qed (simp add: VerifyOTP_def v)
  qed
qed

theorem otp_unusable_witness:
  "(\<exists>e. fst (SendOTP demo_call demo_pg id 2 demo_db) = Inl e) \<and> (\<exists>e. fst (VerifyOTP demo_call demo_pg id id 2 ''000000'' demo_db) = Inl e)"
  by (rule otp_unusable) (rule demo_login(1))

text \<open>
  Generated codes pass validation. Whatever the random source yields, a generated code has six
  decimal digits and is accepted by \<open>ValidateVerifyOTP\<close> as it is.
\<close>

theorem generateOTP_valid:
  assumes "generateOTP env = Inr cd" and "TrimSpace transactionID \<noteq> []"
  shows "ValidateVerifyOTP transactionID cd = None \<and> TrimSpace cd = cd"
proof -
  have cd: "length cd = 6" "list_all is_digit cd" "cd \<noteq> []"
    using generateOTP_digits [OF assms(1)] by (auto simp: otpLength_def)
  then have "TrimSpace cd = cd" by (intro digits_trim)
  moreover have "runes cd = map (\<lambda>c. (code c, [c])) cd" by (intro runes_ascii digits_ascii cd)
  ultimately show ?thesis
    using cd assms(2) by (auto simp: ValidateVerifyOTP_def otpCodeLength_def list_ex_iff list_all_iff is_digit_def)
qed

theorem generateOTP_valid_witness:
  "generateOTP demo_call = Inr ''000000'' \<and> ValidateVerifyOTP ''x'' ''000000'' = None"
proof -
  have g: "generateOTP demo_call = Inr ''000000''" by code_simp
  have "TrimSpace ''x'' \<noteq> []" by (simp add: TrimSpace_ascii is_ascii_def trim_both_def is_space_def)
  with g generateOTP_valid [OF g] show ?thesis by simp
qed

end
