(* ===== verification/Session_Service.thy ===== *)
theory Session_Service
  imports Auth_Service
begin

text \<open>
  \<open>internal/identity/session\<close> and \<open>internal/identity/users\<close>: sessions and the account of the signed-in
  user. \<open>ParseAddr\<close>, the address syntax of \<open>net/netip\<close>, is an argument; the text of an address stands for
  the address.
\<close>

section \<open>Sessions\<close>

definition sessionTTL :: time where "sessionTTL = 30 * 24 * 3600000000"

definition ErrInvalidSession :: error where "ErrInvalidSession = Sentinel ''invalid session''"

definition parseIP :: "(string \<Rightarrow> string option) \<Rightarrow> string option \<Rightarrow> string option" where
  "parseIP ParseAddr v = (case v of None \<Rightarrow> None | Some s \<Rightarrow> if s = [] then None else ParseAddr s)"

definition session_generateToken :: "call_env \<Rightarrow> string result" where
  "session_generateToken env = (case rand_Read env 32 of Inl err \<Rightarrow> Inl err | Inr b \<Rightarrow> Inr (hex_encode b))"

definition session_Create ::
  "call_env \<Rightarrow> pg \<Rightarrow> (byte list \<Rightarrow> byte list) \<Rightarrow> (string \<Rightarrow> string option) \<Rightarrow> uuid \<Rightarrow> string option \<Rightarrow> string option \<Rightarrow> db
    \<Rightarrow> (string \<times> session) result \<times> db" where
  "session_Create env pg sha ParseAddr userID ipAddress userAgent d =
     (if userID = uuid_Nil then (Inl (Errorf ''user id is required''), d)
      else case session_generateToken env of
             Inl err \<Rightarrow> (Inl err, d)
           | Inr token \<Rightarrow>
               (case CreateSession env pg (hashToken sha token) (parseIP ParseAddr ipAddress) userAgent
                       (NullableTimestamptz (Some (wall env + sessionTTL))) userID d of
                  (Inl err, d) \<Rightarrow> (Inl err, d)
                | (Inr session, d) \<Rightarrow> (Inr (token, session), d)))"

definition session_Get :: "call_env \<Rightarrow> (byte list \<Rightarrow> byte list) \<Rightarrow> string \<Rightarrow> db \<Rightarrow> session result" where
  "session_Get env sha token d =
     (if token = [] then Inl ErrInvalidSession
      else case GetSessionByTokenHash env (hashToken sha token) d of
             Inl _ \<Rightarrow> Inl ErrInvalidSession
           | Inr session \<Rightarrow>
               (case se_ExpiresAt session of
                  None \<Rightarrow> Inl ErrInvalidSession
                | Some t \<Rightarrow> if t < wall env then Inl ErrInvalidSession else Inr session))"

definition session_List :: "call_env \<Rightarrow> uuid \<Rightarrow> db \<Rightarrow> session list result" where
  "session_List env userID d =
     (if userID = uuid_Nil then Inl (Errorf ''user id is required'') else ListSessionsByUserID env userID d)"

definition session_Revoke :: "call_env \<Rightarrow> pg \<Rightarrow> uuid \<Rightarrow> uuid \<Rightarrow> db \<Rightarrow> error option \<times> db" where
  "session_Revoke env pg sessionID userID d =
     (if sessionID = uuid_Nil then (Some (Errorf ''session id is required''), d)
      else if userID = uuid_Nil then (Some (Errorf ''user id is required''), d)
      else RevokeSession env pg sessionID userID d)"

definition session_RevokeAll :: "call_env \<Rightarrow> pg \<Rightarrow> uuid \<Rightarrow> db \<Rightarrow> error option \<times> db" where
  "session_RevokeAll env pg userID d =
     (if userID = uuid_Nil then (Some (Errorf ''user id is required''), d) else RevokeUserSessions env pg userID d)"

section \<open>Users\<close>

definition users_maxNameLength :: nat where "users_maxNameLength = 100"

definition ValidateUpdateMe :: "string option \<Rightarrow> error option" where
  "ValidateUpdateMe name =
     (case name of
        None \<Rightarrow> None
      | Some n \<Rightarrow>
          let n = TrimSpace n
          in if n = [] then Some (NewBadRequest ''name cannot be empty'')
             else if users_maxNameLength < RuneCountInString n
             then Some (NewBadRequest ''name must be 100 characters or fewer'')
             else None)"

definition normalizeOptional :: "string option \<Rightarrow> string option" where
  "normalizeOptional v = (case v of None \<Rightarrow> None | Some s \<Rightarrow> if TrimSpace s = [] then None else Some (TrimSpace s))"

definition GetMe :: "call_env \<Rightarrow> uuid \<Rightarrow> db \<Rightarrow> user result" where
  "GetMe env userID d = GetUserByID env userID d"

definition UpdateMe :: "call_env \<Rightarrow> pg \<Rightarrow> uuid \<Rightarrow> string option \<Rightarrow> db \<Rightarrow> user result \<times> db" where
  "UpdateMe env pg userID name d =
     (case ValidateUpdateMe name of
        Some err \<Rightarrow> (Inl err, d)
      | None \<Rightarrow>
          (case normalizeOptional name of
             None \<Rightarrow> (GetUserByID env userID d, d)
           | Some n \<Rightarrow> UpdateUserProfile env pg (Some n) None userID d))"

definition DeleteMe :: "call_env \<Rightarrow> pg \<Rightarrow> uuid \<Rightarrow> db \<Rightarrow> error option \<times> db" where
  "DeleteMe env pg userID d =
     (if userID = uuid_Nil then (Some (NewUnauthorized ''authentication required''), d)
      else DisableUser env pg userID d)"

text \<open>One call of the two services.\<close>

inductive session_step :: "pg \<Rightarrow> (byte list \<Rightarrow> byte list) \<Rightarrow> (string \<Rightarrow> string option) \<Rightarrow> db \<Rightarrow> db \<Rightarrow> bool"
  for pg sha ParseAddr where
  create: "session_step pg sha ParseAddr d (snd (session_Create env pg sha ParseAddr uid ip agent d))"
| revoke: "session_step pg sha ParseAddr d (snd (session_Revoke env pg sid uid d))"
| revoke_all: "session_step pg sha ParseAddr d (snd (session_RevokeAll env pg uid d))"
| update_me: "session_step pg sha ParseAddr d (snd (UpdateMe env pg uid name d))"
| delete_me: "session_step pg sha ParseAddr d (snd (DeleteMe env pg uid d))"

text \<open>A token hash whose session is revoked or belongs to a disabled user.\<close>

definition dead_hash :: "string \<Rightarrow> db \<Rightarrow> bool" where
  "dead_hash h d \<longleftrightarrow> h \<in> se_TokenHash ` set (sessions d)
     \<and> (\<forall>s \<in> set (sessions d). se_TokenHash s = h \<longrightarrow> se_RevokedAt s \<noteq> None \<or> \<not> list_ex (live_user (se_UserID s)) (users d))"

section \<open>Lemmas\<close>

lemma list_ex_live_user: "list_ex (live_user uid) us \<longleftrightarrow> (\<exists>u \<in> set us. u_ID u = uid \<and> u_DisabledAt u = None)"
  by (auto simp: list_ex_iff live_user_def)

lemma schema_session_unique:
  "schema_ok pg d \<Longrightarrow> s \<in> set (sessions d) \<Longrightarrow> s' \<in> set (sessions d) \<Longrightarrow> se_TokenHash s = se_TokenHash s' \<Longrightarrow> s = s'"
  by (auto simp: schema_ok_def sessions_ok_def distinct_map dest: inj_onD)

text \<open>A session is found by its token exactly while it is live.\<close>

lemma session_Get_iff:
  assumes "schema_ok pg d" and "down env = (\<lambda>_. None)" and "token \<noteq> []"
    and "s \<in> set (sessions d)" and "se_TokenHash s = hashToken sha token"
  shows "session_Get env sha token d = (if live_session env d s \<and> wall env \<le> the (se_ExpiresAt s) then Inr s else Inl ErrInvalidSession)"
proof -
  have u: "s' = s" if "s' \<in> set (sessions d)" "se_TokenHash s' = hashToken sha token" for s'
    using schema_session_unique [OF assms(1) that(1) assms(4)] that(2) assms(5) by simp
  show ?thesis
  proof (cases "live_session env d s")
    case True
    have "GetSessionByTokenHash env (hashToken sha token) d = Inr s"
      unfolding GetSessionByTokenHash_def
    proof (rule select_one_unique)
      fix s' assume "s' \<in> set (sessions d)" "se_TokenHash s' = hashToken sha token \<and> live_session env d s'"
      then show "s' = s" by (intro u) simp_all
    qed (simp_all add: assms(2,4,5) True)
    then show ?thesis
      using True assms(3) by (auto simp: session_Get_def live_session_def after_def split: option.splits)
  next
    case False
    have "\<exists>e. GetSessionByTokenHash env (hashToken sha token) d = Inl e"
      unfolding GetSessionByTokenHash_def by (rule select_one_none) (metis False u)
    then show ?thesis using False assms(3) by (auto simp: session_Get_def)
  qed
qed

lemma session_Create_Inr:
  assumes "session_Create env pg sha ParseAddr userID ip agent d = (Inr (token, s), d')"
  shows "schema_ok pg d' \<and> d' = d\<lparr>sessions := sessions d @ [s]\<rparr> \<and> se_TokenHash s = hashToken sha token \<and> length token = 64
    \<and> se_UserID s = userID \<and> se_RevokedAt s = None \<and> se_ExpiresAt s = NullableTimestamptz (Some (wall env + sessionTTL))
    \<and> list_ex (live_user userID) (users d)"
proof -
  obtain b where b: "rand_Read env 32 = Inr b" "token = hex_encode b"
    and q: "CreateSession env pg (hashToken sha token) (parseIP ParseAddr ip) agent
        (NullableTimestamptz (Some (wall env + sessionTTL))) userID d = (Inr s, d')"
    using assms by (auto simp: session_Create_def session_generateToken_def split: if_splits sum.splits prod.splits)
  have "length b = 32" using b(1) by (auto simp: rand_Read_def split: sum.splits)
  with q b(2) show ?thesis
    by (auto simp: CreateSession_def commit_def Let_def split: if_splits option.splits)
qed

subsection \<open>Dead sessions stay dead\<close>

lemma live_user_update:
  assumes "\<And>u. u_ID (f u) = u_ID u" and "\<And>u. u_DisabledAt (f u) = None \<Longrightarrow> u_DisabledAt u = None"
    and "list_ex (live_user i) (update_where P f us)"
  shows "list_ex (live_user i) us"
proof -
  obtain u' where u': "u' \<in> set (update_where P f us)" "live_user i u'" using assms(3) by (auto simp: list_ex_iff)
  obtain u where u: "u \<in> set us" "u' = (if P u then f u else u)" using u'(1) by (rule update_where_mem)
  then have "live_user i u" using u'(2) assms(1,2) [of u] by (cases "P u") (auto simp: live_user_def)
  with u(1) show ?thesis by (auto simp: list_ex_iff)
qed

lemma dead_users:
  assumes "dead_hash h d" and "\<And>i. list_ex (live_user i) us \<Longrightarrow> list_ex (live_user i) (users d)"
  shows "dead_hash h (d\<lparr>users := us\<rparr>)"
  using assms by (auto simp: dead_hash_def)

lemma dead_sessions:
  assumes "dead_hash h d" and "\<And>s. se_TokenHash (f s) = se_TokenHash s" and "\<And>s. se_UserID (f s) = se_UserID s"
    and "\<And>s. se_RevokedAt (f s) \<noteq> None"
  shows "dead_hash h (d\<lparr>sessions := update_where P f (sessions d)\<rparr>)"
proof -
  have "map se_TokenHash (update_where P f (sessions d)) = map se_TokenHash (sessions d)"
    by (rule update_where_keeps) (rule assms(2))
  then have "se_TokenHash ` set (update_where P f (sessions d)) = se_TokenHash ` set (sessions d)" by (metis set_map)
  moreover have "se_RevokedAt s' \<noteq> None \<or> \<not> list_ex (live_user (se_UserID s')) (users d)"
    if s': "s' \<in> set (update_where P f (sessions d))" "se_TokenHash s' = h" for s'
  proof -
    obtain s where s: "s \<in> set (sessions d)" "s' = (if P s then f s else s)" using s'(1) by (rule update_where_mem)
    then show ?thesis using assms(1,4) s'(2) by (cases "P s") (auto simp: dead_hash_def)
  qed
  ultimately show ?thesis using assms(1) by (simp add: dead_hash_def)
qed

lemma dead_Create:
  assumes "dead_hash h d"
  shows "dead_hash h (snd (session_Create env pg sha ParseAddr uid ip agent d))"
proof (cases "session_Create env pg sha ParseAddr uid ip agent d")
  case (Pair r d')
  show ?thesis
  proof (cases r)
    case (Inr ts)
    then obtain token s where "ts = (token, s)" "schema_ok pg d'" "d' = d\<lparr>sessions := sessions d @ [s]\<rparr>"
      using Pair session_Create_Inr [of env pg sha ParseAddr uid ip agent d] by (cases ts) fastforce
    moreover from this have "se_TokenHash s \<notin> se_TokenHash ` set (sessions d)"
      by (simp add: schema_ok_def sessions_ok_def)
    ultimately show ?thesis using assms Pair by (auto simp: dead_hash_def)
  next
    case (Inl e)
    then have "d' = d"
      using Pair by (auto simp: session_Create_def CreateSession_def commit_def Let_def split: if_splits sum.splits option.splits prod.splits)
    with assms Pair show ?thesis by simp
  qed
qed

lemma dead_step:
  assumes "session_step pg sha ParseAddr d d'" and "dead_hash h d"
  shows "dead_hash h d'"
  using assms(1)
proof cases
  case (create env uid ip agent)
  then show ?thesis using assms(2) dead_Create by simp
next
  case (revoke env sid uid)
  then show ?thesis
    using assms(2) by (auto simp: session_Revoke_def RevokeSession_def intro!: exec_keeps [of "dead_hash h"] dead_sessions)
next
  case (revoke_all env uid)
  then show ?thesis
    using assms(2) by (auto simp: session_RevokeAll_def RevokeUserSessions_def intro!: exec_keeps [of "dead_hash h"] dead_sessions)
next
  case (update_me env uid name)
  have "dead_hash h (snd (UpdateUserProfile env pg n e uid d))" for n e
    using assms(2) unfolding UpdateUserProfile_def update_user_def Let_def
    by (intro commit_keeps [of "dead_hash h"] dead_users) (auto elim!: live_user_update [rotated 2])
  then show ?thesis using update_me assms(2) by (auto simp: UpdateMe_def split: option.split)
next
  case (delete_me env uid)
  have "dead_hash h (snd (DisableUser env pg uid d))"
    using assms(2) unfolding DisableUser_def
    by (intro exec_keeps [of "dead_hash h"] dead_users) (auto elim!: live_user_update [rotated 2])
  then show ?thesis using delete_me assms(2) by (auto simp: DeleteMe_def)
qed

lemma dead_steps:
  "(session_step pg sha ParseAddr)\<^sup>*\<^sup>* d d' \<Longrightarrow> dead_hash h d \<Longrightarrow> dead_hash h d'"
  by (induction rule: rtranclp_induct) (auto intro: dead_step)

lemma dead_Get: "dead_hash (hashToken sha token) d \<Longrightarrow> session_Get env sha token d = Inl ErrInvalidSession"
  using select_one_none [of "sessions d" "\<lambda>s. se_TokenHash s = hashToken sha token \<and> live_session env d s" env "''GetSessionByTokenHash''"]
  by (auto simp: session_Get_def GetSessionByTokenHash_def dead_hash_def live_session_def)

lemma update_sessions_dead:
  assumes "schema_ok pg d" and "s \<in> set (sessions d)" and "\<And>r. se_TokenHash (f r) = se_TokenHash r"
    and "se_RevokedAt (if P s then f s else s) \<noteq> None"
  shows "dead_hash (se_TokenHash s) (d\<lparr>sessions := update_where P f (sessions d)\<rparr>)"
proof -
  have "map se_TokenHash (update_where P f (sessions d)) = map se_TokenHash (sessions d)"
    by (rule update_where_keeps) (rule assms(3))
  then have "se_TokenHash ` set (update_where P f (sessions d)) = se_TokenHash ` set (sessions d)" by (metis set_map)
  moreover have "se_RevokedAt s' \<noteq> None"
    if s': "s' \<in> set (update_where P f (sessions d))" "se_TokenHash s' = se_TokenHash s" for s'
  proof -
    obtain r where r: "r \<in> set (sessions d)" "s' = (if P r then f r else r)" using s'(1) by (rule update_where_mem)
    then have "se_TokenHash r = se_TokenHash s" using s'(2) assms(3) [of r] by (cases "P r") simp_all
    then have "r = s" using schema_session_unique [OF assms(1) r(1) assms(2)] by simp
    with r(2) assms(4) show ?thesis by (cases "P s") simp_all
  qed
  ultimately show ?thesis using assms(2) by (simp add: dead_hash_def)
qed

lemma disabled_dead:
  assumes "schema_ok pg d" and "s \<in> set (sessions d)" and "\<And>u. u_ID (f u) = u_ID u" and "\<And>u. u_DisabledAt (f u) \<noteq> None"
  shows "dead_hash (se_TokenHash s) (d\<lparr>users := update_where (live_user (se_UserID s)) f (users d)\<rparr>)"
proof -
  have "\<not> live_user (se_UserID s) u'" if u': "u' \<in> set (update_where (live_user (se_UserID s)) f (users d))" for u'
  proof -
    obtain u where "u' = (if live_user (se_UserID s) u then f u else u)" using u' by (rule update_where_mem)
    then show ?thesis using assms(4) [of u] by (cases "live_user (se_UserID s) u") (simp_all add: live_user_def)
  qed
  moreover have "s' = s" if "s' \<in> set (sessions d)" "se_TokenHash s' = se_TokenHash s" for s'
    using schema_session_unique [OF assms(1) that(1) assms(2) that(2)] .
  ultimately show ?thesis using assms(2) by (auto simp: dead_hash_def list_ex_iff)
qed

lemma exec_Some: "exec_stmt env pg name d d' = (None, d1) \<Longrightarrow> d1 = d'"
  by (cases rule: exec_cases [of env pg name d d']) simp_all

lemma revoked_dead:
  assumes "schema_ok pg d" and "s \<in> set (sessions d)"
    and "session_Revoke env pg (se_ID s) (se_UserID s) d = (None, d')
      \<or> session_RevokeAll env pg (se_UserID s) d = (None, d') \<or> DeleteMe env pg (se_UserID s) d = (None, d')"
  shows "dead_hash (se_TokenHash s) d'"
  using assms(3)
proof (elim disjE)
  assume "session_Revoke env pg (se_ID s) (se_UserID s) d = (None, d')"
  then show ?thesis
    by (auto simp: session_Revoke_def RevokeSession_def split: if_splits dest!: exec_Some
        intro!: update_sessions_dead [OF assms(1,2)])
next
  assume "session_RevokeAll env pg (se_UserID s) d = (None, d')"
  then show ?thesis
    by (auto simp: session_RevokeAll_def RevokeUserSessions_def split: if_splits dest!: exec_Some
        intro!: update_sessions_dead [OF assms(1,2)])
next
  assume "DeleteMe env pg (se_UserID s) d = (None, d')"
  then show ?thesis
    by (auto simp: DeleteMe_def DisableUser_def split: if_splits dest!: exec_Some
        intro!: disabled_dead [OF assms(1,2)])
qed

lemma demo_session:
  "\<exists>token s d1. session_Create demo_call demo_pg id (\<lambda>_. None) 1 None None demo_db = (Inr (token, s), d1)
     \<and> (\<exists>d2. session_RevokeAll demo_call demo_pg 1 d1 = (None, d2))"
  by (simp add: session_Create_def session_generateToken_def rand_Read_def CreateSession_def live_user_def commit_def
      demo_call_def demo_db_def demo_pg_def uuid_Nil_def parseIP_def NullableTimestamptz_def zero_time_def sessionTTL_def
      session_RevokeAll_def RevokeUserSessions_def exec_stmt_def as_exec_def update_where_def Let_def
      schema_ok_def users_ok_def transactions_ok_def tx_row_ok_def challenges_ok_def sessions_ok_def tokens_ok_def
      se_row_ok_def teams_ok_def tm_row_ok_def tx_states_def after_def ref_ok_def)

section \<open>Properties\<close>

text \<open>
  A session works from its creation to its expiry. The token that \<open>Create\<close> returns has 64 characters
  and, as long as neither clock has passed the thirty days, \<open>Get\<close> finds exactly this session for it.
\<close>

theorem session_roundtrip:
  assumes "session_Create env pg sha ParseAddr uid ip agent d = (Inr (token, s), d1)" and "down env' = (\<lambda>_. None)"
    and "wall env' \<le> wall env + sessionTTL" and "now env' < wall env + sessionTTL"
  shows "session_Get env' sha token d1 = Inr s \<and> se_UserID s = uid \<and> length token = 64"
proof -
  have ok: "schema_ok pg d1" and d1: "d1 = d\<lparr>sessions := sessions d @ [s]\<rparr>"
    and c: "se_TokenHash s = hashToken sha token" "length token = 64" "se_UserID s = uid" "se_RevokedAt s = None"
      "se_ExpiresAt s = NullableTimestamptz (Some (wall env + sessionTTL))" "list_ex (live_user uid) (users d)"
    using session_Create_Inr [OF assms(1)] by blast+
  then have s: "s \<in> set (sessions d1)" by simp
  have "se_row_ok (map u_ID (users d1)) s" using ok s by (auto simp: schema_ok_def sessions_ok_def list_all_iff)
  then have ex: "se_ExpiresAt s = Some (wall env + sessionTTL)"
    using c by (auto simp: se_row_ok_def after_def NullableTimestamptz_def split: option.splits if_splits)
  then have "live_session env' d1 s" using c d1 assms(4) by (simp add: live_session_def after_def)
  moreover have "token \<noteq> []" using c by auto
  ultimately show ?thesis
    using session_Get_iff [OF ok assms(2) _ s, of token sha] c assms(3) ex by simp
qed

theorem session_roundtrip_witness:
  "\<exists>token s d1. session_Create demo_call demo_pg id (\<lambda>_. None) 1 None None demo_db = (Inr (token, s), d1)
     \<and> session_Get demo_call id token d1 = Inr s"
proof -
  obtain token s d1 where r: "session_Create demo_call demo_pg id (\<lambda>_. None) 1 None None demo_db = (Inr (token, s), d1)"
    using demo_session by blast
  from session_roundtrip [OF r, of demo_call] demo_login(3) r show ?thesis by (auto simp: demo_call_def sessionTTL_def)
qed

text \<open>
  C20. A session that was ended stays ended. After its user revoked it, revoked all sessions or deleted
  the account, and whatever calls of the two services follow, its token is never accepted again.
\<close>

theorem session_end:
  assumes "schema_ok pg d" and "s \<in> set (sessions d)" and "se_TokenHash s = hashToken sha token"
    and "session_Revoke env pg (se_ID s) (se_UserID s) d = (None, d1)
      \<or> session_RevokeAll env pg (se_UserID s) d = (None, d1) \<or> DeleteMe env pg (se_UserID s) d = (None, d1)"
    and "(session_step pg sha ParseAddr)\<^sup>*\<^sup>* d1 d2"
  shows "session_Get env' sha token d2 = Inl ErrInvalidSession"
  using revoked_dead [OF assms(1,2,4)] dead_steps [OF assms(5)] dead_Get assms(3) by metis

theorem session_end_witness:
  "\<exists>token s d1 d2. session_Create demo_call demo_pg id (\<lambda>_. None) 1 None None demo_db = (Inr (token, s), d1)
     \<and> session_RevokeAll demo_call demo_pg 1 d1 = (None, d2) \<and> session_Get demo_call id token d2 = Inl ErrInvalidSession"
proof -
  obtain token s d1 where r: "session_Create demo_call demo_pg id (\<lambda>_. None) 1 None None demo_db = (Inr (token, s), d1)"
    and k: "\<exists>d2. session_RevokeAll demo_call demo_pg 1 d1 = (None, d2)"
    using demo_session by blast
  obtain d2 where d2: "session_RevokeAll demo_call demo_pg 1 d1 = (None, d2)" using k ..
  have c: "schema_ok demo_pg d1 \<and> d1 = demo_db\<lparr>sessions := sessions demo_db @ [s]\<rparr> \<and> se_TokenHash s = hashToken id token \<and> se_UserID s = 1"
    using session_Create_Inr [OF r] by blast
  then have "s \<in> set (sessions d1)" by (metis in_set_conv_decomp db.select_convs(4) db.update_convs(4) db.surjective)
  with c have s: "schema_ok demo_pg d1" "s \<in> set (sessions d1)" "se_TokenHash s = hashToken id token" "se_UserID s = 1"
    by blast+
  from session_end [OF s(1-3), of demo_call d2 "\<lambda>_. None" d2 demo_call] s(4) d2 r show ?thesis by auto
qed

end
