(* ===== verification/Token_Services.thy ===== *)
theory Token_Services
  imports Session_Service
begin

text \<open>
  \<open>internal/authn\<close>, \<open>internal/identity/pat\<close> and \<open>internal/identity/teamtoken\<close>: principals, personal access
  tokens and team access tokens. The two token packages share most of their text; what is the same in
  both is one definition with the prefix of the tokens as its argument.
\<close>

section \<open>Principals\<close>

datatype assurance = AssuranceUnknown | AssurancePassword | AssuranceOTP | AssuranceMFA

definition CredentialSession :: string where "CredentialSession = ''session''"
definition CredentialPAT :: string where "CredentialPAT = ''pat''"
definition SubjectUser :: string where "SubjectUser = ''user''"

record credential =
  cred_ID :: uuid
  cred_Type :: string

record credential_input =
  input_Type :: string
  input_Value :: string

record subject =
  subj_ID :: uuid
  subj_Type :: string

record principal =
  Subject :: subject
  Credential :: credential
  Assurance :: assurance

definition ErrInvalidCredential :: error where "ErrInvalidCredential = Sentinel ''invalid credential''"

definition input_Validate :: "credential_input \<Rightarrow> error option" where
  "input_Validate c =
     (if input_Type c = [] \<or> input_Value c = [] then Some ErrInvalidCredential
      else if input_Type c = CredentialSession \<or> input_Type c = CredentialPAT then None
      else Some ErrInvalidCredential)"

text \<open>The principal a request context carries, if any.\<close>

definition UserIDFromContext :: "principal option \<Rightarrow> uuid option" where
  "UserIDFromContext ctx =
     (case ctx of
        None \<Rightarrow> None
      | Some p \<Rightarrow>
          if subj_Type (Subject p) \<noteq> SubjectUser \<or> subj_ID (Subject p) = uuid_Nil then None
          else Some (subj_ID (Subject p)))"

section \<open>What both kinds of tokens share\<close>

record create_request =
  cr_Name :: string
  cr_Scopes :: "string list"
  cr_ExpiresAt :: "time option"

definition maxNameLength :: nat where "maxNameLength = 100"
definition maxScopes :: nat where "maxScopes = 32"
definition maxScopeLength :: nat where "maxScopeLength = 100"
definition prefixLen :: nat where "prefixLen = 12"

definition defaultScopes :: "string list" where "defaultScopes = [''sandbox:read'', ''sandbox:write'']"

definition ValidateCreateRequest :: "call_env \<Rightarrow> create_request \<Rightarrow> error option" where
  "ValidateCreateRequest env req =
     (let name = TrimSpace (cr_Name req)
      in if name = [] then Some (NewBadRequest ''name is required'')
         else if maxNameLength < RuneCountInString name
         then Some (NewBadRequest ''name must be 100 characters or fewer'')
         else if maxScopes < length (cr_Scopes req) then Some (NewBadRequest ''too many scopes'')
         else if list_ex (\<lambda>scope. TrimSpace scope = [] \<or> maxScopeLength < RuneCountInString (TrimSpace scope)) (cr_Scopes req)
         then Some (NewBadRequest ''invalid scope'')
         else case cr_ExpiresAt req of
                None \<Rightarrow> None
              | Some t \<Rightarrow> if \<not> wall env < t then Some (NewBadRequest ''expires_at must be in the future'') else None)"

definition generateToken :: "string \<Rightarrow> call_env \<Rightarrow> string result" where
  "generateToken tokenPrefix env =
     (case rand_Read env 32 of Inl err \<Rightarrow> Inl err | Inr b \<Rightarrow> Inr (tokenPrefix @ hex_encode b))"

definition tokenPrefixValue :: "string \<Rightarrow> string" where
  "tokenPrefixValue token = (if length token \<le> prefixLen then token else take prefixLen token)"

definition normalizeScopes :: "string list \<Rightarrow> string list" where
  "normalizeScopes scopes = (if scopes = [] then defaultScopes else map TrimSpace scopes)"

section \<open>Personal access tokens\<close>

definition pat_prefix :: string where "pat_prefix = ''shiyao_pat_''"
definition ErrTokenNotFound :: error where "ErrTokenNotFound = Sentinel ''personal access token not found''"

record pat_response =
  pr_ID :: uuid
  pr_Name :: string
  pr_Prefix :: string
  pr_Scopes :: "string list"
  pr_ExpiresAt :: "time option"
  pr_LastUsedAt :: "time option"
  pr_CreatedAt :: time

definition pat_responseFromRow :: "access_token \<Rightarrow> pat_response" where
  "pat_responseFromRow row =
     \<lparr>pr_ID = pt_ID row, pr_Name = pt_Name row, pr_Prefix = pt_TokenPrefix row, pr_Scopes = pt_Scopes row,
      pr_ExpiresAt = TimestamptzToTimePtr (pt_ExpiresAt row), pr_LastUsedAt = TimestamptzToTimePtr (pt_LastUsedAt row),
      pr_CreatedAt = pt_CreatedAt row\<rparr>"

definition pat_responseFromListRow :: "list_token_row \<Rightarrow> pat_response" where
  "pat_responseFromListRow row =
     \<lparr>pr_ID = lt_ID row, pr_Name = lt_Name row, pr_Prefix = lt_TokenPrefix row, pr_Scopes = lt_Scopes row,
      pr_ExpiresAt = TimestamptzToTimePtr (lt_ExpiresAt row), pr_LastUsedAt = TimestamptzToTimePtr (lt_LastUsedAt row),
      pr_CreatedAt = lt_CreatedAt row\<rparr>"

definition pat_Create ::
  "call_env \<Rightarrow> pg \<Rightarrow> (byte list \<Rightarrow> byte list) \<Rightarrow> uuid \<Rightarrow> create_request \<Rightarrow> db \<Rightarrow> (pat_response \<times> string) result \<times> db" where
  "pat_Create env pg sha userID req d =
     (if userID = uuid_Nil then (Inl ErrTokenNotFound, d)
      else case ValidateCreateRequest env req of
             Some err \<Rightarrow> (Inl err, d)
           | None \<Rightarrow>
               (case generateToken pat_prefix env of
                  Inl err \<Rightarrow> (Inl err, d)
                | Inr token \<Rightarrow>
                    (case CreateToken env pg userID (TrimSpace (cr_Name req)) (hashToken sha token) (tokenPrefixValue token)
                            (normalizeScopes (cr_Scopes req)) (NullableTimestamptz (cr_ExpiresAt req)) d of
                       (Inl err, d) \<Rightarrow> (Inl err, d)
                     | (Inr created, d) \<Rightarrow> (Inr (pat_responseFromRow created, token), d))))"

definition pat_List :: "call_env \<Rightarrow> uuid \<Rightarrow> db \<Rightarrow> pat_response list result" where
  "pat_List env userID d =
     (if userID = uuid_Nil then Inl ErrTokenNotFound
      else case ListTokensByUser env userID d of Inl err \<Rightarrow> Inl err | Inr rows \<Rightarrow> Inr (map pat_responseFromListRow rows))"

definition pat_Revoke :: "call_env \<Rightarrow> pg \<Rightarrow> uuid \<Rightarrow> uuid \<Rightarrow> db \<Rightarrow> error option \<times> db" where
  "pat_Revoke env pg userID tokenID d =
     (if userID = uuid_Nil \<or> tokenID = uuid_Nil then (Some ErrTokenNotFound, d) else RevokeToken env pg tokenID userID d)"

definition pat_Resolve ::
  "call_env \<Rightarrow> pg \<Rightarrow> (byte list \<Rightarrow> byte list) \<Rightarrow> credential_input \<Rightarrow> db \<Rightarrow> principal result \<times> db" where
  "pat_Resolve env pg sha input d =
     (if input_Type input \<noteq> CredentialPAT \<or> TrimSpace (input_Value input) = [] then (Inl ErrInvalidCredential, d)
      else case GetTokenByHash env (hashToken sha (input_Value input)) d of
             Inl _ \<Rightarrow> (Inl ErrInvalidCredential, d)
           | Inr row \<Rightarrow>
               (case TouchToken env pg (pt_ID row) d of
                  (Some err, d) \<Rightarrow> (Inl err, d)
                | (None, d) \<Rightarrow>
                    (Inr \<lparr>Subject = \<lparr>subj_ID = pt_UserID row, subj_Type = SubjectUser\<rparr>,
                          Credential = \<lparr>cred_ID = pt_ID row, cred_Type = CredentialPAT\<rparr>, Assurance = AssuranceUnknown\<rparr>, d)))"

section \<open>Team access tokens\<close>

definition tat_prefix :: string where "tat_prefix = ''shiyao_tat_''"
definition ErrInvalidTeam :: error where "ErrInvalidTeam = Sentinel ''invalid team''"
definition ErrTeamTokenNotFound :: error where "ErrTeamTokenNotFound = Sentinel ''team access token not found''"

record team_response =
  tr_ID :: uuid
  tr_Name :: string
  tr_Prefix :: string
  tr_Scopes :: "string list"
  tr_ExpiresAt :: "time option"
  tr_LastUsedAt :: "time option"
  tr_CreatedBy :: "uuid option"
  tr_CreatedAt :: time

definition team_responseFromToken :: "team_token \<Rightarrow> team_response" where
  "team_responseFromToken row =
     \<lparr>tr_ID = tt_ID row, tr_Name = tt_Name row, tr_Prefix = tt_TokenPrefix row, tr_Scopes = tt_Scopes row,
      tr_ExpiresAt = TimestamptzToTimePtr (tt_ExpiresAt row), tr_LastUsedAt = TimestamptzToTimePtr (tt_LastUsedAt row),
      tr_CreatedBy = tt_CreatedBy row, tr_CreatedAt = tt_CreatedAt row\<rparr>"

definition team_responseFromListRow :: "team_token_row \<Rightarrow> team_response" where
  "team_responseFromListRow row =
     \<lparr>tr_ID = lr_ID row, tr_Name = lr_Name row, tr_Prefix = lr_TokenPrefix row, tr_Scopes = lr_Scopes row,
      tr_ExpiresAt = TimestamptzToTimePtr (lr_ExpiresAt row), tr_LastUsedAt = TimestamptzToTimePtr (lr_LastUsedAt row),
      tr_CreatedBy = lr_CreatedBy row, tr_CreatedAt = lr_CreatedAt row\<rparr>"

definition team_Create ::
  "call_env \<Rightarrow> pg \<Rightarrow> (byte list \<Rightarrow> byte list) \<Rightarrow> uuid \<Rightarrow> uuid \<Rightarrow> create_request \<Rightarrow> db \<Rightarrow> (team_response \<times> string) result \<times> db" where
  "team_Create env pg sha teamID userID req d =
     (if teamID = uuid_Nil \<or> userID = uuid_Nil then (Inl ErrInvalidTeam, d)
      else case ValidateCreateRequest env req of
             Some err \<Rightarrow> (Inl err, d)
           | None \<Rightarrow>
               (case generateToken tat_prefix env of
                  Inl err \<Rightarrow> (Inl err, d)
                | Inr token \<Rightarrow>
                    (case CreateTeamToken env pg teamID (TrimSpace (cr_Name req)) (hashToken sha token) (tokenPrefixValue token)
                            (normalizeScopes (cr_Scopes req)) (NullableTimestamptz (cr_ExpiresAt req)) userID d of
                       (Inl err, d) \<Rightarrow> (Inl err, d)
                     | (Inr created, d) \<Rightarrow> (Inr (team_responseFromToken created, token), d))))"

definition team_List :: "call_env \<Rightarrow> uuid \<Rightarrow> uuid \<Rightarrow> db \<Rightarrow> team_response list result" where
  "team_List env teamID userID d =
     (if teamID = uuid_Nil \<or> userID = uuid_Nil then Inl ErrInvalidTeam
      else case ListTeamTokens env teamID userID d of
             Inl err \<Rightarrow> Inl err
           | Inr rows \<Rightarrow> Inr (map team_responseFromListRow rows))"

definition team_Revoke :: "call_env \<Rightarrow> pg \<Rightarrow> uuid \<Rightarrow> uuid \<Rightarrow> uuid \<Rightarrow> db \<Rightarrow> error option \<times> db" where
  "team_Revoke env pg teamID userID tokenID d =
     (if teamID = uuid_Nil \<or> userID = uuid_Nil \<or> tokenID = uuid_Nil then (Some ErrTeamTokenNotFound, d)
      else case RevokeTeamToken env pg tokenID teamID userID d of
             (Inl err, d) \<Rightarrow> (Some err, d)
           | (Inr deleted, d) \<Rightarrow> (if deleted = 0 then Some ErrTeamTokenNotFound else None, d))"

section \<open>Lemmas\<close>

lemma schema_pat_unique:
  "schema_ok pg d \<Longrightarrow> t \<in> set (access_tokens d) \<Longrightarrow> t' \<in> set (access_tokens d) \<Longrightarrow> pt_TokenHash t = pt_TokenHash t' \<Longrightarrow> t = t'"
  by (auto simp: schema_ok_def tokens_ok_def distinct_map dest: inj_onD)

lemma pat_Create_Inr:
  assumes "pat_Create env pg sha userID req d = (Inr (resp, token), d')"
  obtains row b where "schema_ok pg d'" "d' = d\<lparr>access_tokens := access_tokens d @ [row]\<rparr>" "pt_TokenHash row = hashToken sha token"
    "pt_UserID row = userID" "resp = pat_responseFromRow row" "pt_ExpiresAt row = NullableTimestamptz (cr_ExpiresAt req)"
    "token = pat_prefix @ hex_encode b" "length b = 32" "userID \<noteq> uuid_Nil" "pt_ID row = gen_uuid env"
proof -
  obtain b where b: "rand_Read env 32 = Inr b" "token = pat_prefix @ hex_encode b"
    using assms by (auto simp: pat_Create_def generateToken_def split: if_splits option.splits sum.splits prod.splits)
  then have "length b = 32" by (auto simp: rand_Read_def split: sum.splits)
  with b assms that show ?thesis
    by (auto simp: pat_Create_def generateToken_def CreateToken_def commit_def Let_def
        split: if_splits option.splits sum.splits prod.splits)
qed

lemma hex_digit_visible: "n < 16 \<Longrightarrow> is_ascii (hex_digit n) \<and> \<not> is_space (code (hex_digit n))"
  by (auto simp: hex_digit_def is_ascii_def is_space_def)

lemma hex_ascii: "ascii (hex_encode bs)"
  using concat_hex_set [of _ bs] hex_digit_visible by (fastforce simp: ascii_def list_all_iff)

lemma token_trim:
  assumes "length b = 32" and "pre = CHR ''s'' # rest" and "ascii pre"
  shows "TrimSpace (pre @ hex_encode b) = pre @ hex_encode b"
proof -
  have ne: "hex_encode b \<noteq> []" using assms(1) length_hex_encode [of b] by (metis length_0_conv mult_eq_0_iff zero_neq_numeral)
  have "last (hex_encode b) \<in> set (hex_encode b)" using ne by simp
  then obtain n where "n < 16" "last (hex_encode b) = hex_digit n" using concat_hex_set by blast
  then have "\<not> is_space (code (last (hex_encode b)))" using hex_digit_visible by simp
  then show ?thesis
    using assms ne hex_ascii [of b] by (simp add: TrimSpace_ascii trim_both_id is_space_def)
qed

text \<open>Noting the use of a token keeps the constraints.\<close>

lemma TouchToken_ok:
  assumes "schema_ok pg d" and "down env = (\<lambda>_. None)"
  shows "\<exists>ts. TouchToken env pg tid d = (None, d\<lparr>access_tokens := ts\<rparr>)"
proof -
  let ?P = "\<lambda>t. pt_ID t = tid \<and> (case pt_LastUsedAt t of None \<Rightarrow> True | Some x \<Rightarrow> x < now env - 60000000)"
  let ?ts = "update_where ?P (\<lambda>t. t\<lparr>pt_LastUsedAt := Some (now env)\<rparr>) (access_tokens d)"
  have "map pt_ID ?ts = map pt_ID (access_tokens d)" "map pt_TokenHash ?ts = map pt_TokenHash (access_tokens d)"
      "map pt_UserID ?ts = map pt_UserID (access_tokens d)"
    by (rule update_where_keeps, simp)+
  moreover from this(3) have "pt_UserID ` set ?ts = pt_UserID ` set (access_tokens d)" by (metis set_map)
  ultimately have "tokens_ok (d\<lparr>access_tokens := ?ts\<rparr>) = tokens_ok d"
    by (auto simp: tokens_ok_def list_all_iff simp flip: image_subset_iff)
  then have "schema_ok pg (d\<lparr>access_tokens := ?ts\<rparr>)" using assms(1) by (simp add: schema_ok_def)
  then show ?thesis using assms(2) by (auto simp: TouchToken_def exec_stmt_def as_exec_def commit_def)
qed

lemma pat_Resolve_Inr:
  assumes "pat_Resolve env pg sha input d = (Inr p, d')"
  shows "\<exists>row \<in> set (access_tokens d). pt_TokenHash row = hashToken sha (input_Value input)
      \<and> (pt_ExpiresAt row = None \<or> after (pt_ExpiresAt row) (now env))
      \<and> Subject p = \<lparr>subj_ID = pt_UserID row, subj_Type = SubjectUser\<rparr>
      \<and> Credential p = \<lparr>cred_ID = pt_ID row, cred_Type = CredentialPAT\<rparr>"
proof -
  obtain row where r: "GetTokenByHash env (hashToken sha (input_Value input)) d = Inr row"
    and p: "p = \<lparr>Subject = \<lparr>subj_ID = pt_UserID row, subj_Type = SubjectUser\<rparr>,
              Credential = \<lparr>cred_ID = pt_ID row, cred_Type = CredentialPAT\<rparr>, Assurance = AssuranceUnknown\<rparr>"
    using assms by (auto simp: pat_Resolve_def split: if_splits sum.splits prod.splits option.splits)
  show ?thesis using select_one_Inr [OF r [unfolded GetTokenByHash_def]] p by auto
qed

lemma pat_Resolve_users: "users (snd (pat_Resolve env pg sha input d)) = users d"
proof -
  have "users (snd (TouchToken env pg tid d)) = users d" for tid
    unfolding TouchToken_def by (rule exec_keeps [of "\<lambda>x. users x = users d"]) simp_all
  then show ?thesis
    by (auto simp: pat_Resolve_def split: sum.split prod.split option.split) (metis snd_conv)+
qed

section \<open>Properties\<close>





end
