(* ===== verification/Sandbox_Service.thy ===== *)
theory Sandbox_Service
  imports Nats_Bus Token_Services
begin

text \<open>
  \<open>internal/platform/sandbox\<close> with its queries in \<open>internal/database/sqlc/sandboxes.sql.go\<close>, and the
  dispatcher of \<open>internal/runtime/daemon/service.go\<close> that sends its jobs to the bus. The table is the list of
  its rows; \<open>uids\<close> are the users it may refer to. The state of a call is the table and the outside
  world \<open>'w\<close> of the bus. The codec of \<open>encoding/json\<close> for jobs, the texts of identifiers (\<open>uuid\<close>), of times and of
  PostgreSQL intervals, and Unicode case mapping are arguments; \<open>vmUUID\<close> is the result of \<open>uuid.NewString\<close>.
\<close>

section \<open>The table\<close>

record sandbox =
  sb_ID :: uuid
  sb_UserID :: uuid
  sb_VmID :: string
  sb_Template :: string
  sb_Status :: string
  sb_Vcpu :: int
  sb_MemoryMb :: int
  sb_TimeoutSeconds :: int
  sb_AllowedHosts :: "string list"
  sb_CreatedAt :: "time option"
  sb_StartedAt :: "time option"
  sb_StoppedAt :: "time option"
  sb_UpdatedAt :: "time option"

definition sandbox_statuses :: "string list" where
  "sandbox_statuses =
     [''pending'', ''provisioning'', ''running'', ''stopping'', ''stopped'', ''failed'', ''cleanup_failed'']"

definition sandbox_row_ok :: "uuid list \<Rightarrow> sandbox \<Rightarrow> bool" where
  "sandbox_row_ok uids s \<longleftrightarrow> sb_UserID s \<in> set uids \<and> RuneCountInString (sb_VmID s) \<le> 255
     \<and> RuneCountInString (sb_Template s) \<le> 50 \<and> sb_Status s \<in> set sandbox_statuses"

definition sandboxes_ok :: "uuid list \<Rightarrow> sandbox list \<Rightarrow> bool" where
  "sandboxes_ok uids t \<longleftrightarrow> distinct (map sb_ID t) \<and> distinct (map sb_VmID t) \<and> list_all (sandbox_row_ok uids) t"

definition sb_commit ::
  "call_env \<Rightarrow> uuid list \<Rightarrow> string \<Rightarrow> sandbox list \<Rightarrow> sandbox list \<Rightarrow> 'a result \<Rightarrow> 'a result \<times> sandbox list" where
  "sb_commit env uids name t t' r =
     (case down env name of
        Some err \<Rightarrow> (Inl err, t)
      | None \<Rightarrow> if sandboxes_ok uids t' then (r, t') else (Inl constraint_error, t))"

section \<open>Queries\<close>

record create_sandbox_params =
  cs_UserID :: uuid
  cs_VmID :: string
  cs_Template :: string
  cs_Vcpu :: int
  cs_MemoryMb :: int
  cs_TimeoutSeconds :: int
  cs_AllowedHosts :: "string list"
  cs_Status :: "string option"

text \<open>An explicit \<open>NULL\<close> for the status breaks its \<open>NOT NULL\<close>.\<close>

definition CreateSandbox ::
  "call_env \<Rightarrow> uuid list \<Rightarrow> create_sandbox_params \<Rightarrow> sandbox list \<Rightarrow> sandbox result \<times> sandbox list" where
  "CreateSandbox env uids arg t =
     (case cs_Status arg of
        None \<Rightarrow> (Inl (case down env ''CreateSandbox'' of Some err \<Rightarrow> err | None \<Rightarrow> constraint_error), t)
      | Some status \<Rightarrow>
          let row = \<lparr>sb_ID = gen_uuid env, sb_UserID = cs_UserID arg, sb_VmID = cs_VmID arg, sb_Template = cs_Template arg,
                     sb_Status = status, sb_Vcpu = cs_Vcpu arg, sb_MemoryMb = cs_MemoryMb arg,
                     sb_TimeoutSeconds = cs_TimeoutSeconds arg, sb_AllowedHosts = cs_AllowedHosts arg,
                     sb_CreatedAt = Some (now env), sb_StartedAt = None, sb_StoppedAt = None, sb_UpdatedAt = Some (now env)\<rparr>
          in sb_commit env uids ''CreateSandbox'' t (t @ [row]) (Inr row))"

definition DeleteSandbox :: "call_env \<Rightarrow> uuid list \<Rightarrow> uuid \<Rightarrow> sandbox list \<Rightarrow> error option \<times> sandbox list" where
  "DeleteSandbox env uids i t =
     (case sb_commit env uids ''DeleteSandbox'' t (filter (\<lambda>s. sb_ID s \<noteq> i) t) (Inr ()) of
        (Inl err, t) \<Rightarrow> (Some err, t)
      | (Inr _, t) \<Rightarrow> (None, t))"

text \<open>\<open>interval\<close> reads the text of an interval, in microseconds. \<open>NULL\<close> sorts last.\<close>

definition created_key :: "sandbox \<Rightarrow> int" where
  "created_key s = (case sb_CreatedAt s of Some x \<Rightarrow> x | None \<Rightarrow> 0)"

definition FindStuckSandboxes ::
  "call_env \<Rightarrow> (string \<Rightarrow> int option) \<Rightarrow> string \<Rightarrow> string \<Rightarrow> sandbox list \<Rightarrow> sandbox list result" where
  "FindStuckSandboxes env interval status maxAgeSeconds t =
     (case down env ''FindStuckSandboxes'' of
        Some err \<Rightarrow> Inl err
      | None \<Rightarrow>
          (case interval (maxAgeSeconds @ '' seconds'') of
             None \<Rightarrow> Inl constraint_error
           | Some age \<Rightarrow>
               Inr (sort_key created_key
                 (filter (\<lambda>s. sb_Status s = status \<and> (case sb_CreatedAt s of Some x \<Rightarrow> x < now env - age | None \<Rightarrow> False)) t))))"

definition GetSandboxByID :: "call_env \<Rightarrow> uuid \<Rightarrow> sandbox list \<Rightarrow> sandbox result" where
  "GetSandboxByID env i t = select_one env ''GetSandboxByID'' (\<lambda>s. sb_ID s = i) t"

definition GetSandboxByVMID :: "call_env \<Rightarrow> string \<Rightarrow> sandbox list \<Rightarrow> sandbox result" where
  "GetSandboxByVMID env v t = select_one env ''GetSandboxByVMID'' (\<lambda>s. sb_VmID s = v) t"

definition ListSandboxesByUser :: "call_env \<Rightarrow> uuid \<Rightarrow> sandbox list \<Rightarrow> sandbox list result" where
  "ListSandboxesByUser env u t =
     (case down env ''ListSandboxesByUser'' of
        Some err \<Rightarrow> Inl err
      | None \<Rightarrow>
          let rows = filter (\<lambda>s. sb_UserID s = u) t
          in Inr (filter (\<lambda>s. sb_CreatedAt s = None) rows
               @ sort_key (\<lambda>s. - created_key s) (filter (\<lambda>s. sb_CreatedAt s \<noteq> None) rows)))"

definition set_status :: "call_env \<Rightarrow> string \<Rightarrow> sandbox \<Rightarrow> sandbox" where
  "set_status env status s =
     s\<lparr>sb_Status := status,
       sb_StartedAt := (if status = ''running'' then Some (now env) else sb_StartedAt s),
       sb_StoppedAt := (if status \<in> set [''stopped'', ''failed'', ''cleanup_failed''] then Some (now env) else sb_StoppedAt s)\<rparr>"

definition UpdateSandboxStatus ::
  "call_env \<Rightarrow> uuid list \<Rightarrow> string \<Rightarrow> uuid \<Rightarrow> sandbox list \<Rightarrow> sandbox result \<times> sandbox list" where
  "UpdateSandboxStatus env uids status i t =
     (let P = (\<lambda>s. sb_ID s = i)
      in sb_commit env uids ''UpdateSandboxStatus'' t (update_where P (set_status env status) t)
           (case filter P t of [] \<Rightarrow> Inl ErrNoRows | s # _ \<Rightarrow> Inr (set_status env status s)))"

section \<open>Requests\<close>

record sandbox_request =
  sr_Template :: string
  sr_VCPU :: int
  sr_MemoryMB :: int
  sr_TimeoutSeconds :: int
  sr_AllowedHosts :: "string list"

definition normalizeCreateRequest :: "(string \<Rightarrow> string) \<Rightarrow> sandbox_request \<Rightarrow> sandbox_request" where
  "normalizeCreateRequest ul req =
     (let req = req\<lparr>sr_Template := TrimSpace (sr_Template req)\<rparr>;
          req = (if sr_Template req = [] then req\<lparr>sr_Template := ''python-3.11''\<rparr> else req);
          req = (if sr_VCPU req = 0 then req\<lparr>sr_VCPU := 1\<rparr> else req);
          req = (if sr_MemoryMB req = 0 then req\<lparr>sr_MemoryMB := 512\<rparr> else req);
          req = (if sr_TimeoutSeconds req = 0 then req\<lparr>sr_TimeoutSeconds := 300\<rparr> else req)
      in req\<lparr>sr_AllowedHosts := filter (\<lambda>h. h \<noteq> []) (map (\<lambda>h. ToLower ul (TrimSpace h)) (sr_AllowedHosts req))\<rparr>)"

definition between :: "string \<Rightarrow> int \<Rightarrow> int \<Rightarrow> error" where
  "between what lo hi = NewBadRequest (what @ '' must be between '' @ Itoa lo @ '' and '' @ Itoa hi)"

definition validateCreateRequest :: "sandbox_request \<Rightarrow> error option" where
  "validateCreateRequest req =
     (if sr_VCPU req < 1 \<or> 8 < sr_VCPU req then Some (between ''vcpu'' 1 8)
      else if sr_MemoryMB req < 128 \<or> 8192 < sr_MemoryMB req then Some (between ''memory_mb'' 128 8192)
      else if sr_TimeoutSeconds req < 30 \<or> 3600 < sr_TimeoutSeconds req then Some (between ''timeout_seconds'' 30 3600)
      else None)"

section \<open>Jobs\<close>

record lifecycle_event =
  le_SandboxID :: uuid
  le_UserID :: uuid
  le_VMID :: string

record 'w dispatcher =
  DispatchCreate :: "lifecycle_event \<Rightarrow> 'w \<Rightarrow> error option \<times> 'w"
  DispatchDestroy :: "lifecycle_event \<Rightarrow> 'w \<Rightarrow> error option \<times> 'w"

text \<open>\<open>marshal\<close> encodes a job; the error of a publisher is seen by its text.\<close>

definition dispatcher_publish ::
  "(lifecycle_event \<Rightarrow> string) \<Rightarrow> (uuid \<Rightarrow> string) \<Rightarrow> 'w publish option \<Rightarrow> string \<Rightarrow> lifecycle_event \<Rightarrow> 'w \<Rightarrow> error option \<times> 'w" where
  "dispatcher_publish marshal ustr pub subject event w =
     (case pub of
        None \<Rightarrow> (Some (Errorf ''sandbox lifecycle publisher is not configured''), w)
      | Some publish \<Rightarrow>
          (case publish subject (marshal event) [] (ustr (le_SandboxID event) @ '':'' @ subject) w of
             (Some pe, w) \<Rightarrow> (Some (Errorf (pe_text pe)), w)
           | (None, w) \<Rightarrow> (None, w)))"

definition newSandboxDispatcher ::
  "(lifecycle_event \<Rightarrow> string) \<Rightarrow> (uuid \<Rightarrow> string) \<Rightarrow> 'w publish option \<Rightarrow> 'w dispatcher" where
  "newSandboxDispatcher marshal ustr pub =
     \<lparr>DispatchCreate = dispatcher_publish marshal ustr pub SubjectSandboxCreate,
      DispatchDestroy = dispatcher_publish marshal ustr pub SubjectSandboxDestroy\<rparr>"

section \<open>The service\<close>

definition sandbox_List :: "call_env \<Rightarrow> uuid \<Rightarrow> sandbox list \<Rightarrow> sandbox list result" where
  "sandbox_List env userID t =
     (if userID = uuid_Nil then Inl (NewUnauthorized ''authentication required'') else ListSandboxesByUser env userID t)"

definition sandbox_Get :: "call_env \<Rightarrow> uuid \<Rightarrow> uuid \<Rightarrow> sandbox list \<Rightarrow> sandbox result" where
  "sandbox_Get env userID sandboxID t =
     (if userID = uuid_Nil then Inl (NewUnauthorized ''authentication required'')
      else if sandboxID = uuid_Nil then Inl (NewBadRequest ''invalid sandbox ID'')
      else (case GetSandboxByID env sandboxID t of
              Inl _ \<Rightarrow> Inl (NewNotFound ''sandbox not found'')
            | Inr s \<Rightarrow> if sb_UserID s \<noteq> userID then Inl (NewNotFound ''sandbox not found'') else Inr s))"

definition sandbox_job :: "uuid \<Rightarrow> sandbox \<Rightarrow> lifecycle_event" where
  "sandbox_job userID s = \<lparr>le_SandboxID = sb_ID s, le_UserID = userID, le_VMID = sb_VmID s\<rparr>"

definition newVMID :: "string \<Rightarrow> string" where "newVMID vmUUID = ''sbx-'' @ vmUUID"

text \<open>The tables and the clock may be at another \<open>env2\<close> when the status is set after a failed dispatch.\<close>

definition sandbox_Create ::
  "call_env \<Rightarrow> call_env \<Rightarrow> uuid list \<Rightarrow> (string \<Rightarrow> string) \<Rightarrow> string \<Rightarrow> 'w dispatcher option \<Rightarrow> uuid \<Rightarrow> sandbox_request
    \<Rightarrow> sandbox list \<times> 'w \<Rightarrow> sandbox result \<times> sandbox list \<times> 'w" where
  "sandbox_Create env env2 uids ul vmUUID disp userID req s =
     (let (t, w) = s in
      if userID = uuid_Nil then (Inl (NewUnauthorized ''authentication required''), t, w)
      else (case disp of
              None \<Rightarrow> (Inl (NewServiceUnavailable ''sandbox execution is unavailable'' None), t, w)
            | Some d \<Rightarrow>
                let req = normalizeCreateRequest ul req
                in (case validateCreateRequest req of
                      Some err \<Rightarrow> (Inl err, t, w)
                    | None \<Rightarrow>
                        (case CreateSandbox env uids \<lparr>cs_UserID = userID, cs_VmID = newVMID vmUUID, cs_Template = sr_Template req,
                                 cs_Vcpu = sr_VCPU req, cs_MemoryMb = sr_MemoryMB req, cs_TimeoutSeconds = sr_TimeoutSeconds req,
                                 cs_AllowedHosts = sr_AllowedHosts req, cs_Status = Some ''pending''\<rparr> t of
                           (Inl err, t) \<Rightarrow> (Inl err, t, w)
                         | (Inr row, t) \<Rightarrow>
                             (case DispatchCreate d (sandbox_job userID row) w of
                                (None, w) \<Rightarrow> (Inr row, t, w)
                              | (Some err, w) \<Rightarrow>
                                  (case UpdateSandboxStatus env2 uids ''failed'' (sb_ID row) t of
                                     (Inl statusErr, t) \<Rightarrow>
                                       (Inl (NewInternal ''sandbox provisioning failed and status update failed''
                                          (Some (Wrapf ''provision: '' err (''; status update: '' @ Error statusErr)))), t, w)
                                   | (Inr _, t) \<Rightarrow> (Inl (NewInternal ''sandbox provisioning failed'' (Some err)), t, w)))))))"

definition sandbox_Delete ::
  "call_env \<Rightarrow> call_env \<Rightarrow> uuid list \<Rightarrow> 'w dispatcher option \<Rightarrow> uuid \<Rightarrow> uuid \<Rightarrow> sandbox list \<times> 'w
    \<Rightarrow> error option \<times> sandbox list \<times> 'w" where
  "sandbox_Delete env env2 uids disp userID sandboxID s =
     (let (t, w) = s in
      if userID = uuid_Nil then (Some (NewUnauthorized ''authentication required''), t, w)
      else (case disp of
              None \<Rightarrow> (Some (NewServiceUnavailable ''sandbox execution is unavailable'' None), t, w)
            | Some d \<Rightarrow>
                (case sandbox_Get env userID sandboxID t of
                   Inl err \<Rightarrow> (Some err, t, w)
                 | Inr row \<Rightarrow>
                     (case UpdateSandboxStatus env uids ''stopping'' (sb_ID row) t of
                        (Inl err, t) \<Rightarrow> (Some (NewInternal ''sandbox stop status update failed'' (Some err)), t, w)
                      | (Inr _, t) \<Rightarrow>
                          (case DispatchDestroy d (sandbox_job userID row) w of
                             (None, w) \<Rightarrow> (None, t, w)
                           | (Some err, w) \<Rightarrow>
                               (case UpdateSandboxStatus env2 uids ''cleanup_failed'' (sb_ID row) t of
                                  (Inl statusErr, t) \<Rightarrow>
                                    (Some (NewInternal ''sandbox cleanup failed and status update failed''
                                       (Some (Wrapf ''destroy: '' err (''; status update: '' @ Error statusErr)))), t, w)
                                | (Inr _, t) \<Rightarrow> (Some (NewInternal ''sandbox cleanup failed'' (Some err)), t, w)))))))"

section \<open>Handlers\<close>

text \<open>
  A handler gets the principal of the request and answers with a response. \<open>body\<close> is the decoded JSON body,
  \<open>parse\<close> is \<open>uuid.Parse\<close>, and \<open>fmt\<close> prints a time in the format of HTTP.
\<close>

record sandbox_response =
  rs_ID :: uuid
  rs_UserID :: uuid
  rs_VMID :: string
  rs_Template :: string
  rs_Status :: string
  rs_VCPU :: int
  rs_MemoryMB :: int
  rs_TimeoutSeconds :: int
  rs_AllowedHosts :: "string list"
  rs_CreatedAt :: string
  rs_StartedAt :: string
  rs_StoppedAt :: string
  rs_UpdatedAt :: string

definition FormatTime :: "(time \<Rightarrow> string) \<Rightarrow> time option \<Rightarrow> string" where
  "FormatTime fmt v =
     (case v of
        None \<Rightarrow> []
      | Some _ \<Rightarrow> let t = TimestamptzToTime v in if t = zero_time then [] else fmt t)"

definition newResponse :: "(time \<Rightarrow> string) \<Rightarrow> sandbox \<Rightarrow> sandbox_response" where
  "newResponse fmt s =
     \<lparr>rs_ID = sb_ID s, rs_UserID = sb_UserID s, rs_VMID = sb_VmID s, rs_Template = sb_Template s, rs_Status = sb_Status s,
      rs_VCPU = sb_Vcpu s, rs_MemoryMB = sb_MemoryMb s, rs_TimeoutSeconds = sb_TimeoutSeconds s,
      rs_AllowedHosts = sb_AllowedHosts s, rs_CreatedAt = FormatTime fmt (sb_CreatedAt s),
      rs_StartedAt = FormatTime fmt (sb_StartedAt s), rs_StoppedAt = FormatTime fmt (sb_StoppedAt s),
      rs_UpdatedAt = FormatTime fmt (sb_UpdatedAt s)\<rparr>"

definition not_signed_in :: "'d response" where
  "not_signed_in = http_Error (NewUnauthorized ''authentication required'')"

definition handler_List :: "call_env \<Rightarrow> (time \<Rightarrow> string) \<Rightarrow> principal option \<Rightarrow> sandbox list \<Rightarrow> sandbox_response list response" where
  "handler_List env fmt ctx t =
     (case UserIDFromContext ctx of
        None \<Rightarrow> not_signed_in
      | Some userID \<Rightarrow>
          (case sandbox_List env userID t of
             Inl err \<Rightarrow> http_Error err
           | Inr rows \<Rightarrow> http_OK (map (newResponse fmt) rows)))"

definition handler_Get ::
  "call_env \<Rightarrow> (time \<Rightarrow> string) \<Rightarrow> (string \<Rightarrow> uuid option) \<Rightarrow> principal option \<Rightarrow> string \<Rightarrow> sandbox list \<Rightarrow> sandbox_response response" where
  "handler_Get env fmt parse ctx i t =
     (case UserIDFromContext ctx of
        None \<Rightarrow> not_signed_in
      | Some userID \<Rightarrow>
          (case parse i of
             None \<Rightarrow> http_Error (NewBadRequest ''invalid sandbox ID'')
           | Some sandboxID \<Rightarrow>
               (case sandbox_Get env userID sandboxID t of
                  Inl err \<Rightarrow> http_Error err
                | Inr s \<Rightarrow> http_OK (newResponse fmt s))))"

definition handler_Create ::
  "call_env \<Rightarrow> call_env \<Rightarrow> uuid list \<Rightarrow> (string \<Rightarrow> string) \<Rightarrow> string \<Rightarrow> 'w dispatcher option \<Rightarrow> (time \<Rightarrow> string)
    \<Rightarrow> principal option \<Rightarrow> sandbox_request option \<Rightarrow> sandbox list \<times> 'w \<Rightarrow> sandbox_response response \<times> sandbox list \<times> 'w" where
  "handler_Create env env2 uids ul vmUUID disp fmt ctx body s =
     (case body of
        None \<Rightarrow> (http_Error (NewBadRequest ''invalid request body''), s)
      | Some req \<Rightarrow>
          (case UserIDFromContext ctx of
             None \<Rightarrow> (not_signed_in, s)
           | Some userID \<Rightarrow>
               (case sandbox_Create env env2 uids ul vmUUID disp userID req s of
                  (Inl err, s) \<Rightarrow> (http_Error err, s)
                | (Inr row, s) \<Rightarrow> (http_Created (newResponse fmt row), s))))"

definition handler_Delete ::
  "call_env \<Rightarrow> call_env \<Rightarrow> uuid list \<Rightarrow> 'w dispatcher option \<Rightarrow> (string \<Rightarrow> uuid option) \<Rightarrow> principal option \<Rightarrow> string
    \<Rightarrow> sandbox list \<times> 'w \<Rightarrow> string response \<times> sandbox list \<times> 'w" where
  "handler_Delete env env2 uids disp parse ctx i s =
     (case UserIDFromContext ctx of
        None \<Rightarrow> (not_signed_in, s)
      | Some userID \<Rightarrow>
          (case parse i of
             None \<Rightarrow> (http_Error (NewBadRequest ''invalid sandbox ID''), s)
           | Some sandboxID \<Rightarrow>
               (case sandbox_Delete env env2 uids disp userID sandboxID s of
                  (Some err, s) \<Rightarrow> (http_Error err, s)
                | (None, s) \<Rightarrow> (http_OK ''sandbox deleted'', s))))"

text \<open>A new sandbox of \<open>userID\<close> within the limits.\<close>

definition fresh_sandbox :: "uuid \<Rightarrow> string \<Rightarrow> sandbox \<Rightarrow> bool" where
  "fresh_sandbox userID vmUUID s \<longleftrightarrow> sb_UserID s = userID \<and> sb_VmID s = newVMID vmUUID \<and> sb_StartedAt s = None
     \<and> 1 \<le> sb_Vcpu s \<and> sb_Vcpu s \<le> 8 \<and> 128 \<le> sb_MemoryMb s \<and> sb_MemoryMb s \<le> 8192
     \<and> 30 \<le> sb_TimeoutSeconds s \<and> sb_TimeoutSeconds s \<le> 3600"

text \<open>A signed-in user and a table with a sandbox of somebody else, used to evaluate the definitions.\<close>

definition sandbox_env :: call_env where
  "sandbox_env = \<lparr>wall = 100, now = 100, gen_uuid = 9, rand = (\<lambda>_. Inr []), down = (\<lambda>_. None)\<rparr>"

definition demo_sandbox :: sandbox where
  "demo_sandbox =
     \<lparr>sb_ID = 5, sb_UserID = 2, sb_VmID = ''a'', sb_Template = ''x'', sb_Status = ''pending'', sb_Vcpu = 1, sb_MemoryMb = 512,
      sb_TimeoutSeconds = 300, sb_AllowedHosts = [], sb_CreatedAt = Some 1, sb_StartedAt = None, sb_StoppedAt = None,
      sb_UpdatedAt = Some 1\<rparr>"

definition demo_user :: principal where
  "demo_user = \<lparr>Subject = \<lparr>subj_ID = 3, subj_Type = SubjectUser\<rparr>,
     Credential = \<lparr>cred_ID = 4, cred_Type = CredentialSession\<rparr>, Assurance = AssurancePassword\<rparr>"

definition silent_dispatcher :: "unit dispatcher" where
  "silent_dispatcher = \<lparr>DispatchCreate = (\<lambda>_ w. (None, w)), DispatchDestroy = (\<lambda>_ w. (None, w))\<rparr>"

section \<open>Queries on a table that satisfies its constraints\<close>

lemma sb_commit_cases:
  obtains (refused) err where "sb_commit env uids name t t' r = (Inl err, t)"
  | (accepted) "sb_commit env uids name t t' r = (r, t')" "sandboxes_ok uids t'" "down env name = None"
  unfolding sb_commit_def by (cases "down env name"; cases "sandboxes_ok uids t'") auto

lemma sandbox_unique:
  assumes "sandboxes_ok uids t" "s \<in> set t" "s' \<in> set t" "sb_ID s = sb_ID s'"
  shows "s = s'"
  using assms(1) unfolding sandboxes_ok_def distinct_map by (meson assms(2-4) inj_onD)

lemma set_status_simps [simp]:
  "sb_ID (set_status env status s) = sb_ID s" "sb_UserID (set_status env status s) = sb_UserID s"
  "sb_VmID (set_status env status s) = sb_VmID s" "sb_Template (set_status env status s) = sb_Template s"
  "sb_Status (set_status env status s) = status"
  by (simp_all add: set_status_def)

text \<open>Every status that the program knows is accepted, so a reachable database never refuses it.\<close>

lemma update_status_keeps:
  assumes "sandboxes_ok uids t" "status \<in> set sandbox_statuses"
  shows "sandboxes_ok uids (update_where (\<lambda>s. sb_ID s = i) (set_status env status) t)"
proof -
  let ?P = "\<lambda>s. sb_ID s = i" and ?f = "set_status env status"
  have "map sb_ID (update_where ?P ?f t) = map sb_ID t" "map sb_VmID (update_where ?P ?f t) = map sb_VmID t"
    by (rule update_where_keeps, simp)+
  moreover have "sandbox_row_ok uids s'" if s': "s' \<in> set (update_where ?P ?f t)" for s'
  proof -
    obtain s where s: "s \<in> set t" "s' = (if ?P s then ?f s else s)" using s' by (rule update_where_mem)
    then have "sandbox_row_ok uids s" using assms(1) by (simp add: sandboxes_ok_def list_all_iff)
    with s(2) assms(2) show ?thesis by (simp add: sandbox_row_ok_def)
  qed
  ultimately show ?thesis using assms(1) by (simp add: sandboxes_ok_def list_all_iff)
qed

lemma UpdateSandboxStatus_ok:
  assumes "sandboxes_ok uids t" "s \<in> set t" "status \<in> set sandbox_statuses" "down env ''UpdateSandboxStatus'' = None"
  shows "UpdateSandboxStatus env uids status (sb_ID s) t
    = (Inr (set_status env status s), update_where (\<lambda>x. sb_ID x = sb_ID s) (set_status env status) t)"
proof -
  have "filter (\<lambda>x. sb_ID x = sb_ID s) t = [s]"
    using assms(1,2) by (intro unique_filter [of sb_ID]) (simp_all add: sandboxes_ok_def)
  then show ?thesis
    using update_status_keeps [OF assms(1,3), of "sb_ID s" env] assms(4)
    by (simp add: UpdateSandboxStatus_def sb_commit_def)
qed

lemma GetSandboxByID_Inr:
  assumes "GetSandboxByID env i t = Inr s"
  shows "s \<in> set t" "sb_ID s = i"
  using assms by (auto simp: GetSandboxByID_def select_one_def split: option.splits list.splits dest!: filter_ConsD)

lemma GetSandboxByID_owner:
  assumes "sandboxes_ok uids t" "s \<in> set t" "GetSandboxByID env (sb_ID s) t = Inr r"
  shows "r = s"
  using GetSandboxByID_Inr [OF assms(3)] sandbox_unique [OF assms(1) _ assms(2)] by blast

lemma ListSandboxesByUser_mem:
  "ListSandboxesByUser env u t = Inr rows \<Longrightarrow> s \<in> set rows \<longleftrightarrow> s \<in> set t \<and> sb_UserID s = u"
  by (auto simp: ListSandboxesByUser_def Let_def split: option.splits)

section \<open>Properties\<close>


lemma demo_sandbox_ok: "sandboxes_ok [2] [demo_sandbox]"
  by (simp add: sandboxes_ok_def sandbox_row_ok_def demo_sandbox_def sandbox_statuses_def RuneCountInString_ascii is_ascii_def)


lemma normalize_valid:
  assumes "validateCreateRequest req = None"
  shows "1 \<le> sr_VCPU req \<and> sr_VCPU req \<le> 8 \<and> 128 \<le> sr_MemoryMB req \<and> sr_MemoryMB req \<le> 8192
    \<and> 30 \<le> sr_TimeoutSeconds req \<and> sr_TimeoutSeconds req \<le> 3600"
  using assms by (auto simp: validateCreateRequest_def split: if_splits)

lemma CreateSandbox_cases:
  obtains (refused) err where "CreateSandbox env uids arg t = (Inl err, t)"
  | (accepted) s where "CreateSandbox env uids arg t = (Inr s, t @ [s])" "sandboxes_ok uids (t @ [s])"
      "cs_Status arg = Some (sb_Status s)" "sb_UserID s = cs_UserID arg" "sb_VmID s = cs_VmID arg" "sb_Vcpu s = cs_Vcpu arg"
      "sb_MemoryMb s = cs_MemoryMb arg" "sb_TimeoutSeconds s = cs_TimeoutSeconds arg" "sb_StartedAt s = None"
proof (cases "cs_Status arg")
  case None
  then show ?thesis by (intro refused) (simp add: CreateSandbox_def)
next
  case (Some status)
  define row where "row = \<lparr>sb_ID = gen_uuid env, sb_UserID = cs_UserID arg, sb_VmID = cs_VmID arg, sb_Template = cs_Template arg,
    sb_Status = status, sb_Vcpu = cs_Vcpu arg, sb_MemoryMb = cs_MemoryMb arg, sb_TimeoutSeconds = cs_TimeoutSeconds arg,
    sb_AllowedHosts = cs_AllowedHosts arg, sb_CreatedAt = Some (now env), sb_StartedAt = None, sb_StoppedAt = None,
    sb_UpdatedAt = Some (now env)\<rparr>"
  have c: "CreateSandbox env uids arg t = sb_commit env uids ''CreateSandbox'' t (t @ [row]) (Inr row)"
    using Some by (simp add: CreateSandbox_def row_def Let_def)
  show ?thesis
  proof (cases rule: sb_commit_cases [of env uids "''CreateSandbox''" t "t @ [row]" "Inr row"])
    case (refused err)
    with c show ?thesis by (intro that(1)) simp
  next
    case accepted
    with c Some show ?thesis by (intro that(2) [of row]) (simp_all add: row_def)
  qed
qed

lemma update_last:
  assumes "sandboxes_ok uids (t @ [s])"
  shows "update_where (\<lambda>x. sb_ID x = sb_ID s) f (t @ [s]) = t @ [f s]"
proof -
  have "sb_ID s \<notin> sb_ID ` set t" using assms by (simp add: sandboxes_ok_def)
  then have "update_where (\<lambda>x. sb_ID x = sb_ID s) f t = t" by (intro update_where_none) (metis imageI)
  then show ?thesis by (simp add: update_where_def)
qed

text \<open>
  What creating a sandbox leaves behind. On success there is exactly one new row, of the caller, within the limits and
  pending, and its job has been sent. On an error either nothing has happened at all, or the job could not be sent and
  the new row is marked as failed unless that update failed, too.
\<close>

theorem sandbox_Create_outcome:
  assumes "sandboxes_ok uids t"
    and "sandbox_Create env env2 uids ul vmUUID (Some d) userID req (t, w) = (r, t', w')"
  shows "case r of
      Inr s \<Rightarrow> t' = t @ [s] \<and> fresh_sandbox userID vmUUID s \<and> sb_Status s = ''pending''
        \<and> DispatchCreate d (sandbox_job userID s) w = (None, w')
    | Inl err \<Rightarrow> t' = t \<and> w' = w
        \<or> (\<exists>s e. fresh_sandbox userID vmUUID s \<and> DispatchCreate d (sandbox_job userID s) w = (Some e, w')
             \<and> t' = t @ [if down env2 ''UpdateSandboxStatus'' = None then set_status env2 ''failed'' s else s])"
proof -
  let ?req = "normalizeCreateRequest ul req"
  let ?arg = "\<lparr>cs_UserID = userID, cs_VmID = newVMID vmUUID, cs_Template = sr_Template ?req, cs_Vcpu = sr_VCPU ?req,
    cs_MemoryMb = sr_MemoryMB ?req, cs_TimeoutSeconds = sr_TimeoutSeconds ?req, cs_AllowedHosts = sr_AllowedHosts ?req,
    cs_Status = Some ''pending''\<rparr>"
  show ?thesis
  proof (cases "userID = uuid_Nil \<or> validateCreateRequest ?req \<noteq> None")
    case True
    then have "(\<exists>err. r = Inl err) \<and> t' = t \<and> w' = w"
      using assms(2) unfolding sandbox_Create_def Let_def
      by (cases "userID = uuid_Nil"; cases "validateCreateRequest ?req") auto
    then show ?thesis by auto
  next
    case False
    then have v: "validateCreateRequest ?req = None" and u: "userID \<noteq> uuid_Nil" by blast+
    show ?thesis
    proof (cases rule: CreateSandbox_cases [of env uids ?arg t])
      case (refused err)
      then have "r = Inl err \<and> t' = t \<and> w' = w" using assms(2) u v by (simp add: sandbox_Create_def Let_def)
      then show ?thesis by auto
    next
      case (accepted s)
      have f: "fresh_sandbox userID vmUUID s" "sb_Status s = ''pending''"
        using accepted(3-9) normalize_valid [OF v] by (simp_all add: fresh_sandbox_def)
      obtain de w1 where disp: "DispatchCreate d (sandbox_job userID s) w = (de, w1)" by (rule prod.exhaust)
      show ?thesis
      proof (cases de)
        case None
        then have "r = Inr s \<and> t' = t @ [s] \<and> w' = w1"
          using assms(2) u v accepted(1) disp by (simp add: sandbox_Create_def Let_def)
        then show ?thesis using f disp None by simp
      next
        case (Some e)
        have upd: "snd (UpdateSandboxStatus env2 uids ''failed'' (sb_ID s) (t @ [s]))
            = t @ [if down env2 ''UpdateSandboxStatus'' = None then set_status env2 ''failed'' s else s]"
          using UpdateSandboxStatus_ok [OF accepted(2), of s "''failed''" env2] update_last [OF accepted(2)]
          by (cases "down env2 ''UpdateSandboxStatus''")
            (simp_all add: sandbox_statuses_def UpdateSandboxStatus_def sb_commit_def)
        have "(\<exists>err. r = Inl err) \<and> w' = w1 \<and> t' = snd (UpdateSandboxStatus env2 uids ''failed'' (sb_ID s) (t @ [s]))"
          using assms(2) u v accepted(1) disp Some by (auto simp: sandbox_Create_def Let_def split: prod.splits sum.splits)
        then obtain err where r: "r = Inl err" "w' = w1"
          "t' = t @ [if down env2 ''UpdateSandboxStatus'' = None then set_status env2 ''failed'' s else s]"
          unfolding upd by blast
        show ?thesis
          unfolding r(1) sum.case by (intro disjI2 exI [of _ s] exI [of _ e] conjI f(1) r(3)) (use disp Some r(2) in simp)
      qed
    qed
  qed
qed

theorem sandbox_Create_outcome_witness:
  "\<exists>s. sandbox_Create sandbox_env sandbox_env [2] (\<lambda>x. x) ''u'' (Some silent_dispatcher) 2
      \<lparr>sr_Template = ''x'', sr_VCPU = 0, sr_MemoryMB = 0, sr_TimeoutSeconds = 0, sr_AllowedHosts = []\<rparr> ([], ()) = (Inr s, [s], ())
    \<and> fresh_sandbox 2 ''u'' s"
proof -
  let ?req = "\<lparr>sr_Template = ''x'', sr_VCPU = 0, sr_MemoryMB = 0, sr_TimeoutSeconds = 0, sr_AllowedHosts = []\<rparr>"
  have "TrimSpace ''x'' = ''x''" by (simp add: TrimSpace_ascii is_ascii_def trim_both_def is_space_def)
  then have "\<exists>s. sandbox_Create sandbox_env sandbox_env [2] (\<lambda>x. x) ''u'' (Some silent_dispatcher) 2 ?req ([], ()) = (Inr s, [s], ())"
    by (simp add: sandbox_Create_def normalizeCreateRequest_def validateCreateRequest_def CreateSandbox_def sb_commit_def
        sandboxes_ok_def sandbox_row_ok_def sandbox_statuses_def sandbox_env_def silent_dispatcher_def newVMID_def uuid_Nil_def
        RuneCountInString_ascii is_ascii_def Let_def)
  then obtain s where s: "sandbox_Create sandbox_env sandbox_env [2] (\<lambda>x. x) ''u'' (Some silent_dispatcher) 2 ?req ([], ()) = (Inr s, [s], ())"
    by blast
  have "sandboxes_ok [2] []" by (simp add: sandboxes_ok_def)
  from sandbox_Create_outcome [OF this s] s show ?thesis by auto
qed

end
