(* ===== verification/Sandbox_Worker.thy ===== *)
theory Sandbox_Worker
  imports Sandbox_Service Vmm_Manager
begin

text \<open>
  \<open>internal/runtime/worker\<close>: the worker that takes the jobs from the bus and drives the VM manager.
  The state of a job is the table of sandboxes, the manager and its host; \<open>envs k\<close> surrounds the \<open>k\<close>-th statement on
  the table. \<open>unmarshal\<close> is \<open>json.Unmarshal\<close> for jobs. The context of a job never ends. The handles of
  consumers are named by their subjects.
\<close>

section \<open>Jobs\<close>

type_synonym ('m, 'h) site = "sandbox list \<times> 'm manager \<times> 'h"

definition handleSandboxCreate ::
  "('m, 'h) vmm_env \<Rightarrow> (nat \<Rightarrow> call_env) \<Rightarrow> uuid list \<Rightarrow> lifecycle_event \<Rightarrow> ('m, 'h) site \<Rightarrow> error option \<times> ('m, 'h) site" where
  "handleSandboxCreate E envs uids event s =
     (let (t, m, h) = s in
      (case UpdateSandboxStatus (envs 0) uids ''provisioning'' (le_SandboxID event) t of
         (Inl err, t) \<Rightarrow> (Some (Wrapf ''mark sandbox provisioning: '' err []), t, m, h)
       | (Inr _, t) \<Rightarrow>
           (case ProvisionVM E None (le_VMID event) m h of
              (Inl err, m, h) \<Rightarrow>
                (case UpdateSandboxStatus (envs 1) uids ''failed'' (le_SandboxID event) t of
                   (_, t) \<Rightarrow> (Some (Wrapf ''provision sandbox vm: '' err []), t, m, h))
            | (Inr _, m, h) \<Rightarrow>
                (case UpdateSandboxStatus (envs 1) uids ''running'' (le_SandboxID event) t of
                   (Inl err, t) \<Rightarrow> (Some (Wrapf ''mark sandbox running: '' err []), t, m, h)
                 | (Inr _, t) \<Rightarrow> (None, t, m, h)))))"

definition handleSandboxDestroy ::
  "('m, 'h) vmm_env \<Rightarrow> (nat \<Rightarrow> call_env) \<Rightarrow> uuid list \<Rightarrow> lifecycle_event \<Rightarrow> ('m, 'h) site \<Rightarrow> error option \<times> ('m, 'h) site" where
  "handleSandboxDestroy E envs uids event s =
     (let (t, m, h) = s in
      (case DestroyVM E (le_VMID event) m h of
         (Some err, m, h) \<Rightarrow>
           (case UpdateSandboxStatus (envs 0) uids ''cleanup_failed'' (le_SandboxID event) t of
              (_, t) \<Rightarrow> (Some (Wrapf ''destroy sandbox vm: '' err []), t, m, h))
       | (None, m, h) \<Rightarrow>
           (case UpdateSandboxStatus (envs 0) uids ''stopped'' (le_SandboxID event) t of
              (Inl err, t) \<Rightarrow> (Some (Wrapf ''mark sandbox stopped: '' err []), t, m, h)
            | (Inr _, t) \<Rightarrow>
                (case DeleteSandbox (envs 1) uids (le_SandboxID event) t of
                   (Some err, t) \<Rightarrow> (Some (Wrapf ''delete sandbox row: '' err []), t, m, h)
                 | (None, t) \<Rightarrow> (None, t, m, h)))))"

text \<open>The callback of a consumer and what it tells the bus.\<close>

datatype verdict = Term | Nak | Ack

definition on_message ::
  "(string \<Rightarrow> lifecycle_event option) \<Rightarrow> (lifecycle_event \<Rightarrow> 's \<Rightarrow> error option \<times> 's) \<Rightarrow> string \<Rightarrow> 's \<Rightarrow> verdict \<times> 's" where
  "on_message unmarshal handler data s =
     (case unmarshal data of
        None \<Rightarrow> (Term, s)
      | Some event \<Rightarrow>
          (case handler event s of
             (Some _, s) \<Rightarrow> (Nak, s)
           | (None, s) \<Rightarrow> (Ack, s)))"

section \<open>Consumers and the registry\<close>

definition sandboxCreateConsumer :: string where "sandboxCreateConsumer = ''shiyao-sandbox-create-worker''"
definition sandboxDestroyConsumer :: string where "sandboxDestroyConsumer = ''shiyao-sandbox-destroy-worker''"
definition consumerAckWait :: int where "consumerAckWait = 120000000"
definition consumerMaxDeliver :: int where "consumerMaxDeliver = 5"

text \<open>\<open>consume\<close> starts the callback of a consumer and \<open>stop\<close> stops it.\<close>

definition consumeSandboxLifecycle ::
  "'w nats_api \<Rightarrow> (string \<Rightarrow> string) \<Rightarrow> (string \<Rightarrow> 'w \<Rightarrow> error option \<times> 'w) \<Rightarrow> client option \<Rightarrow> string \<Rightarrow> string \<Rightarrow> 'w
    \<Rightarrow> string result \<times> 'w" where
  "consumeSandboxLifecycle api quote consume c durable subject w =
     (case CreateOrUpdateConsumer api quote True c JobsStreamName
             \<lparr>cc_Durable = durable, cc_Name = durable, cc_FilterSubject = subject, cc_AckWait = consumerAckWait,
              cc_MaxDeliver = consumerMaxDeliver\<rparr> w of
        (Some err, w) \<Rightarrow> (Inl err, w)
      | (None, w) \<Rightarrow>
          (case consume subject w of
             (Some err, w) \<Rightarrow> (Inl (Wrapf (''consume '' @ subject @ '': '') err []), w)
           | (None, w) \<Rightarrow> (Inr subject, w)))"

definition subscribe ::
  "'w nats_api \<Rightarrow> (string \<Rightarrow> string) \<Rightarrow> (string \<Rightarrow> 'w \<Rightarrow> error option \<times> 'w) \<Rightarrow> (string \<Rightarrow> 'w \<Rightarrow> 'w) \<Rightarrow> client option \<Rightarrow> 'w
    \<Rightarrow> string list result \<times> 'w" where
  "subscribe api quote consume stop c w =
     (case Provision api True c DefaultStreamLimits w of
        (Some err, w) \<Rightarrow> (Inl err, w)
      | (None, w) \<Rightarrow>
          (case consumeSandboxLifecycle api quote consume c sandboxCreateConsumer SubjectSandboxCreate w of
             (Inl err, w) \<Rightarrow> (Inl err, w)
           | (Inr createHandle, w) \<Rightarrow>
               (case consumeSandboxLifecycle api quote consume c sandboxDestroyConsumer SubjectSandboxDestroy w of
                  (Inl err, w) \<Rightarrow> (Inl err, stop createHandle w)
                | (Inr destroyHandle, w) \<Rightarrow> (Inr [createHandle, destroyHandle], w))))"

record 'm worker =
  wk_DB :: bool
  wk_NATS :: "client option"
  wk_VMM :: "'m manager"
  wk_Consumers :: "string list"

definition worker_Close ::
  "'w nats_api \<Rightarrow> (string \<Rightarrow> 'w \<Rightarrow> 'w) \<Rightarrow> ('w \<Rightarrow> 'w) \<Rightarrow> 'm worker \<Rightarrow> 'w \<Rightarrow> 'w" where
  "worker_Close api stop closeDB r w =
     (let w = fold stop (wk_Consumers r) w;
          w = (if wk_NATS r \<noteq> None then snd (nats_Close api (wk_NATS r) w) else w)
      in if wk_DB r then closeDB w else w)"

text \<open>\<open>vmmConfig\<close> and \<open>uplink\<close> are what \<open>internal/config\<close> has loaded.\<close>

definition worker_New ::
  "'w nats_api \<Rightarrow> (string \<Rightarrow> string) \<Rightarrow> (string \<Rightarrow> 'w \<Rightarrow> error option \<times> 'w) \<Rightarrow> (string \<Rightarrow> 'w \<Rightarrow> 'w) \<Rightarrow> ('w \<Rightarrow> 'w) \<Rightarrow> vm_config
    \<Rightarrow> string \<Rightarrow> bool \<Rightarrow> client option \<Rightarrow> 'w \<Rightarrow> 'm worker result \<times> 'w" where
  "worker_New api quote consume stop closeDB vmmConfig uplink db c w =
     (case vm_Validate vmmConfig of
        Some err \<Rightarrow> (Inl (Wrapf ''validate vmm config: '' err []), w)
      | None \<Rightarrow>
          let r = \<lparr>wk_DB = db, wk_NATS = c,
                   wk_VMM = NewManager vmmConfig ((net_DefaultConfig [])\<lparr>UplinkInterface := uplink\<rparr>)
                     \<lparr>MemFilePath = [], StateFilePath = [], EnableResume = False\<rparr>,
                   wk_Consumers = []\<rparr>
          in (case subscribe api quote consume stop c w of
                (Inl err, w) \<Rightarrow> (Inl err, worker_Close api stop closeDB r w)
              | (Inr consumers, w) \<Rightarrow> (Inr (r\<lparr>wk_Consumers := consumers\<rparr>), w)))"

section \<open>All components together\<close>

text \<open>
  The API and the worker on one table, one manager and one host, which is also where the bus is. Requests and
  jobs come in any order, and jobs may be delivered again.
\<close>

inductive site_step :: "uuid list \<Rightarrow> ('m, 'h) site \<Rightarrow> ('m, 'h) site \<Rightarrow> bool" for uids where
  site_create: "sandbox_Create env env2 uids ul vmUUID disp userID req (t, h) = (r, t', h') \<Longrightarrow> site_step uids (t, m, h) (t', m, h')"
| site_delete: "sandbox_Delete env env2 uids disp userID i (t, h) = (e, t', h') \<Longrightarrow> site_step uids (t, m, h) (t', m, h')"
| site_provision: "handleSandboxCreate E envs uids event (t, m, h) = (e, s') \<Longrightarrow> site_step uids (t, m, h) s'"
| site_destroy: "handleSandboxDestroy E envs uids event (t, m, h) = (e, s') \<Longrightarrow> site_step uids (t, m, h) s'"

definition within_limits :: "sandbox \<Rightarrow> bool" where
  "within_limits s \<longleftrightarrow> 1 \<le> sb_Vcpu s \<and> sb_Vcpu s \<le> 8 \<and> 128 \<le> sb_MemoryMb s \<and> sb_MemoryMb s \<le> 8192
     \<and> 30 \<le> sb_TimeoutSeconds s \<and> sb_TimeoutSeconds s \<le> 3600"

definition table_type :: "uuid list \<Rightarrow> sandbox list \<Rightarrow> bool" where
  "table_type uids t \<longleftrightarrow> sandboxes_ok uids t \<and> list_all within_limits t"

definition site_type :: "uuid list \<Rightarrow> ('m, 'h) site \<Rightarrow> bool" where
  "site_type uids s \<longleftrightarrow> table_type uids (fst s) \<and> mgr_inv (fst (snd s))"

section \<open>Steps on the table\<close>

text \<open>A statement keeps the type of the table, whether it is accepted or not.\<close>

lemma update_status_type:
  assumes "table_type uids t" "UpdateSandboxStatus env uids status i t = (r, t')"
  shows "table_type uids t'"
proof (cases rule: sb_commit_cases [of env uids "''UpdateSandboxStatus''" t "update_where (\<lambda>s. sb_ID s = i) (set_status env status) t"
      "case filter (\<lambda>s. sb_ID s = i) t of [] \<Rightarrow> Inl ErrNoRows | s # _ \<Rightarrow> Inr (set_status env status s)"])
  case (refused err)
  with assms show ?thesis by (simp add: UpdateSandboxStatus_def Let_def)
next
  case accepted
  then have t': "t' = update_where (\<lambda>s. sb_ID s = i) (set_status env status) t" using assms(2) by (simp add: UpdateSandboxStatus_def Let_def)
  have "within_limits s'" if s': "s' \<in> set t'" for s'
  proof -
    obtain s where "s \<in> set t" "s' = (if sb_ID s = i then set_status env status s else s)" using s' unfolding t' by (rule update_where_mem)
    then show ?thesis using assms(1) by (auto simp: table_type_def list_all_iff within_limits_def set_status_def)
  qed
  with accepted(2) t' show ?thesis by (simp add: table_type_def list_all_iff)
qed

lemma create_type:
  assumes "table_type uids t" "CreateSandbox env uids arg t = (r, t')"
    "1 \<le> cs_Vcpu arg" "cs_Vcpu arg \<le> 8" "128 \<le> cs_MemoryMb arg" "cs_MemoryMb arg \<le> 8192"
    "30 \<le> cs_TimeoutSeconds arg" "cs_TimeoutSeconds arg \<le> 3600"
  shows "table_type uids t'"
  by (cases rule: CreateSandbox_cases [of env uids arg t]) (use assms in \<open>auto simp: table_type_def within_limits_def\<close>)

lemma delete_type:
  assumes "table_type uids t" "DeleteSandbox env uids i t = (r, t')"
  shows "table_type uids t'"
  using assms
  by (cases rule: sb_commit_cases [of env uids "''DeleteSandbox''" t "filter (\<lambda>s. sb_ID s \<noteq> i) t" "Inr ()"])
    (auto simp: DeleteSandbox_def table_type_def list_all_iff split: if_splits)

lemma sandbox_Create_type:
  assumes "table_type uids t" "sandbox_Create env env2 uids ul vmUUID disp userID req (t, w) = (r, t', w')"
  shows "table_type uids t'"
proof (cases disp)
  case None
  with assms show ?thesis by (simp add: sandbox_Create_def split: if_splits)
next
  case (Some d)
  have ok: "sandboxes_ok uids t" using assms(1) by (simp add: table_type_def)
  have fresh: "table_type uids (t @ [s])" if "fresh_sandbox userID vmUUID s" "sandboxes_ok uids (t @ [s])" for s
    using assms(1) that by (simp add: table_type_def fresh_sandbox_def within_limits_def)
  let ?req = "normalizeCreateRequest ul req"
  let ?arg = "\<lparr>cs_UserID = userID, cs_VmID = newVMID vmUUID, cs_Template = sr_Template ?req, cs_Vcpu = sr_VCPU ?req,
    cs_MemoryMb = sr_MemoryMB ?req, cs_TimeoutSeconds = sr_TimeoutSeconds ?req, cs_AllowedHosts = sr_AllowedHosts ?req,
    cs_Status = Some ''pending''\<rparr>"
  show ?thesis
  proof (cases "userID = uuid_Nil \<or> validateCreateRequest ?req \<noteq> None")
    case True
    then show ?thesis using assms Some unfolding sandbox_Create_def Let_def
      by (cases "userID = uuid_Nil"; cases "validateCreateRequest ?req") auto
  next
    case False
    then have v: "validateCreateRequest ?req = None" and u: "userID \<noteq> uuid_Nil" by blast+
    obtain r1 t1 where c: "CreateSandbox env uids ?arg t = (r1, t1)" by (rule prod.exhaust)
    have t1: "table_type uids t1" by (rule create_type [OF assms(1) c]) (use normalize_valid [OF v] in simp_all)
    have "t' = t1 \<or> (\<exists>i x. UpdateSandboxStatus env2 uids ''failed'' i t1 = (x, t'))"
      using assms(2) u v c Some by (auto simp: sandbox_Create_def Let_def split: prod.splits sum.splits option.splits)
    with t1 show ?thesis using update_status_type [OF t1] by blast
  qed
qed

lemma sandbox_Delete_type:
  assumes "table_type uids t" "sandbox_Delete env env2 uids disp userID i (t, w) = (e, t', w')"
  shows "table_type uids t'"
proof -
  have "t' = t \<or> (\<exists>j x t1. UpdateSandboxStatus env uids ''stopping'' j t = (x, t1)
      \<and> (t' = t1 \<or> (\<exists>y. UpdateSandboxStatus env2 uids ''cleanup_failed'' j t1 = (y, t'))))"
    using assms(2) by (auto simp: sandbox_Delete_def Let_def split: if_splits prod.splits sum.splits option.splits)
  with assms(1) show ?thesis using update_status_type by blast
qed

text \<open>What each job does: it is given by its calls.\<close>

lemma create_job_cases:
  assumes "handleSandboxCreate E envs uids event (t, m, h) = (e, t', m', h')"
  obtains (unmarked) x where "UpdateSandboxStatus (envs 0) uids ''provisioning'' (le_SandboxID event) t = (Inl x, t')"
      "e \<noteq> None" "m' = m" "h' = h"
  | (failed) x t1 err y where "UpdateSandboxStatus (envs 0) uids ''provisioning'' (le_SandboxID event) t = (Inr x, t1)"
      "ProvisionVM E None (le_VMID event) m h = (Inl err, m', h')"
      "UpdateSandboxStatus (envs 1) uids ''failed'' (le_SandboxID event) t1 = (y, t')" "e \<noteq> None"
  | (provisioned) x t1 ref y where "UpdateSandboxStatus (envs 0) uids ''provisioning'' (le_SandboxID event) t = (Inr x, t1)"
      "ProvisionVM E None (le_VMID event) m h = (Inr ref, m', h')"
      "UpdateSandboxStatus (envs 1) uids ''running'' (le_SandboxID event) t1 = (y, t')" "e = None \<longleftrightarrow> \<not> isl y"
  using assms unfolding handleSandboxCreate_def Let_def
  by (auto split: prod.splits sum.splits)

lemma destroy_job_cases:
  assumes "handleSandboxDestroy E envs uids event (t, m, h) = (e, t', m', h')"
  obtains (failed) err y where "DestroyVM E (le_VMID event) m h = (Some err, m', h')"
      "UpdateSandboxStatus (envs 0) uids ''cleanup_failed'' (le_SandboxID event) t = (y, t')" "e \<noteq> None"
  | (unmarked) x where "DestroyVM E (le_VMID event) m h = (None, m', h')"
      "UpdateSandboxStatus (envs 0) uids ''stopped'' (le_SandboxID event) t = (Inl x, t')" "e \<noteq> None"
  | (stopped) x t1 y where "DestroyVM E (le_VMID event) m h = (None, m', h')"
      "UpdateSandboxStatus (envs 0) uids ''stopped'' (le_SandboxID event) t = (Inr x, t1)"
      "DeleteSandbox (envs 1) uids (le_SandboxID event) t1 = (y, t')" "e = None \<longleftrightarrow> y = None"
  using assms unfolding handleSandboxDestroy_def Let_def
  by (auto split: prod.splits sum.splits option.splits)

lemma ProvisionVM_listed:
  assumes "mgr_inv m" "ProvisionVM E ctxErr vmID m h = (Inr ref, m', h')"
  shows "map_of (instances m') vmID = Some ref \<and> inst_state (inst_heap m' ! ref) = StateRunning"
proof -
  obtain m1 where b: "provision_body E ctxErr vmID (m\<lparr>provision := Suc (provision m)\<rparr>) h = (Inr ref, m1, h')"
    and m': "m' = m1\<lparr>provision := provision m1 - 1\<rparr>"
    using assms(2) by (auto simp: ProvisionVM_def split: if_splits prod.splits)
  have "mgr_inv (m\<lparr>provision := Suc (provision m)\<rparr>)" using assms(1) by simp
  from provision_running [OF this b] m' show ?thesis by simp
qed

lemma ProvisionVM_exists:
  assumes "map_of (instances m) vmID \<noteq> None"
  shows "\<exists>err. ProvisionVM E ctxErr vmID m h = (Inl err, m, h)"
proof -
  have "\<exists>err. provision_body E ctxErr vmID m1 h = (Inl err, m1, h)" if "instances m1 = instances m" for m1
    using assms that by (auto simp: provision_body_def CreateVM_def create_admit_def split: option.split)
  then obtain err where "provision_body E ctxErr vmID (m\<lparr>provision := Suc (provision m)\<rparr>) h
      = (Inl err, m\<lparr>provision := Suc (provision m)\<rparr>, h)" by fastforce
  then show ?thesis by (simp add: ProvisionVM_def)
qed

lemma DestroyVM_unlisted:
  assumes "mgr_inv m" "DestroyVM E vmID m h = (None, m', h')"
  shows "map_of (instances m') vmID = None"
proof -
  obtain ref m1 where ref: "map_of (instances m) vmID = Some ref" "vm_Stop E ref m h = (None, m1, h')" "m' = forget vmID ref m1"
    using assms(2) by (auto simp: DestroyVM_def split: option.splits prod.splits)
  have "ref < length (inst_heap m)" using map_of_SomeD [OF ref(1)] assms(1) by (auto simp: mgr_inv_pending_def)
  from Stop_at [OF ref(2) this] ref(1,3) show ?thesis by (auto simp: forget_def delete_conv)
qed

lemma handle_create_type:
  assumes "site_type uids s" "handleSandboxCreate E envs uids event s = (e, s')"
  shows "site_type uids s'"
proof -
  obtain t m h t' m' h' where s: "s = (t, m, h)" "s' = (t', m', h')" by (metis prod_cases3)
  have ty: "table_type uids t" "mgr_inv m" using assms(1) by (simp_all add: site_type_def s)
  show ?thesis
  proof (cases rule: create_job_cases [OF assms(2) [unfolded s]])
    case (1 x)
    then show ?thesis using ty update_status_type [OF ty(1) 1(1)] by (simp add: site_type_def s(2))
  next
    case (2 x t1 err y)
    then show ?thesis
      using update_status_type [OF update_status_type [OF ty(1) 2(1)] 2(3)] kept_Provision [OF ty(2) 2(2)]
      by (simp add: site_type_def s(2))
  next
    case (3 x t1 ref y)
    then show ?thesis
      using update_status_type [OF update_status_type [OF ty(1) 3(1)] 3(3)] kept_Provision [OF ty(2) 3(2)]
      by (simp add: site_type_def s(2))
  qed
qed

lemma handle_destroy_type:
  assumes "site_type uids s" "handleSandboxDestroy E envs uids event s = (e, s')"
  shows "site_type uids s'"
proof -
  obtain t m h t' m' h' where s: "s = (t, m, h)" "s' = (t', m', h')" by (metis prod_cases3)
  have ty: "table_type uids t" "mgr_inv m" using assms(1) by (simp_all add: site_type_def s)
  show ?thesis
  proof (cases rule: destroy_job_cases [OF assms(2) [unfolded s]])
    case (1 err y)
    then show ?thesis
      using update_status_type [OF ty(1) 1(2)] kept_Destroy [OF ty(2) 1(1)] by (simp add: site_type_def kept_def s(2))
  next
    case (2 x)
    then show ?thesis
      using update_status_type [OF ty(1) 2(2)] kept_Destroy [OF ty(2) 2(1)] by (simp add: site_type_def kept_def s(2))
  next
    case (3 x t1 y)
    then show ?thesis
      using delete_type [OF update_status_type [OF ty(1) 3(2)] 3(3)] kept_Destroy [OF ty(2) 3(1)]
      by (simp add: site_type_def kept_def s(2))
  qed
qed

lemma UpdateSandboxStatus_Inr:
  assumes "UpdateSandboxStatus env uids status i t = (Inr x, t')"
  shows "t' = update_where (\<lambda>s. sb_ID s = i) (set_status env status) t" "sandboxes_ok uids t'"
  by (cases rule: sb_commit_cases [of env uids "''UpdateSandboxStatus''" t "update_where (\<lambda>s. sb_ID s = i) (set_status env status) t"
        "case filter (\<lambda>s. sb_ID s = i) t of [] \<Rightarrow> Inl ErrNoRows | s # _ \<Rightarrow> Inr (set_status env status s)"];
      use assms in \<open>simp add: UpdateSandboxStatus_def Let_def\<close>)+

lemma update_status_row:
  assumes "s \<in> set t"
  shows "set_status env status s \<in> set (update_where (\<lambda>x. sb_ID x = sb_ID s) (set_status env status) t)"
  using update_where_in [OF assms, of "\<lambda>x. sb_ID x = sb_ID s" "set_status env status"] by simp

lemma filter_update_status:
  "filter (\<lambda>x. sb_ID x \<noteq> i) (update_where (\<lambda>x. sb_ID x = i) (set_status env status) t) = filter (\<lambda>x. sb_ID x \<noteq> i) t"
  by (induction t) (simp_all add: update_where_def)

lemma DeleteSandbox_None:
  assumes "DeleteSandbox env uids i t = (None, t')"
  shows "t' = filter (\<lambda>x. sb_ID x \<noteq> i) t"
  using assms
  by (cases rule: sb_commit_cases [of env uids "''DeleteSandbox''" t "filter (\<lambda>s. sb_ID s \<noteq> i) t" "Inr ()"])
    (auto simp: DeleteSandbox_def)

lemma create_job_done:
  assumes "sandboxes_ok uids t" "mgr_inv m" "s \<in> set t"
    "handleSandboxCreate E envs uids (sandbox_job u s) (t, m, h) = (None, t1, m1, h1)"
  shows "t1 = update_where (\<lambda>x. sb_ID x = sb_ID s) (set_status (envs 1) ''running'')
            (update_where (\<lambda>x. sb_ID x = sb_ID s) (set_status (envs 0) ''provisioning'') t)"
    and "sandboxes_ok uids t1" and "mgr_inv m1"
    and "\<exists>ref. map_of (instances m1) (sb_VmID s) = Some ref \<and> inst_state (inst_heap m1 ! ref) = StateRunning"
    and "\<exists>s1\<in>set t1. sb_ID s1 = sb_ID s \<and> sb_VmID s1 = sb_VmID s \<and> sb_Status s1 = ''running'' \<and> sb_StartedAt s1 = Some (now (envs 1))"
proof -
  have job: "le_SandboxID (sandbox_job u s) = sb_ID s" "le_VMID (sandbox_job u s) = sb_VmID s" by (simp_all add: sandbox_job_def)
  obtain x t0 ref y where c: "UpdateSandboxStatus (envs 0) uids ''provisioning'' (sb_ID s) t = (Inr x, t0)"
    "ProvisionVM E None (sb_VmID s) m h = (Inr ref, m1, h1)" "UpdateSandboxStatus (envs 1) uids ''running'' (sb_ID s) t0 = (Inr y, t1)"
    using create_job_cases [OF assms(4)] unfolding job by (metis option.distinct(1) sum.collapse(2))
  note u0 = UpdateSandboxStatus_Inr [OF c(1)] and u1 = UpdateSandboxStatus_Inr [OF c(3)]
  show "t1 = update_where (\<lambda>x. sb_ID x = sb_ID s) (set_status (envs 1) ''running'')
            (update_where (\<lambda>x. sb_ID x = sb_ID s) (set_status (envs 0) ''provisioning'') t)"
    using u1(1) u0(1) by simp
  show "sandboxes_ok uids t1" by (rule u1(2))
  show "mgr_inv m1" using kept_Provision [OF assms(2) c(2)] by blast
  show "\<exists>ref. map_of (instances m1) (sb_VmID s) = Some ref \<and> inst_state (inst_heap m1 ! ref) = StateRunning"
    using ProvisionVM_listed [OF assms(2) c(2)] by blast
  have "set_status (envs 0) ''provisioning'' s \<in> set t0" unfolding u0(1) by (rule update_status_row [OF assms(3)])
  from update_status_row [OF this, of "envs 1" "''running''"]
  have "set_status (envs 1) ''running'' (set_status (envs 0) ''provisioning'' s) \<in> set t1" unfolding u1(1) by simp
  then show "\<exists>s1\<in>set t1. sb_ID s1 = sb_ID s \<and> sb_VmID s1 = sb_VmID s \<and> sb_Status s1 = ''running'' \<and> sb_StartedAt s1 = Some (now (envs 1))"
    by (rule bexI [rotated]) (simp add: set_status_def)
qed

lemma demo_site:
  "\<exists>m t1. handleSandboxCreate demo_env (\<lambda>_. sandbox_env) [2] (sandbox_job 2 demo_sandbox) ([demo_sandbox], demo_mgr, ()) = (None, t1, m, ())"
proof -
  obtain m where m: "ProvisionVM demo_env None ''a'' demo_mgr () = (Inr 0, m, ())" using demo_provision by blast
  have up: "UpdateSandboxStatus sandbox_env [2] status 5 [x] = (Inr (set_status sandbox_env status x), [set_status sandbox_env status x])"
    if "sandboxes_ok [2] [x]" "sb_ID x = 5" "status \<in> set sandbox_statuses" for status x
    using UpdateSandboxStatus_ok [OF that(1), of x status sandbox_env] that(2,3) by (simp add: sandbox_env_def update_where_def)
  have "sandboxes_ok [2] [set_status sandbox_env ''provisioning'' demo_sandbox]" "sb_ID demo_sandbox = 5" "sb_VmID demo_sandbox = ''a''"
    using demo_sandbox_ok by (simp_all add: sandboxes_ok_def sandbox_row_ok_def sandbox_statuses_def demo_sandbox_def)
  then show ?thesis
    using m up [OF demo_sandbox_ok, of "''provisioning''"] up [of "set_status sandbox_env ''provisioning'' demo_sandbox" "''running''"]
    by (simp add: handleSandboxCreate_def sandbox_job_def sandbox_statuses_def)
qed

section \<open>Properties\<close>

text \<open>
  C24. The site is well-typed. Whatever requests and jobs arrive, in any order and any number of times and with any failures,
  the table keeps its constraints, every sandbox in it has resources within the limits of the API, and the
  VM manager keeps its invariant.
\<close>

theorem site_typed:
  assumes "site_type uids s" and "(site_step uids)\<^sup>*\<^sup>* s s'"
  shows "site_type uids s'"
  using assms(2,1)
proof (induction rule: rtranclp_induct)
  case (step y z)
  from step(2) step.IH [OF step.prems] show ?case
  proof cases
    case (site_create env env2 ul vmUUID disp userID req t h r t' h' m)
    with sandbox_Create_type [OF _ site_create(3)] step.IH [OF step.prems] show ?thesis by (simp add: site_type_def)
  next
    case (site_delete env env2 disp userID i t h e t' h' m)
    with sandbox_Delete_type [OF _ site_delete(3)] step.IH [OF step.prems] show ?thesis by (simp add: site_type_def)
  next
    case (site_provision E envs event t m h e)
    with handle_create_type [OF _ site_provision(2)] step.IH [OF step.prems] show ?thesis by simp
  next
    case (site_destroy E envs event t m h e)
    with handle_destroy_type [OF _ site_destroy(2)] step.IH [OF step.prems] show ?thesis by simp
  qed
qed

theorem site_typed_witness:
  "\<exists>m t1. handleSandboxCreate demo_env (\<lambda>_. sandbox_env) [2] (sandbox_job 2 demo_sandbox) ([demo_sandbox], demo_mgr, ()) = (None, t1, m, ())
     \<and> site_type [2] (t1, m, ())"
proof -
  obtain m t1 where c: "handleSandboxCreate demo_env (\<lambda>_. sandbox_env) [2] (sandbox_job 2 demo_sandbox) ([demo_sandbox], demo_mgr, ())
      = (None, t1, m, ())" using demo_site by blast
  have "site_type [2] ([demo_sandbox], demo_mgr, ())"
    using demo_inv demo_sandbox_ok by (simp add: site_type_def table_type_def within_limits_def demo_sandbox_def)
  from site_typed [OF this r_into_rtranclp [of "site_step [2]", OF site_provision [OF c]]] c show ?thesis by blast
qed



text \<open>
  C36. A job that is delivered twice breaks the sandbox. JetStream redelivers a job whose acknowledgement comes too late;
  the second run finds that the VM exists, takes this for a failure, and marks the sandbox as failed while
  its VM goes on running.
\<close>

theorem create_redelivered:
  assumes "sandboxes_ok uids t" and "mgr_inv m" and "s \<in> set t"
    and "handleSandboxCreate E envs uids (sandbox_job u s) (t, m, h) = (None, t1, m1, h1)" and "\<And>k. down (envs' k) = (\<lambda>_. None)"
  shows "\<exists>e t2. handleSandboxCreate E envs' uids (sandbox_job u s) (t1, m1, h1) = (Some e, t2, m1, h1)
    \<and> (\<exists>s2\<in>set t2. sb_ID s2 = sb_ID s \<and> sb_Status s2 = ''failed'')
    \<and> (\<exists>ref. map_of (instances m1) (sb_VmID s) = Some ref \<and> inst_state (inst_heap m1 ! ref) = StateRunning)"
proof -
  note fin = create_job_done [OF assms(1-4)]
  obtain s1 where s1: "s1 \<in> set t1" "sb_ID s1 = sb_ID s" "sb_VmID s1 = sb_VmID s" using fin(5) by blast
  let ?upd = "\<lambda>env status. update_where (\<lambda>x. sb_ID x = sb_ID s) (set_status env status)"
  let ?t = "?upd (envs' 0) ''provisioning'' t1"
  have p: "UpdateSandboxStatus (envs' 0) uids ''provisioning'' (sb_ID s) t1 = (Inr (set_status (envs' 0) ''provisioning'' s1), ?t)"
    using UpdateSandboxStatus_ok [OF fin(2) s1(1), of "''provisioning''" "envs' 0"] s1(2) assms(5) by (simp add: sandbox_statuses_def)
  let ?s = "set_status (envs' 0) ''provisioning'' s1"
  have s: "?s \<in> set ?t" using update_status_row [OF s1(1), of "envs' 0" "''provisioning''"] s1(2) by simp
  have f: "UpdateSandboxStatus (envs' 1) uids ''failed'' (sb_ID s) ?t = (Inr (set_status (envs' 1) ''failed'' ?s), ?upd (envs' 1) ''failed'' ?t)"
    using UpdateSandboxStatus_ok [OF UpdateSandboxStatus_Inr(2) [OF p] s, of "''failed''" "envs' 1"] s1(2) assms(5)
    by (simp add: sandbox_statuses_def)
  obtain err where v: "ProvisionVM E None (sb_VmID s) m1 h1 = (Inl err, m1, h1)"
    using ProvisionVM_exists [of m1 "sb_VmID s" E None h1] fin(4) by auto
  have "set_status (envs' 1) ''failed'' ?s \<in> set (?upd (envs' 1) ''failed'' ?t)"
    using update_status_row [OF s, of "envs' 1" "''failed''"] s1(2) by simp
  moreover have "handleSandboxCreate E envs' uids (sandbox_job u s) (t1, m1, h1)
      = (Some (Wrapf ''provision sandbox vm: '' err []), ?upd (envs' 1) ''failed'' ?t, m1, h1)"
    using p f v by (simp add: handleSandboxCreate_def sandbox_job_def)
  ultimately show ?thesis using fin(4) s1(2) by (metis set_status_simps(1,5))
qed

theorem create_redelivered_witness:
  "\<exists>m t1 e t2. handleSandboxCreate demo_env (\<lambda>_. sandbox_env) [2] (sandbox_job 2 demo_sandbox) (t1, m, ()) = (Some e, t2, m, ())
     \<and> (\<exists>s2\<in>set t2. sb_ID s2 = 5 \<and> sb_Status s2 = ''failed'')"
proof -
  obtain m t1 where c: "handleSandboxCreate demo_env (\<lambda>_. sandbox_env) [2] (sandbox_job 2 demo_sandbox) ([demo_sandbox], demo_mgr, ())
      = (None, t1, m, ())" using demo_site by blast
  have "\<And>k. down ((\<lambda>_. sandbox_env) k) = (\<lambda>_. None)" by (simp add: sandbox_env_def)
  moreover have "demo_sandbox \<in> set [demo_sandbox]" "sb_ID demo_sandbox = 5" by (simp_all add: demo_sandbox_def)
  ultimately show ?thesis
    using create_redelivered [where envs' = "\<lambda>_. sandbox_env", OF demo_sandbox_ok demo_inv _ c] by metis
qed

end
