(* ===== verification/Process_Runtime.thy ===== *)
theory Process_Runtime
  imports Sandbox_Worker
begin

text \<open>
  The two server processes: \<open>cmd/daemon\<close> and \<open>cmd/worker\<close> with the loading of their configuration
  (\<open>internal/config\<close>), the connections they open (\<open>internal/adapters/postgres\<close>, \<open>internal/adapters/redis\<close>,
  \<open>internal/adapters/nats\<close>) and the registries that close them again. The client libraries, the HTTP server and
  the environment are the record \<open>process_api\<close>, whose calls act on the state \<open>'w\<close> of the outside world.
  A deferred call runs when its function returns, and not when \<open>log.Fatalf\<close> ends the process.
  Durations are microseconds.
\<close>

section \<open>Configuration and connections\<close>

record app_config =
  HTTPPort :: string
  DatabaseURL :: string
  RedisURL :: string
  NATSURL :: string
  CORSOrigins :: "string list"
  Development :: bool
  VMMKernelPath :: string
  VMMRootfsPath :: string
  VMMGuestAgentPath :: string
  VMMVCPUCount :: int
  VMMMemoryMB :: int
  VMMBootArgs :: string
  VMMUplinkInterface :: string

text \<open>What the URL of a database sets, and the limits of the pool.\<close>

record pool_config =
  pool_Conn :: string
  MaxConns :: int
  MinConns :: int
  MaxConnIdleTime :: int
  MaxConnLifetime :: int

record redis_options =
  redis_Conn :: string
  DialTimeout :: int
  ReadTimeout :: int
  WriteTimeout :: int

record http_server =
  Addr :: string
  ReadHeaderTimeout :: int
  srv_ReadTimeout :: int
  srv_WriteTimeout :: int
  IdleTimeout :: int

text \<open>
  What the \<open>select\<close> of \<open>run\<close> receives first: the end of the context, or what is in the channel of the server,
  which is \<open>nil\<close> when the server was closed.
\<close>

datatype received = SignalReceived | ServerStopped "error option"

record 'w process_api =
  pr_dotenv :: "'w \<Rightarrow> error option \<times> 'w"
  pr_ParseAs :: "'w \<Rightarrow> app_config result \<times> 'w"
  pr_ParseConfig :: "string \<Rightarrow> pool_config result"
  pr_NewWithConfig :: "pool_config \<Rightarrow> 'w \<Rightarrow> error option \<times> 'w"
  pr_pool_Ping :: "'w \<Rightarrow> error option \<times> 'w"
  pr_pool_Close :: "'w \<Rightarrow> 'w"
  pr_ParseURL :: "string \<Rightarrow> redis_options result"
  pr_NewClient :: "redis_options \<Rightarrow> 'w \<Rightarrow> 'w"
  pr_redis_Ping :: "'w \<Rightarrow> error option \<times> 'w"
  pr_redis_Close :: "'w \<Rightarrow> error option \<times> 'w"
  pr_nats :: "'w nats_api"
  pr_serve :: "http_server \<Rightarrow> 'w \<Rightarrow> received \<times> 'w"
  pr_Shutdown :: "'w \<Rightarrow> error option \<times> 'w"
  pr_quote :: "string \<Rightarrow> string"
  pr_consume :: "string \<Rightarrow> 'w \<Rightarrow> error option \<times> 'w"
  pr_stop :: "string \<Rightarrow> 'w \<Rightarrow> 'w"
  pr_signal :: "'w \<Rightarrow> 'w"

definition ErrNotExist :: string where "ErrNotExist = ''file does not exist''"

definition app_Load :: "'w process_api \<Rightarrow> 'w \<Rightarrow> app_config result \<times> 'w" where
  "app_Load api w =
     (case pr_dotenv api w of
        (e, w) \<Rightarrow>
          if e \<noteq> None \<and> \<not> errors_Is ErrNotExist (the e) then (Inl (Wrapf ''load .env: '' (the e) []), w)
          else (case pr_ParseAs api w of
                  (Inl err, w) \<Rightarrow> (Inl (Wrapf ''parse environment: '' err []), w)
                | (Inr cfg, w) \<Rightarrow> (Inr cfg, w)))"

definition NewPool :: "'w process_api \<Rightarrow> string \<Rightarrow> 'w \<Rightarrow> error option \<times> 'w" where
  "NewPool api databaseURL w =
     (case pr_ParseConfig api databaseURL of
        Inl err \<Rightarrow> (Some (Wrapf ''parse postgres URL: '' err []), w)
      | Inr cfg \<Rightarrow>
          (case pr_NewWithConfig api (cfg\<lparr>MaxConns := 20, MinConns := 5, MaxConnIdleTime := 30 * 60000000, MaxConnLifetime := hour\<rparr>) w of
             (Some err, w) \<Rightarrow> (Some (Wrapf ''create postgres pool: '' err []), w)
           | (None, w) \<Rightarrow>
               (case pr_pool_Ping api w of
                  (Some err, w) \<Rightarrow> (Some (Wrapf ''ping postgres: '' err []), pr_pool_Close api w)
                | (None, w) \<Rightarrow> (None, w))))"

definition redis_New :: "'w process_api \<Rightarrow> string \<Rightarrow> 'w \<Rightarrow> error option \<times> 'w" where
  "redis_New api redisURL w =
     (case pr_ParseURL api redisURL of
        Inl err \<Rightarrow> (Some (Wrapf ''parse redis URL: '' err []), w)
      | Inr opts \<Rightarrow>
          (case pr_redis_Ping api (pr_NewClient api (opts\<lparr>DialTimeout := 5000000, ReadTimeout := 3000000, WriteTimeout := 3000000\<rparr>) w) of
             (Some err, w) \<Rightarrow> (Some (Wrapf ''ping redis: '' err []), snd (pr_redis_Close api w))
           | (None, w) \<Rightarrow> (None, w)))"

section \<open>The daemon\<close>

record daemon_registry =
  dr_Config :: app_config
  dr_DB :: bool
  dr_RedisClient :: bool
  dr_NATSClient :: "client option"

text \<open>\<open>NewModules\<close> only builds values, the services of the other theories, and never fails.\<close>

definition daemon_New :: "app_config \<Rightarrow> bool \<Rightarrow> bool \<Rightarrow> client option \<Rightarrow> daemon_registry result" where
  "daemon_New cfg db redisClient natsClient =
     Inr \<lparr>dr_Config = cfg, dr_DB = db, dr_RedisClient = redisClient, dr_NATSClient = natsClient\<rparr>"

definition daemon_Close :: "'w process_api \<Rightarrow> daemon_registry \<Rightarrow> 'w \<Rightarrow> 'w" where
  "daemon_Close api r w =
     (let w = (if dr_RedisClient r then snd (pr_redis_Close api w) else w);
          w = (if dr_NATSClient r \<noteq> None then snd (nats_Close (pr_nats api) (dr_NATSClient r) w) else w)
      in if dr_DB r then pr_pool_Close api w else w)"

definition deferred :: "('w \<Rightarrow> 'w) \<Rightarrow> ('w \<Rightarrow> 'r \<times> 'w) \<Rightarrow> 'w \<Rightarrow> 'r \<times> 'w" where
  "deferred last_call body w = (case body w of (r, w) \<Rightarrow> (r, last_call w))"

definition server_of :: "app_config \<Rightarrow> http_server" where
  "server_of cfg = \<lparr>Addr = '':'' @ HTTPPort cfg, ReadHeaderTimeout = 5000000, srv_ReadTimeout = 15000000,
     srv_WriteTimeout = 60000000, IdleTimeout = 120000000\<rparr>"

definition serve_http :: "'w process_api \<Rightarrow> app_config \<Rightarrow> 'w \<Rightarrow> error option \<times> 'w" where
  "serve_http api cfg w =
     (case pr_serve api (server_of cfg) w of
        (ServerStopped (Some err), w) \<Rightarrow> (Some (Wrapf ''http server error: '' err []), w)
      | (ServerStopped None, w) \<Rightarrow> (Some (Errorf ''http server error: %!w(<nil>)''), w)
      | (SignalReceived, w) \<Rightarrow>
          (case pr_Shutdown api w of
             (Some err, w) \<Rightarrow> (Some (Wrapf ''graceful shutdown failed: '' err []), w)
           | (None, w) \<Rightarrow> (None, w)))"

definition run_registry :: "'w process_api \<Rightarrow> app_config \<Rightarrow> client \<Rightarrow> 'w \<Rightarrow> error option \<times> 'w" where
  "run_registry api cfg natsClient w =
     (case daemon_New cfg True True (Some natsClient) of
        Inl err \<Rightarrow> (Some (Wrapf ''initialize daemon: '' err []), w)
      | Inr registry \<Rightarrow> deferred (daemon_Close api registry) (serve_http api cfg) w)"

definition run_nats :: "'w process_api \<Rightarrow> app_config \<Rightarrow> 'w \<Rightarrow> error option \<times> 'w" where
  "run_nats api cfg w =
     (case nats_New (pr_nats api) True (NATSURL cfg) [''shiyao-daemon''] w of
        (Inl err, w) \<Rightarrow> (Some (Wrapf ''connect to nats: '' err []), w)
      | (Inr natsClient, w) \<Rightarrow>
          deferred (\<lambda>w. snd (nats_Close (pr_nats api) (Some natsClient) w)) (run_registry api cfg natsClient) w)"

definition run_redis :: "'w process_api \<Rightarrow> app_config \<Rightarrow> 'w \<Rightarrow> error option \<times> 'w" where
  "run_redis api cfg w =
     (case redis_New api (RedisURL cfg) w of
        (Some err, w) \<Rightarrow> (Some (Wrapf ''connect to redis: '' err []), w)
      | (None, w) \<Rightarrow> deferred (\<lambda>w. snd (pr_redis_Close api w)) (run_nats api cfg) w)"

definition daemon_run :: "'w process_api \<Rightarrow> 'w \<Rightarrow> error option \<times> 'w" where
  "daemon_run api w =
     (case app_Load api w of
        (Inl err, w) \<Rightarrow> (Some (Wrapf ''load config: '' err []), w)
      | (Inr cfg, w) \<Rightarrow>
          (case NewPool api (DatabaseURL cfg) w of
             (Some err, w) \<Rightarrow> (Some (Wrapf ''connect to postgres: '' err []), w)
           | (None, w) \<Rightarrow> deferred (pr_pool_Close api) (run_redis api cfg) w))"

section \<open>The worker\<close>

definition vmm_config_of :: "app_config \<Rightarrow> vm_config" where
  "vmm_config_of cfg =
     \<lparr>KernelPath = VMMKernelPath cfg, RootfsPath = VMMRootfsPath cfg, VCPUCount = VMMVCPUCount cfg, MemSizeMB = VMMMemoryMB cfg,
      BootArgs = VMMBootArgs cfg, GuestAgentPath = VMMGuestAgentPath cfg\<rparr>"

text \<open>The process waits for its signal; the deferred calls close what it has opened.\<close>

definition worker_wait :: "'w process_api \<Rightarrow> client \<Rightarrow> 'm worker \<Rightarrow> 'w \<Rightarrow> error option \<times> 'w" where
  "worker_wait api natsClient registry =
     deferred (pr_pool_Close api)
       (deferred (\<lambda>w. snd (nats_Close (pr_nats api) (Some natsClient) w))
         (deferred (worker_Close (pr_nats api) (pr_stop api) (pr_pool_Close api) registry)
           (\<lambda>w. (None, pr_signal api w))))"

text \<open>The answer is the message of \<open>log.Fatalf\<close>, if the process ends with it.\<close>

definition worker_main :: "'w process_api \<Rightarrow> 'w \<Rightarrow> error option \<times> 'w" where
  "worker_main api w =
     (case app_Load api w of
        (Inl err, w) \<Rightarrow> (Some (Wrapf ''load config: '' err []), w)
      | (Inr cfg, w) \<Rightarrow>
          (case NewPool api (DatabaseURL cfg) w of
             (Some err, w) \<Rightarrow> (Some (Wrapf ''connect to postgres: '' err []), w)
           | (None, w) \<Rightarrow>
               (case nats_New (pr_nats api) True (NATSURL cfg) [] w of
                  (Inl err, w) \<Rightarrow> (Some (Wrapf ''connect to nats: '' err []), w)
                | (Inr natsClient, w) \<Rightarrow>
                    (case worker_New (pr_nats api) (pr_quote api) (pr_consume api) (pr_stop api) (pr_pool_Close api) (vmm_config_of cfg)
                            (VMMUplinkInterface cfg) True (Some natsClient) w of
                       (Inl err, w) \<Rightarrow> (Some (Wrapf ''initialize worker: '' err []), w)
                     | (Inr registry, w) \<Rightarrow>
                         worker_wait api natsClient (registry :: unit worker) w))))"

section \<open>The life of a connection\<close>

text \<open>
  What happens to the connections of a process, in its order. \<open>monitor\<close> follows it: a connection is opened only
  while it is not open, used only while it is open, and the process serves only while all the connections it serves with are open.
  A second release is harmless for the three libraries.
\<close>

datatype connection = Pool | Cache | Bus

datatype life = Opened connection | Used connection | Released connection | Serving "connection list"

fun monitor :: "connection set \<Rightarrow> life list \<Rightarrow> connection set option" where
  "monitor up [] = Some up"
| "monitor up (Opened c # log) = (if c \<in> up then None else monitor (insert c up) log)"
| "monitor up (Used c # log) = (if c \<in> up then monitor up log else None)"
| "monitor up (Released c # log) = monitor (up - {c}) log"
| "monitor up (Serving cs # log) = (if set cs \<subseteq> up then monitor up log else None)"

definition is_open :: "connection \<Rightarrow> life list \<Rightarrow> bool" where
  "is_open c log \<longleftrightarrow> (case monitor {} log of Some up \<Rightarrow> c \<in> up | None \<Rightarrow> False)"

text \<open>
  Libraries that record this and answer as \<open>orc\<close> says, which knows what has happened. \<open>IsClosed\<close> never says so of
  an open connection.
\<close>

definition attempt :: "(life list \<Rightarrow> string \<Rightarrow> error option) \<Rightarrow> string \<Rightarrow> life \<Rightarrow> life list \<Rightarrow> error option \<times> life list" where
  "attempt orc op ev log = (case orc log op of Some err \<Rightarrow> (Some err, log) | None \<Rightarrow> (None, log @ [ev]))"

definition use_of :: "(life list \<Rightarrow> string \<Rightarrow> error option) \<Rightarrow> string \<Rightarrow> connection \<Rightarrow> life list \<Rightarrow> error option \<times> life list" where
  "use_of orc op c log = (orc log op, log @ [Used c])"

definition log_nats :: "(life list \<Rightarrow> string \<Rightarrow> error option) \<Rightarrow> life list nats_api" where
  "log_nats orc =
     \<lparr>api_Connect = (\<lambda>_ _. attempt orc ''Connect'' (Opened Bus)), api_JetStream = use_of orc ''JetStream'' Bus,
      api_AccountInfo = use_of orc ''AccountInfo'' Bus, api_Close = (\<lambda>log. log @ [Released Bus]), api_Drain = attempt orc ''Drain'' (Released Bus),
      api_IsClosed = (\<lambda>log. \<not> is_open Bus log \<and> orc log ''IsClosed'' \<noteq> None), api_IsConnected = is_open Bus,
      api_CreateOrUpdateStream = (\<lambda>_. use_of orc ''CreateOrUpdateStream'' Bus),
      api_CreateOrUpdateConsumer = (\<lambda>_ _. use_of orc ''CreateOrUpdateConsumer'' Bus), api_PublishMsg = (\<lambda>_ _. use_of orc ''PublishMsg'' Bus)\<rparr>"

definition log_process ::
  "(life list \<Rightarrow> string \<Rightarrow> error option) \<Rightarrow> app_config result \<Rightarrow> (string \<Rightarrow> pool_config result) \<Rightarrow> (string \<Rightarrow> redis_options result) \<Rightarrow> received
    \<Rightarrow> (string \<Rightarrow> string) \<Rightarrow> life list process_api" where
  "log_process orc cfg pool redis first quote =
     \<lparr>pr_dotenv = (\<lambda>log. (orc log ''dotenv'', log)), pr_ParseAs = (\<lambda>log. (cfg, log)), pr_ParseConfig = pool,
      pr_NewWithConfig = (\<lambda>_. attempt orc ''NewWithConfig'' (Opened Pool)), pr_pool_Ping = use_of orc ''pool.Ping'' Pool,
      pr_pool_Close = (\<lambda>log. log @ [Released Pool]), pr_ParseURL = redis, pr_NewClient = (\<lambda>_ log. log @ [Opened Cache]),
      pr_redis_Ping = use_of orc ''redis.Ping'' Cache, pr_redis_Close = (\<lambda>log. (orc log ''redis.Close'', log @ [Released Cache])),
      pr_nats = log_nats orc, pr_serve = (\<lambda>_ log. (first, log @ [Serving [Pool, Cache, Bus]])), pr_Shutdown = (\<lambda>log. (orc log ''Shutdown'', log)),
      pr_quote = quote, pr_consume = (\<lambda>_. use_of orc ''Consume'' Bus), pr_stop = (\<lambda>_ log. log @ [Used Bus]),
      pr_signal = (\<lambda>log. log @ [Serving [Pool, Bus]])\<rparr>"

definition demo_app :: app_config where
  "demo_app = \<lparr>HTTPPort = ''8080'', DatabaseURL = ''d'', RedisURL = ''r'', NATSURL = ''n'', CORSOrigins = [], Development = False, VMMKernelPath = ''k'',
     VMMRootfsPath = ''f'', VMMGuestAgentPath = ''/a'', VMMVCPUCount = 2, VMMMemoryMB = 512, VMMBootArgs = ''b'', VMMUplinkInterface = ''e''\<rparr>"

definition demo_process :: "life list process_api" where
  "demo_process = log_process (\<lambda>_ _. None) (Inr demo_app) (\<lambda>u. Inr \<lparr>pool_Conn = u, MaxConns = 0, MinConns = 0, MaxConnIdleTime = 0, MaxConnLifetime = 0\<rparr>)
     (\<lambda>u. Inr \<lparr>redis_Conn = u, DialTimeout = 0, ReadTimeout = 0, WriteTimeout = 0\<rparr>) SignalReceived (\<lambda>s. s)"

section \<open>Lemmas\<close>

lemma monitor_append [simp]: "monitor up (log @ log') = (case monitor up log of Some up' \<Rightarrow> monitor up' log' | None \<Rightarrow> None)"
  by (induction up log rule: monitor.induct) simp_all

lemmas libraries = log_process_def log_nats_def attempt_def use_of_def

lemma Load_log: "app_Load (log_process orc cfg pool redis first quote) log = (r, log') \<Longrightarrow> log' = log"
  by (auto simp: app_Load_def log_process_def split: prod.splits if_splits sum.splits)

lemma NewPool_life:
  assumes "NewPool (log_process orc cfg pool redis first quote) url log = (e, log')" and "monitor {} log = Some up" and "Pool \<notin> up"
  shows "monitor {} log' = Some (if e = None then insert Pool up else up)"
  using assms by (auto simp: NewPool_def libraries split: sum.splits option.splits prod.splits)

lemma redis_New_life:
  assumes "redis_New (log_process orc cfg pool redis first quote) url log = (e, log')" and "monitor {} log = Some up" and "Cache \<notin> up"
  shows "monitor {} log' = Some (if e = None then insert Cache up else up)"
  using assms by (auto simp: redis_New_def libraries split: sum.splits option.splits prod.splits)

lemma nats_New_life:
  assumes "nats_New (log_nats orc) True url names log = (r, log')" and "monitor {} log = Some up" and "Bus \<notin> up"
  shows "monitor {} log' = Some (case r of Inr _ \<Rightarrow> insert Bus up | Inl _ \<Rightarrow> up) \<and> (\<forall>c. r = Inr c \<longrightarrow> cl_connection c)"
  using assms by (auto simp: nats_New_def libraries Let_def split: if_splits option.splits prod.splits)

lemma nats_Close_life:
  assumes "cl_connection c" and "monitor {} log = Some up"
  shows "monitor {} (snd (nats_Close (log_nats orc) (Some c) log)) = Some (up - {Bus})"
  using assms by (auto simp: nats_Close_def libraries is_open_def split: option.splits)

lemma serve_http_life:
  assumes "serve_http (log_process orc cfg pool redis first quote) c log = (e, log')" and "monitor {} log = Some UNIV"
  shows "monitor {} log' = Some UNIV"
  using assms by (auto simp: serve_http_def log_process_def split: received.splits option.splits prod.splits)

lemma all_connections: "UNIV = {Pool, Cache, Bus}"
  using connection.exhaust by blast

lemma daemon_Close_life:
  assumes "cl_connection c" and "monitor {} log = Some UNIV"
  shows "monitor {} (daemon_Close (log_process orc cfg pool redis first quote)
    \<lparr>dr_Config = a, dr_DB = True, dr_RedisClient = True, dr_NATSClient = Some c\<rparr> log) = Some {}"
proof -
  have "monitor {} (log @ [Released Cache]) = Some (UNIV - {Cache})" using assms(2) by simp
  from nats_Close_life [OF assms(1) this, of orc] show ?thesis by (auto simp: daemon_Close_def log_process_def all_connections)
qed

lemma run_registry_life:
  assumes "run_registry (log_process orc cfg pool redis first quote) a c log = (e, log')" and "cl_connection c" and "monitor {} log = Some UNIV"
  shows "monitor {} log' = Some {}"
  using assms serve_http_life [OF _ assms(3)] daemon_Close_life [OF assms(2)]
  by (auto simp: run_registry_def daemon_New_def deferred_def split: prod.splits)

lemma run_nats_life:
  assumes "run_nats (log_process orc cfg pool redis first quote) a log = (e, log')" and "monitor {} log = Some {Pool, Cache}"
  shows "monitor {} log' \<in> Some ` Pow {Pool, Cache}"
proof -
  obtain r log1 where r: "nats_New (log_nats orc) True (NATSURL a) [''shiyao-daemon''] log = (r, log1)" by fastforce
  have api: "pr_nats (log_process orc cfg pool redis first quote) = log_nats orc" by (simp add: log_process_def)
  note n = nats_New_life [OF r assms(2)]
  show ?thesis
  proof (cases r)
    case (Inl err)
    then show ?thesis using n assms(1) r api by (auto simp: run_nats_def)
  next
    case (Inr c)
    obtain e2 log2 where g: "run_registry (log_process orc cfg pool redis first quote) a c log1 = (e2, log2)" by fastforce
    have "monitor {} log1 = Some UNIV" "cl_connection c" using n Inr by (auto simp: all_connections)
    then have "monitor {} (snd (nats_Close (log_nats orc) (Some c) log2)) = Some ({} - {Bus})"
      using run_registry_life [OF g] by (intro nats_Close_life) simp_all
    then show ?thesis using assms(1) r api Inr g by (auto simp: run_nats_def deferred_def)
  qed
qed

lemma run_redis_life:
  assumes "run_redis (log_process orc cfg pool redis first quote) a log = (e, log')" and "monitor {} log = Some {Pool}"
  shows "monitor {} log' \<in> Some ` Pow {Pool}"
proof -
  let ?A = "log_process orc cfg pool redis first quote"
  obtain e1 log1 where r: "redis_New ?A (RedisURL a) log = (e1, log1)" by fastforce
  obtain e2 log2 where n: "run_nats ?A a log1 = (e2, log2)" by fastforce
  have close: "snd (pr_redis_Close ?A l) = l @ [Released Cache]" for l by (simp add: log_process_def)
  show ?thesis
  proof (cases e1)
    case None
    then have "monitor {} log1 = Some {Pool, Cache}" using redis_New_life [OF r assms(2)] by (simp add: insert_commute)
    from run_nats_life [OF n this] obtain up where "up \<subseteq> {Pool, Cache}" "monitor {} log2 = Some up" by auto
    then show ?thesis using assms(1) r n None close by (auto simp: run_redis_def deferred_def)
  next
    case (Some err)
    then show ?thesis using redis_New_life [OF r assms(2)] assms(1) r by (auto simp: run_redis_def)
  qed
qed

subsection \<open>The worker\<close>

lemma provision_life:
  assumes "provision_streams (log_nats orc) configs log = (e, log')" and "monitor {} log = Some up" and "Bus \<in> up"
  shows "monitor {} log' = Some up"
  using assms
proof (induction configs arbitrary: log)
  case (Cons c cs)
  then show ?case by (cases "orc log ''CreateOrUpdateStream''") (auto simp: libraries)
qed simp

lemma consume_life:
  assumes "consumeSandboxLifecycle (log_nats orc) quote (pr_consume (log_process orc cfg pool redis first quote')) c durable subject log = (r, log')"
    and "monitor {} log = Some up" and "Bus \<in> up"
  shows "monitor {} log' = Some up"
  using assms by (auto simp: consumeSandboxLifecycle_def CreateOrUpdateConsumer_def libraries Let_def split: prod.splits option.splits if_splits)

lemma subscribe_life:
  assumes "subscribe (log_nats orc) quote (pr_consume (log_process orc cfg pool redis first quote')) (pr_stop (log_process orc cfg pool redis first quote')) c log
      = (r, log')"
    and "monitor {} log = Some up" and "Bus \<in> up"
  shows "monitor {} log' = Some up"
proof -
  have "monitor {} l' = Some up" if "Provision (log_nats orc) True c DefaultStreamLimits l = (e, l')" "monitor {} l = Some up" for e l l'
    using that assms(3) by (auto simp: Provision_def dest: provision_life split: if_splits)
  moreover have "pr_stop (log_process orc cfg pool redis first quote') h l = l @ [Used Bus]" for h l by (simp add: log_process_def)
  ultimately show ?thesis
    using assms consume_life [of orc quote cfg pool redis first quote']
    by (auto simp: subscribe_def split: prod.splits option.splits sum.splits)
qed

lemma worker_Close_life:
  assumes "cl_connection c" and "monitor {} log = Some up" and "Bus \<in> up"
  shows "monitor {} (worker_Close (log_nats orc) (pr_stop (log_process orc cfg pool redis first quote)) (pr_pool_Close (log_process orc cfg pool redis first quote))
    \<lparr>wk_DB = True, wk_NATS = Some c, wk_VMM = m, wk_Consumers = hs\<rparr> log) = Some (up - {Pool, Bus})"
proof -
  have "monitor {} (fold (\<lambda>_ l. l @ [Used Bus]) hs log) = Some up"
    using assms(2,3) by (induction hs arbitrary: log) auto
  from nats_Close_life [OF assms(1) this, of orc] show ?thesis
    by (auto simp: worker_Close_def log_process_def)
qed

lemma daemon_run_life:
  assumes "daemon_run (log_process orc cfg pool redis first quote) [] = (e, log)"
  shows "monitor {} log = Some {}"
proof -
  let ?A = "log_process orc cfg pool redis first quote"
  obtain r log1 where l: "app_Load ?A [] = (r, log1)" by fastforce
  then have log1: "log1 = []" by (rule Load_log)
  show ?thesis
  proof (cases r)
    case (Inl err)
    then show ?thesis using assms l log1 by (simp add: daemon_run_def)
  next
    case (Inr a)
    obtain e2 log2 where p: "NewPool ?A (DatabaseURL a) [] = (e2, log2)" by fastforce
    obtain e3 log3 where g: "run_redis ?A a log2 = (e3, log3)" by fastforce
    have "monitor {} log2 = Some (if e2 = None then {Pool} else {})" using NewPool_life [OF p] by simp
    moreover have "pr_pool_Close ?A lg = lg @ [Released Pool]" for lg by (simp add: log_process_def)
    ultimately show ?thesis
      using assms l log1 Inr p g run_redis_life [OF g] by (cases e2) (auto simp: daemon_run_def deferred_def)
  qed
qed

lemma worker_New_life:
  assumes "worker_New (log_nats orc) quote (pr_consume (log_process orc cfg pool redis first quote')) (pr_stop (log_process orc cfg pool redis first quote'))
      (pr_pool_Close (log_process orc cfg pool redis first quote')) vmm uplink True (Some c) log = (r, log')"
    and "monitor {} log = Some up" and "Bus \<in> up" and "cl_connection c"
  shows "case r of Inl _ \<Rightarrow> monitor {} log' \<noteq> None
    | Inr w \<Rightarrow> monitor {} log' = Some up \<and> (\<exists>m hs. w = \<lparr>wk_DB = True, wk_NATS = Some c, wk_VMM = m, wk_Consumers = hs\<rparr>)"
proof (cases "vm_Validate vmm")
  case None
  obtain r1 log1 where s: "subscribe (log_nats orc) quote (pr_consume (log_process orc cfg pool redis first quote'))
      (pr_stop (log_process orc cfg pool redis first quote')) (Some c) log = (r1, log1)" by fastforce
  note m = subscribe_life [OF s assms(2,3)]
  show ?thesis
    using assms(1) None s m by (cases r1) (auto simp: worker_New_def Let_def worker_Close_life [OF assms(4) m assms(3)])
next
  case (Some err)
  then show ?thesis using assms by (auto simp: worker_New_def)
qed

lemma worker_wait_life:
  assumes "cl_connection c" and "monitor {} log = Some {Bus, Pool}"
  shows "\<exists>log'. worker_wait (log_process orc cfg pool redis first quote) c \<lparr>wk_DB = True, wk_NATS = Some c, wk_VMM = m, wk_Consumers = hs\<rparr> log = (None, log')
    \<and> monitor {} log' = Some {}"
proof -
  let ?A = "log_process orc cfg pool redis first quote" and ?w = "\<lparr>wk_DB = True, wk_NATS = Some c, wk_VMM = m, wk_Consumers = hs\<rparr>"
  have api: "pr_nats ?A = log_nats orc" "pr_pool_Close ?A l = l @ [Released Pool]" for l by (simp_all add: log_process_def)
  have "monitor {} (pr_signal ?A log) = Some {Bus, Pool}" using assms(2) by (simp add: log_process_def)
  from worker_Close_life [OF assms(1) this, of orc cfg pool redis first quote m hs]
  have "monitor {} (worker_Close (log_nats orc) (pr_stop ?A) (pr_pool_Close ?A) ?w (pr_signal ?A log)) = Some {}" by auto
  from nats_Close_life [OF assms(1) this, of orc] show ?thesis
    by (simp add: worker_wait_def deferred_def api)
qed

lemma worker_main_life:
  assumes "worker_main (log_process orc cfg pool redis first quote) [] = (e, log)"
  shows "\<exists>up. monitor {} log = Some up \<and> (e = None \<longrightarrow> up = {})"
proof -
  let ?A = "log_process orc cfg pool redis first quote"
  have api: "pr_nats ?A = log_nats orc" "pr_quote ?A = quote" by (simp_all add: log_process_def)
  obtain r where l: "app_Load ?A [] = (r, [])" using Load_log [of orc cfg pool redis first quote "[]"] by (metis surj_pair)
  show ?thesis
  proof (cases r)
    case (Inl err)
    then show ?thesis using assms l by (auto simp: worker_main_def)
  next
    case (Inr a)
    obtain e2 log2 where p: "NewPool ?A (DatabaseURL a) [] = (e2, log2)" by fastforce
    have m2: "monitor {} log2 = Some (if e2 = None then {Pool} else {})" using NewPool_life [OF p] by simp
    obtain r3 log3 where n: "nats_New (log_nats orc) True (NATSURL a) [] log2 = (r3, log3)" by fastforce
    note m3 = nats_New_life [OF n m2]
    show ?thesis
    proof (cases "e2 = None \<and> \<not> isl r3")
      case True
      then obtain c where c: "r3 = Inr c" "e2 = None" by (cases r3) auto
      then have m: "monitor {} log3 = Some {Bus, Pool}" "cl_connection c" using m3 by auto
      obtain r4 :: "unit worker result" and log4 where w: "worker_New (log_nats orc) quote (pr_consume ?A) (pr_stop ?A) (pr_pool_Close ?A)
          (vmm_config_of a) (VMMUplinkInterface a) True (Some c) log3 = (r4, log4)" by fastforce
      have run: "worker_main ?A [] = (case r4 of Inl err \<Rightarrow> (Some (Wrapf ''initialize worker: '' err []), log4) | Inr x \<Rightarrow> worker_wait ?A c x log4)"
        using l Inr p n c w api by (simp add: worker_main_def)
      note nw = worker_New_life [OF w m(1) _ m(2)]
      show ?thesis
      proof (cases r4)
        case (Inl err)
        then have "e \<noteq> None" "log = log4" using run assms by auto
        with nw Inl show ?thesis by auto
      next
        case new: (Inr x)
        obtain vm hs where x: "x = \<lparr>wk_DB = True, wk_NATS = Some c, wk_VMM = vm, wk_Consumers = hs\<rparr>" "monitor {} log4 = Some {Bus, Pool}"
          using nw new by auto
        have "(e, log) = worker_wait ?A c x log4" using run assms new by simp
        with worker_wait_life [OF m(2) x(2), of orc cfg pool redis first quote vm hs] x(1) show ?thesis by auto
      qed
    next
      case False
      show ?thesis
      proof (cases e2)
        case (Some err)
        then have "log = log2" "e \<noteq> None" using assms l Inr p by (auto simp: worker_main_def)
        with m2 show ?thesis by simp
      next
        case None
        with False obtain err where err: "r3 = Inl err" by (cases r3) simp_all
        then have "log = log3" "e \<noteq> None" using assms l Inr p n api None by (auto simp: worker_main_def)
        with m3 None err show ?thesis by simp
      qed
    qed
  qed
qed

section \<open>Properties\<close>

text \<open>
  C32. The servers release what they opened. Whatever the libraries answer and whenever it stops, the daemon
  opens each connection once, uses none that is not open, serves only while all three are open, and has released all of
  them when it returns. So has the worker, unless it ends with a fatal error.
\<close>

theorem processes_release:
  "monitor {} (snd (daemon_run (log_process orc cfg pool redis first quote) [])) = Some {}
   \<and> (\<exists>up. monitor {} (snd (worker_main (log_process orc cfg pool redis first quote) [])) = Some up
        \<and> (fst (worker_main (log_process orc cfg pool redis first quote) []) = None \<longrightarrow> up = {}))"
proof
  let ?A = "log_process orc cfg pool redis first quote"
  show "monitor {} (snd (daemon_run ?A [])) = Some {}" by (rule daemon_run_life [OF prod.collapse [symmetric]])
  show "\<exists>up. monitor {} (snd (worker_main ?A [])) = Some up \<and> (fst (worker_main ?A []) = None \<longrightarrow> up = {})"
    by (rule worker_main_life [OF prod.collapse [symmetric]])
qed

text \<open>Both servers on libraries that never fail.\<close>

theorem processes_release_witness:
  "fst (worker_main demo_process []) = None \<and> monitor {} (snd (worker_main demo_process [])) = Some {}
   \<and> Serving [Pool, Cache, Bus] \<in> set (snd (daemon_run demo_process [])) \<and> monitor {} (snd (daemon_run demo_process [])) = Some {}"
proof -
  have n: "TrimSpace ''n'' = ''n''" by (simp add: TrimSpace_ascii is_ascii_def trim_both_def is_space_def)
  note run = app_Load_def NewPool_def redis_New_def nats_New_def nats_Close_def deferred_def libraries demo_process_def demo_app_def n
  have ok: "TrimSpace sandboxCreateConsumer \<noteq> []" "TrimSpace sandboxDestroyConsumer \<noteq> []" "TrimSpace JobsStreamName \<noteq> []"
    by (simp_all add: JobsStreamName_def sandboxCreateConsumer_def sandboxDestroyConsumer_def TrimSpace_ascii is_ascii_def trim_both_def is_space_def)
  have "fst (worker_main demo_process []) = None"
    by (simp add: run worker_main_def worker_New_def vm_Validate_def vmm_config_of_def subscribe_def Provision_def StreamConfigs_def Let_def
        consumeSandboxLifecycle_def CreateOrUpdateConsumer_def consumerName_def ok worker_wait_def)
  moreover have "Serving [Pool, Cache, Bus] \<in> set (snd (daemon_run demo_process []))"
    by (simp add: run daemon_run_def run_redis_def run_nats_def run_registry_def daemon_New_def serve_http_def daemon_Close_def)
  ultimately show ?thesis
    using processes_release [of "\<lambda>_ _. None" "Inr demo_app" "\<lambda>u. Inr \<lparr>pool_Conn = u, MaxConns = 0, MinConns = 0, MaxConnIdleTime = 0, MaxConnLifetime = 0\<rparr>"
        "\<lambda>u. Inr \<lparr>redis_Conn = u, DialTimeout = 0, ReadTimeout = 0, WriteTimeout = 0\<rparr>" SignalReceived "\<lambda>s. s"]
    unfolding demo_process_def [symmetric] by blast
qed

end
