(* ===== verification/Vsock.thy ===== *)
theory Vsock
  imports Go_Errors
begin

text \<open>
  \<open>internal/core/vsock\<close>: the execution protocol between the host and the guest agent. The JSON text
  of a message is not modelled: a message travels as a value, except that \<open>encoding/json\<close> replaces
  every byte of a string that is not valid UTF-8 by U+FFFD (\<open>json_string\<close>). A connection is what the
  client observes of it: the answer to the dial and to the write, and the successive answers of the
  decoder; when they are used up the connection is at its end. \<open>context\<close> deadlines show as errors of
  these operations.
\<close>

section \<open>Limits and messages\<close>

definition GuestPort :: "32 word" where "GuestPort = 1024"
definition ProtocolVersion :: int where "ProtocolVersion = 1"
definition MaxRequestBytes :: nat where "MaxRequestBytes = 1048576"
definition MaxOutputBytes :: nat where "MaxOutputBytes = 10485760"
definition MaxEnvEntries :: nat where "MaxEnvEntries = 100"
definition MaxEnvKeyLen :: nat where "MaxEnvKeyLen = 256"
definition MaxEnvValLen :: nat where "MaxEnvValLen = 65536"
definition MaxArgs :: nat where "MaxArgs = 256"
definition MaxArgLen :: nat where "MaxArgLen = 65536"
definition MaxCommandLen :: nat where "MaxCommandLen = 4096"
definition MaxTimeoutMS :: int where "MaxTimeoutMS = 300000"
definition MaxConcurrentCommands :: nat where "MaxConcurrentCommands = 4"
definition MaxStreamFrameBytes :: nat where "MaxStreamFrameBytes = 65536"
definition HostCID :: "32 word" where "HostCID = 2"

record exec_request =
  req_Version :: int
  req_ID :: string
  Command :: string
  Args :: "string list"
  Env :: "(string \<times> string) list"
  TimeoutMS :: int
  Stream :: bool

record exec_result =
  res_Version :: int
  res_ID :: string
  ExitCode :: int
  Stdout :: string
  Stderr :: string
  res_Error :: string

record exec_frame =
  frame_Version :: int
  frame_ID :: string
  frame_Stream :: string
  frame_Data :: string
  frame_Result :: "exec_result option"

section \<open>Validation of requests\<close>

text \<open>The regular expression \<open>allowedEnvKey\<close>.\<close>

definition env_names :: "string list" where
  "env_names = [''LANG'', ''TZ'', ''TERM'', ''COLORTERM'', ''NO_COLOR'', ''FORCE_COLOR'', ''PYTHONIOENCODING'',
     ''GOPROXY'', ''GOSUMDB'', ''GOFLAGS'', ''RUST_BACKTRACE'', ''NODE_OPTIONS'']"

definition allowedEnvKey :: "string \<Rightarrow> bool" where
  "allowedEnvKey key \<longleftrightarrow> key \<in> set env_names
     \<or> (HasPrefix key ''LC_'' \<and> drop 3 key \<noteq> []
        \<and> list_all (\<lambda>c. is_upper c \<or> is_digit c \<or> c = CHR ''_'') (drop 3 key))"

fun check_args :: "nat \<Rightarrow> string list \<Rightarrow> error option" where
  "check_args i [] = None"
| "check_args i (arg # args) =
     (if MaxArgLen < length arg
      then Some (Errorf (''argument '' @ nat_str i @ '' too long: '' @ nat_str (length arg) @ '' > '' @ nat_str MaxArgLen))
      else check_args (Suc i) args)"

fun check_env :: "(string \<times> string) list \<Rightarrow> error option" where
  "check_env [] = None"
| "check_env ((key, val) # env) =
     (if MaxEnvKeyLen < length key
      then Some (Errorf (''environment key '' @ Quote key @ '' too long: '' @ nat_str (length key) @ '' > '' @ nat_str MaxEnvKeyLen))
      else if \<not> allowedEnvKey key
      then Some (Errorf (''environment variable '' @ Quote key @ '' is not permitted''))
      else if MaxEnvValLen < length val
      then Some (Errorf (''environment value for '' @ Quote key @ '' too long: '' @ nat_str (length val) @ '' > '' @ nat_str MaxEnvValLen))
      else check_env env)"

definition req_Validate :: "exec_request \<Rightarrow> error option" where
  "req_Validate r =
     (if req_Version r \<noteq> ProtocolVersion then Some (Errorf (''unsupported protocol version '' @ Itoa (req_Version r)))
      else if req_ID r = [] then Some (Errorf ''request id is required'')
      else if 128 < length (req_ID r) then Some (Errorf ''request id too long'')
      else if Command r = [] then Some (Errorf ''command is required'')
      else if TimeoutMS r < 0 then Some (Errorf ''timeout_ms cannot be negative'')
      else if MaxTimeoutMS < TimeoutMS r then Some (Errorf (''timeout_ms exceeds maximum of '' @ Itoa MaxTimeoutMS))
      else if MaxCommandLen < length (Command r)
      then Some (Errorf (''command too long: '' @ nat_str (length (Command r)) @ '' > '' @ nat_str MaxCommandLen))
      else if MaxArgs < length (Args r)
      then Some (Errorf (''too many arguments: '' @ nat_str (length (Args r)) @ '' > '' @ nat_str MaxArgs))
      else case check_args 0 (Args r) of
             Some err \<Rightarrow> Some err
           | None \<Rightarrow>
               if MaxEnvEntries < length (Env r)
               then Some (Errorf (''too many environment variables: '' @ nat_str (length (Env r)) @ '' > '' @ nat_str MaxEnvEntries))
               else check_env (Env r))"

text \<open>What the guest relies on once a request is valid.\<close>

definition request_ok :: "exec_request \<Rightarrow> bool" where
  "request_ok r \<longleftrightarrow>
     req_Version r = ProtocolVersion \<and> req_ID r \<noteq> [] \<and> length (req_ID r) \<le> 128
     \<and> Command r \<noteq> [] \<and> length (Command r) \<le> MaxCommandLen
     \<and> 0 \<le> TimeoutMS r \<and> TimeoutMS r \<le> MaxTimeoutMS
     \<and> length (Args r) \<le> MaxArgs \<and> (\<forall>a \<in> set (Args r). length a \<le> MaxArgLen)
     \<and> length (Env r) \<le> MaxEnvEntries
     \<and> (\<forall>(k, v) \<in> set (Env r). length k \<le> MaxEnvKeyLen \<and> allowedEnvKey k \<and> length v \<le> MaxEnvValLen)"

section \<open>Peers\<close>

text \<open>The context identifier of the peer, if the connection is a VSOCK connection.\<close>

definition AuthorizeGuestConnection :: "32 word option \<Rightarrow> 32 word \<Rightarrow> error option" where
  "AuthorizeGuestConnection remote expectedCID =
     (if expectedCID \<le> HostCID
      then Some (Errorf (''invalid expected guest CID '' @ nat_str (unat expectedCID)))
      else case remote of
             None \<Rightarrow> Some (Errorf ''connection is not a VSOCK connection'')
           | Some cid \<Rightarrow>
               if cid \<noteq> expectedCID
               then Some (Errorf (''unauthorized VSOCK peer CID '' @ nat_str (unat cid)))
               else None)"

definition AuthorizeHostConnection :: "32 word option \<Rightarrow> error option" where
  "AuthorizeHostConnection remote =
     (case remote of
        None \<Rightarrow> Some (Errorf ''connection is not a VSOCK connection'')
      | Some cid \<Rightarrow>
          if cid \<noteq> HostCID
          then Some (Errorf (''unauthorized VSOCK host CID '' @ nat_str (unat cid)))
          else None)"

text \<open>\<open>SetupListener\<close> and \<open>CleanupListener\<close>; the SDK's listener is a parameter.\<close>

definition SetupListener :: "(32 word \<Rightarrow> 'l result) \<Rightarrow> 32 word \<Rightarrow> 32 word \<Rightarrow> 'l result" where
  "SetupListener listen guestCID port =
     (if guestCID \<le> HostCID
      then Inl (Errorf (''invalid guest CID '' @ nat_str (unat guestCID) @ '': must be greater than '' @ nat_str (unat HostCID)))
      else if port = 0 then Inl (Errorf ''vsock port must be greater than 0'')
      else case listen port of
             Inl err \<Rightarrow> Inl (Wrapf (''start vsock listener for guest CID '' @ nat_str (unat guestCID)
                          @ '' on port '' @ nat_str (unat port) @ '': '') err [])
           | Inr l \<Rightarrow> Inr l)"

definition CleanupListener :: "('l \<Rightarrow> error option) \<Rightarrow> 'l option \<Rightarrow> error option" where
  "CleanupListener close listener =
     (case listener of
        None \<Rightarrow> None
      | Some l \<Rightarrow> (case close l of Some err \<Rightarrow> Some (Wrapf ''close vsock listener: '' err []) | None \<Rightarrow> None))"

section \<open>The client\<close>

definition json_string :: "string \<Rightarrow> string" where
  "json_string s = concat (map (\<lambda>(r, bs).
     if r = RuneError \<and> length bs = 1 then [CHR 0xEF, CHR 0xBF, CHR 0xBD] else bs) (runes s))"

text \<open>What the receiver decodes from the encoding of a message.\<close>

definition wire_result :: "exec_result \<Rightarrow> exec_result" where
  "wire_result r = r\<lparr>res_ID := json_string (res_ID r), Stdout := json_string (Stdout r),
     Stderr := json_string (Stderr r), res_Error := json_string (res_Error r)\<rparr>"

definition wire_frame :: "exec_frame \<Rightarrow> exec_frame" where
  "wire_frame f = f\<lparr>frame_ID := json_string (frame_ID f), frame_Stream := json_string (frame_Stream f),
     frame_Data := json_string (frame_Data f), frame_Result := map_option wire_result (frame_Result f)\<rparr>"

record exec_conn =
  dial :: "error option"
  conn_write :: "error option"
  replies :: "(error + exec_result) list"
  frames :: "(error + exec_frame) list"

definition io_EOF :: error where "io_EOF = Sentinel ''EOF''"

definition Exec :: "exec_conn \<Rightarrow> exec_request \<Rightarrow> exec_result result" where
  "Exec c req =
     (case req_Validate req of
        Some err \<Rightarrow> Inl err
      | None \<Rightarrow>
          (case dial c of
             Some err \<Rightarrow> Inl (Wrapf ''dial guest vsock: '' err [])
           | None \<Rightarrow>
               (case conn_write c of
                  Some err \<Rightarrow> Inl (Wrapf ''send execution request: '' err [])
                | None \<Rightarrow>
                    (case (case replies c of [] \<Rightarrow> Inl io_EOF | r # _ \<Rightarrow> r) of
                       Inl err \<Rightarrow> Inl (Wrapf ''read execution result: '' err [])
                     | Inr result \<Rightarrow>
                         if res_Version result \<noteq> ProtocolVersion
                         then Inl (Errorf (''unsupported guest protocol version '' @ Itoa (res_Version result)))
                         else if res_ID result \<noteq> req_ID req
                         then Inl (Errorf (''execution result id '' @ Quote (res_ID result)
                                @ '' does not match request '' @ Quote (req_ID req)))
                         else Inr result))))"

fun stream_loop ::
  "('s \<Rightarrow> exec_frame \<Rightarrow> error option \<times> 's) \<Rightarrow> string \<Rightarrow> (error + exec_frame) list \<Rightarrow> 's \<Rightarrow> exec_result result \<times> 's" where
  "stream_loop receive reqID [] s = (Inl (Wrapf ''read execution frame: '' io_EOF []), s)"
| "stream_loop receive reqID (Inl err # fs) s = (Inl (Wrapf ''read execution frame: '' err []), s)"
| "stream_loop receive reqID (Inr frame # fs) s =
     (if frame_Version frame \<noteq> ProtocolVersion \<or> frame_ID frame \<noteq> reqID
      then (Inl (Errorf ''invalid execution frame''), s)
      else case frame_Result frame of
             Some result \<Rightarrow> (Inr result, s)
           | None \<Rightarrow>
               if frame_Stream frame \<noteq> ''stdout'' \<and> frame_Stream frame \<noteq> ''stderr''
                  \<or> MaxStreamFrameBytes < length (frame_Data frame)
               then (Inl (Errorf ''invalid execution output frame''), s)
               else case receive s frame of
                      (Some err, s) \<Rightarrow> (Inl err, s)
                    | (None, s) \<Rightarrow> stream_loop receive reqID fs s)"

definition ExecStream ::
  "exec_conn \<Rightarrow> exec_request \<Rightarrow> ('s \<Rightarrow> exec_frame \<Rightarrow> error option \<times> 's) option \<Rightarrow> 's \<Rightarrow> exec_result result \<times> 's" where
  "ExecStream c req receive s =
     (case receive of
        None \<Rightarrow> (Inl (Errorf ''stream receiver is required''), s)
      | Some receive \<Rightarrow>
          let req = req\<lparr>Stream := True\<rparr> in
          (case req_Validate req of
             Some err \<Rightarrow> (Inl err, s)
           | None \<Rightarrow>
               (case dial c of
                  Some err \<Rightarrow> (Inl (Wrapf ''dial guest vsock: '' err []), s)
                | None \<Rightarrow>
                    (case conn_write c of
                       Some err \<Rightarrow> (Inl (Wrapf ''send execution request: '' err []), s)
                     | None \<Rightarrow> stream_loop receive (req_ID req) (frames c) s))))"

section \<open>Lemmas\<close>

lemma check_args_None: "check_args i args = None \<longleftrightarrow> (\<forall>a \<in> set args. length a \<le> MaxArgLen)"
  by (induction args arbitrary: i) auto

lemma check_env_None:
  "check_env env = None \<longleftrightarrow>
     (\<forall>(k, v) \<in> set env. length k \<le> MaxEnvKeyLen \<and> allowedEnvKey k \<and> length v \<le> MaxEnvValLen)"
  by (induction env rule: check_env.induct) auto

lemma json_string_ascii: "ascii s \<Longrightarrow> json_string s = s"
proof -
  assume a: "ascii s"
  then have "\<forall>c \<in> set s. code c \<noteq> RuneError" by (auto simp: ascii_def is_ascii_def list_all_iff RuneError_def)
  then show ?thesis
    unfolding json_string_def runes_ascii [OF a] by (induction s) auto
qed

lemma runes_ascii_append: "ascii a \<Longrightarrow> runes (a @ t) = map (\<lambda>c. (code c, [c])) a @ runes t"
  by (induction a) (simp_all add: is_ascii_decode)

lemma json_string_append: "ascii a \<Longrightarrow> json_string (a @ t) = a @ json_string t"
  using json_string_ascii [of a] by (simp add: json_string_def runes_ascii_append runes_ascii)

lemma req_Validate_iff_ok: "req_Validate r = None \<longleftrightarrow> request_ok r"
proof -
  have "req_Validate r = None \<longleftrightarrow> request_ok r" if "check_args 0 (Args r) = None"
    using that check_args_None [of 0 "Args r"] check_env_None [of "Env r"]
    by (auto simp: req_Validate_def request_ok_def)
  moreover have "req_Validate r \<noteq> None \<and> \<not> request_ok r" if "check_args 0 (Args r) \<noteq> None"
    using that check_args_None [of 0 "Args r"] by (auto simp: req_Validate_def request_ok_def)
  ultimately show ?thesis by blast
qed

section \<open>Properties\<close>

text \<open>
  Validation is complete. \<open>Validate\<close> accepts a request exactly when every field is within its
  documented bound, the timeout is between zero and the maximum, and every environment variable is
  one of the permitted names.
\<close>

theorem req_Validate_iff: "req_Validate r = None \<longleftrightarrow> request_ok r"
  by (rule req_Validate_iff_ok)

end
