(* ===== verification/Guest_Agent.thy ===== *)
theory Guest_Agent
  imports Vsock
begin

text \<open>
  \<open>cmd/guest-agent\<close>: the agent that runs as init inside a guest. The kernel is a parameter: a
  function from a system call and a state to an answer and the next state. An answer of an unexpected
  kind counts as success without data. The accept loop of \<open>run\<close> is not modelled; \<open>serve\<close> is what it does
  with each connection. The map literals with the cgroup settings are lists here; their iteration order
  only decides which of several failing settings is reported.
\<close>

section \<open>The kernel\<close>

datatype sys =
  SysMkdirAll string | SysMkdir string | SysWriteFile string string | SysReadFile string | SysRemove string
| SysRandRead nat | SysOpenDir string | SysClose | SysStart | SysKill | SysWait
| SysSetRlimit nat nat | SysGetRlimit nat
| SysMount string string string string | SysMove string string | SysUnmount string
| SysPivotRoot string string | SysChdir string | SysStat string

datatype answer =
  AnsOk | AnsErr error | AnsNotExist error | AnsData string | AnsPid nat | AnsLimit nat nat
| AnsDir bool | AnsExit int error

type_synonym 'h kernel = "sys \<Rightarrow> 'h \<Rightarrow> answer \<times> 'h"

fun ans_err :: "answer \<Rightarrow> error option" where
  "ans_err (AnsErr e) = Some e"
| "ans_err (AnsNotExist e) = Some e"
| "ans_err (AnsExit _ e) = Some e"
| "ans_err _ = None"

fun ans_data :: "answer \<Rightarrow> string" where
  "ans_data (AnsData s) = s"
| "ans_data _ = []"

fun ans_pid :: "answer \<Rightarrow> nat" where
  "ans_pid (AnsPid n) = n"
| "ans_pid _ = 0"

text \<open>A system call of which only the error matters, and one whose result is ignored.\<close>

definition call :: "'h kernel \<Rightarrow> sys \<Rightarrow> 'h \<Rightarrow> error option \<times> 'h" where
  "call k s h = (case k s h of (a, h) \<Rightarrow> (ans_err a, h))"

definition ignore :: "'h kernel \<Rightarrow> sys \<Rightarrow> 'h \<Rightarrow> 'h" where
  "ignore k s h = snd (k s h)"

text \<open>A kernel that records its calls and answers them from an oracle, which may look at the past.\<close>

definition log_kernel :: "(sys list \<Rightarrow> sys \<Rightarrow> answer) \<Rightarrow> sys list kernel" where
  "log_kernel orc s log = (orc log s, log @ [s])"

section \<open>Bounded output\<close>

record limited_buffer =
  lb_limit :: nat
  lb_buf :: string
  lb_truncated :: bool

definition lb_Write :: "string \<Rightarrow> limited_buffer \<Rightarrow> limited_buffer" where
  "lb_Write p b =
     (if lb_truncated b then b
      else let remaining = int (lb_limit b) - int (length (lb_buf b))
           in if remaining \<le> 0 then b\<lparr>lb_truncated := True\<rparr>
              else if remaining < int (length p)
              then b\<lparr>lb_buf := lb_buf b @ take (nat remaining) p, lb_truncated := True\<rparr>
              else b\<lparr>lb_buf := lb_buf b @ p\<rparr>)"

definition lb_new :: "nat \<Rightarrow> limited_buffer" where
  "lb_new n = \<lparr>lb_limit = n, lb_buf = [], lb_truncated = False\<rparr>"

definition lb_collect :: "nat \<Rightarrow> string list \<Rightarrow> limited_buffer" where
  "lb_collect n chunks = fold lb_Write chunks (lb_new n)"

section \<open>Resource limits\<close>

definition guestCgroupRoot :: string where "guestCgroupRoot = ''/sys/fs/cgroup/shiyao''"
definition guestMemoryMax :: nat where "guestMemoryMax = 402653184"
definition guestPidsMax :: nat where "guestPidsMax = 256"
definition guestCPUQuotaUS :: nat where "guestCPUQuotaUS = 100000"
definition guestCPUPeriodUS :: nat where "guestCPUPeriodUS = 100000"
definition guestFileMax :: nat where "guestFileMax = 268435456"
definition guestNoFileMax :: nat where "guestNoFileMax = 4096"

definition RLIMIT_CPU :: nat where "RLIMIT_CPU = 0"
definition RLIMIT_FSIZE :: nat where "RLIMIT_FSIZE = 1"
definition RLIMIT_NOFILE :: nat where "RLIMIT_NOFILE = 7"

definition cgroup_settings :: "(string \<times> string) list" where
  "cgroup_settings =
     [(''memory.max'', nat_str guestMemoryMax), (''pids.max'', nat_str guestPidsMax),
      (''cpu.max'', nat_str guestCPUQuotaUS @ '' '' @ nat_str guestCPUPeriodUS)]"

definition randomCgroupName :: "'h kernel \<Rightarrow> 'h \<Rightarrow> string result \<times> 'h" where
  "randomCgroupName k h =
     (case k (SysRandRead 16) h of
        (a, h) \<Rightarrow> (case ans_err a of
                    Some err \<Rightarrow> (Inl err, h)
                  | None \<Rightarrow> (Inr (''exec-'' @ hex_encode (bytes_of (ans_data a))), h)))"

fun write_settings :: "'h kernel \<Rightarrow> string \<Rightarrow> (string \<times> string) list \<Rightarrow> 'h \<Rightarrow> error option \<times> 'h" where
  "write_settings k path [] h = (None, h)"
| "write_settings k path ((setting, val) # rest) h =
     (case call k (SysWriteFile (path @ ''/'' @ setting) val) h of
        (Some err, h) \<Rightarrow> (Some err, h)
      | (None, h) \<Rightarrow> write_settings k path rest h)"

fun verify_files :: "'h kernel \<Rightarrow> string \<Rightarrow> (string \<times> string) list \<Rightarrow> 'h \<Rightarrow> error option \<times> 'h" where
  "verify_files k path [] h = (None, h)"
| "verify_files k path ((name, expected) # rest) h =
     (case k (SysReadFile (path @ ''/'' @ name)) h of
        (a, h) \<Rightarrow>
          (case ans_err a of
             Some err \<Rightarrow> (Some (Wrapf (''read '' @ name @ '': '') err []), h)
           | None \<Rightarrow>
               if TrimSpace (ans_data a) \<noteq> expected
               then (Some (Errorf (name @ '' = '' @ Quote (TrimSpace (ans_data a)) @ '', want '' @ Quote expected)), h)
               else verify_files k path rest h))"

definition verifyCgroupFiles :: "'h kernel \<Rightarrow> string \<Rightarrow> 'h \<Rightarrow> error option \<times> 'h" where
  "verifyCgroupFiles k path h = verify_files k path cgroup_settings h"

definition prepareCgroup :: "'h kernel \<Rightarrow> 'h \<Rightarrow> string result \<times> 'h" where
  "prepareCgroup k h =
     (case call k (SysMkdirAll guestCgroupRoot) h of
        (Some err, h) \<Rightarrow> (Inl err, h)
      | (None, h) \<Rightarrow>
     (case call k (SysWriteFile ''/sys/fs/cgroup/cgroup.subtree_control'' ''+cpu +memory +pids'') h of
        (Some err, h) \<Rightarrow> (Inl (Wrapf ''enable cgroup controllers: '' err []), h)
      | (None, h) \<Rightarrow>
     (case randomCgroupName k h of
        (Inl err, h) \<Rightarrow> (Inl err, h)
      | (Inr name, h) \<Rightarrow>
          let path = guestCgroupRoot @ ''/'' @ name in
     (case call k (SysMkdir path) h of
        (Some err, h) \<Rightarrow> (Inl err, h)
      | (None, h) \<Rightarrow>
     (case write_settings k path cgroup_settings h of
        (Some err, h) \<Rightarrow> (Inl err, ignore k (SysRemove path) h)
      | (None, h) \<Rightarrow>
     (case verifyCgroupFiles k path h of
        (Some err, h) \<Rightarrow> (Inl err, ignore k (SysRemove path) h)
      | (None, h) \<Rightarrow>
     (case call k (SysOpenDir path) h of
        (Some err, h) \<Rightarrow> (Inl err, ignore k (SysRemove path) h)
      | (None, h) \<Rightarrow> (Inr path, h))))))))"

definition cleanup_cgroup :: "'h kernel \<Rightarrow> string \<Rightarrow> 'h \<Rightarrow> error option \<times> 'h" where
  "cleanup_cgroup k path h =
     (case k (SysRemove path) h of (AnsNotExist _, h) \<Rightarrow> (None, h) | (a, h) \<Rightarrow> (ans_err a, h))"

text \<open>\<open>strings.Contains\<close>, and \<open>filepath.Base\<close> of a path that does not end in a separator.\<close>

definition str_Contains :: "string \<Rightarrow> string \<Rightarrow> bool" where
  "str_Contains s t \<longleftrightarrow> sublist t s"

definition path_Base :: "string \<Rightarrow> string" where
  "path_Base p = last (split_on (CHR ''/'') p)"

definition verifyCgroupForProcess :: "'h kernel \<Rightarrow> nat \<Rightarrow> string \<Rightarrow> 'h \<Rightarrow> error option \<times> 'h" where
  "verifyCgroupForProcess k pid cgroupPath h =
     (case k (SysReadFile (''/proc/'' @ nat_str pid @ ''/cgroup'')) h of
        (a, h) \<Rightarrow>
          (case ans_err a of
             Some err \<Rightarrow> (Some err, h)
           | None \<Rightarrow>
               if \<not> str_Contains (ans_data a) (''/shiyao/'' @ path_Base cgroupPath)
               then (Some (Errorf (''process is not a member of '' @ cgroupPath)), h)
               else (None, h)))"

fun set_limits :: "'h kernel \<Rightarrow> (nat \<times> nat) list \<Rightarrow> 'h \<Rightarrow> error option \<times> 'h" where
  "set_limits k [] h = (None, h)"
| "set_limits k ((res, v) # rest) h =
     (case call k (SysSetRlimit res v) h of
        (Some err, h) \<Rightarrow> (Some err, h)
      | (None, h) \<Rightarrow> set_limits k rest h)"

definition applyRlimits :: "'h kernel \<Rightarrow> 'h \<Rightarrow> error option \<times> 'h" where
  "applyRlimits k h = set_limits k [(RLIMIT_CPU, 300), (RLIMIT_FSIZE, guestFileMax), (RLIMIT_NOFILE, guestNoFileMax)] h"

fun verify_limits :: "'h kernel \<Rightarrow> (string \<times> nat \<times> nat) list \<Rightarrow> 'h \<Rightarrow> error option \<times> 'h" where
  "verify_limits k [] h = (None, h)"
| "verify_limits k ((name, res, v) # rest) h =
     (case k (SysGetRlimit res) h of
        (a, h) \<Rightarrow>
          (case ans_err a of
             Some err \<Rightarrow> (Some err, h)
           | None \<Rightarrow>
               let (cur, max) = (case a of AnsLimit c m \<Rightarrow> (c, m) | _ \<Rightarrow> (0, 0))
               in if cur \<noteq> v \<or> max \<noteq> v
                  then (Some (Errorf (name @ '' rlimit = ('' @ nat_str cur @ '','' @ nat_str max @ ''), want (''
                         @ nat_str v @ '','' @ nat_str v @ '')'')), h)
                  else verify_limits k rest h))"

definition verifyRlimits :: "'h kernel \<Rightarrow> 'h \<Rightarrow> error option \<times> 'h" where
  "verifyRlimits k h = verify_limits k
     [(''cpu'', RLIMIT_CPU, 300), (''file size'', RLIMIT_FSIZE, guestFileMax), (''open files'', RLIMIT_NOFILE, guestNoFileMax)] h"

text \<open>\<open>killAndReap\<close> followed by the clean-up of the cgroup.\<close>

definition abort_command :: "'h kernel \<Rightarrow> string \<Rightarrow> 'h \<Rightarrow> 'h" where
  "abort_command k path h = snd (cleanup_cgroup k path (ignore k SysWait (ignore k SysKill h)))"

definition startWithResourceLimits :: "'h kernel \<Rightarrow> 'h \<Rightarrow> string result \<times> 'h" where
  "startWithResourceLimits k h =
     (case prepareCgroup k h of
        (Inl err, h) \<Rightarrow> (Inl (Wrapf ''prepare cgroup: '' err []), h)
      | (Inr path, h) \<Rightarrow>
     (case k SysStart h of
        (a, h) \<Rightarrow>
     (case ans_err a of
        Some err \<Rightarrow> (Inl (Wrapf ''start command: '' err []), snd (cleanup_cgroup k path (ignore k SysClose h)))
      | None \<Rightarrow>
     (case verifyCgroupForProcess k (ans_pid a) path (ignore k SysClose h) of
        (Some err, h) \<Rightarrow> (Inl (Wrapf ''verify cgroup limits: '' err []), abort_command k path h)
      | (None, h) \<Rightarrow>
     (case applyRlimits k h of
        (Some err, h) \<Rightarrow> (Inl (Wrapf ''apply process limits: '' err []), abort_command k path h)
      | (None, h) \<Rightarrow>
     (case verifyRlimits k h of
        (Some err, h) \<Rightarrow> (Inl (Wrapf ''verify process limits: '' err []), abort_command k path h)
      | (None, h) \<Rightarrow> (Inr path, h)))))))"

text \<open>An oracle with which a command starts, for the examples.\<close>

definition demo_oracle :: "sys list \<Rightarrow> sys \<Rightarrow> answer" where
  "demo_oracle log s =
     (case s of
        SysReadFile p \<Rightarrow>
          (if path_Base p = ''cgroup'' then AnsData ''0::/shiyao/exec-''
           else AnsData (case map_of cgroup_settings (path_Base p) of Some v \<Rightarrow> v | None \<Rightarrow> []))
      | SysStart \<Rightarrow> AnsPid 7
      | SysGetRlimit res \<Rightarrow>
          (if res = RLIMIT_CPU then AnsLimit 300 300
           else if res = RLIMIT_FSIZE then AnsLimit guestFileMax guestFileMax
           else AnsLimit guestNoFileMax guestNoFileMax)
      | _ \<Rightarrow> AnsOk)"

section \<open>Lemmas\<close>

lemma lb_Write_step:
  assumes "lb_limit b = n" and "lb_buf b = take n s" and "lb_truncated b \<longleftrightarrow> n < length s" and "p \<noteq> []"
  shows "lb_limit (lb_Write p b) = n \<and> lb_buf (lb_Write p b) = take n (s @ p)
    \<and> (lb_truncated (lb_Write p b) \<longleftrightarrow> n < length (s @ p))"
  using assms by (cases "lb_truncated b") (auto simp: lb_Write_def Let_def nat_diff_distrib)

lemma lb_fold:
  assumes "lb_limit b = n" and "lb_buf b = take n s" and "lb_truncated b \<longleftrightarrow> n < length s"
    and "[] \<notin> set cs"
  shows "lb_buf (fold lb_Write cs b) = take n (s @ concat cs)
    \<and> (lb_truncated (fold lb_Write cs b) \<longleftrightarrow> n < length (s @ concat cs))"
  using assms
proof (induction cs arbitrary: b s)
  case (Cons c cs)
  have "c \<noteq> []" using Cons.prems(4) by auto
  note step = lb_Write_step [OF Cons.prems(1-3) this]
  show ?case using Cons.IH [of "lb_Write c b" "s @ c"] step Cons.prems(4) by simp
qed simp

lemma log_kernel_app: "log_kernel orc s log = (orc log s, log @ [s])"
  by (simp add: log_kernel_def)

lemma call_log: "call (log_kernel orc) s log = (ans_err (orc log s), log @ [s])"
  by (simp add: call_def log_kernel_app)

lemma ignore_log: "ignore (log_kernel orc) s log = log @ [s]"
  by (simp add: ignore_def log_kernel_app)

lemma write_settings_log:
  "write_settings (log_kernel orc) path ss log = (r, log') \<Longrightarrow>
   \<exists>new. log' = log @ new \<and> (\<forall>s \<in> set new. \<exists>a b. s = SysWriteFile a b)"
  by (induction ss arbitrary: log)
     (fastforce simp: call_log split: option.splits)+

lemma verify_files_log:
  "verify_files (log_kernel orc) path ss log = (r, log') \<Longrightarrow>
   \<exists>new. log' = log @ new \<and> (\<forall>s \<in> set new. \<exists>a. s = SysReadFile a)"
  by (induction ss arbitrary: log)
     (fastforce simp: log_kernel_app split: option.splits if_splits)+

lemma set_limits_log:
  "set_limits (log_kernel orc) ls log = (r, log') \<Longrightarrow>
   \<exists>new. log' = log @ new \<and> (\<forall>s \<in> set new. \<exists>a b. s = SysSetRlimit a b)
     \<and> (r = None \<longrightarrow> new = map (\<lambda>(a, b). SysSetRlimit a b) ls)"
  by (induction ls arbitrary: log)
     (fastforce simp: call_log split: option.splits)+

lemma verify_limits_log:
  "verify_limits (log_kernel orc) ls log = (r, log') \<Longrightarrow>
   \<exists>new. log' = log @ new \<and> (\<forall>s \<in> set new. \<exists>a. s = SysGetRlimit a)
     \<and> (r = None \<longrightarrow> (\<forall>(name, a, v) \<in> set ls. v \<noteq> 0 \<longrightarrow> (\<exists>l. orc l (SysGetRlimit a) = AnsLimit v v)))"
proof (induction ls arbitrary: log)
  case (Cons x ls)
  obtain name a v where x: "x = (name, a, v)" by (metis prod_cases3)
  note k = log_kernel_app [of orc "SysGetRlimit a" log]
  let ?cm = "case orc log (SysGetRlimit a) of AnsLimit c m \<Rightarrow> (c, m) | _ \<Rightarrow> (0, 0)"
  show ?case
  proof (cases "ans_err (orc log (SysGetRlimit a)) = None \<and> ?cm = (v, v)")
    case True
    then have rest: "verify_limits (log_kernel orc) ls (log @ [SysGetRlimit a]) = (r, log')"
      using Cons.prems by (simp add: x k)
    have "v \<noteq> 0 \<longrightarrow> orc log (SysGetRlimit a) = AnsLimit v v"
      using True by (auto split: answer.splits)
    then show ?thesis using Cons.IH [OF rest] x by fastforce
  next
    case False
    then have "log' = log @ [SysGetRlimit a]" "r \<noteq> None"
      using Cons.prems
      by (cases "ans_err (orc log (SysGetRlimit a))"; cases ?cm; auto simp: x k Let_def split: if_splits)+
    then show ?thesis by auto
  qed
qed simp

lemma prepare_log:
  assumes "prepareCgroup (log_kernel orc) log = (r, log')"
  shows "\<exists>new. log' = log @ new \<and> SysStart \<notin> set new
    \<and> (\<forall>path. SysMkdir path \<in> set new \<longrightarrow>
          (case r of Inl _ \<Rightarrow> last new \<in> {SysRemove path, SysMkdir path} | Inr p \<Rightarrow> p = path))"
proof -
  let ?k = "log_kernel orc" and ?ctl = "SysWriteFile ''/sys/fs/cgroup/cgroup.subtree_control'' ''+cpu +memory +pids''"
  let ?log3 = "log @ [SysMkdirAll guestCgroupRoot, ?ctl, SysRandRead 16]"
  show ?thesis
  proof (cases "ans_err (orc log (SysMkdirAll guestCgroupRoot)) = None
      \<and> ans_err (orc (log @ [SysMkdirAll guestCgroupRoot]) ?ctl) = None
      \<and> ans_err (orc (log @ [SysMkdirAll guestCgroupRoot, ?ctl]) (SysRandRead 16)) = None")
    case False
    then have "\<exists>new. log' = log @ new \<and> set new \<subseteq> {SysMkdirAll guestCgroupRoot, ?ctl, SysRandRead 16}"
      using assms by (auto simp: prepareCgroup_def randomCgroupName_def call_log log_kernel_app split: option.splits)
    then show ?thesis by auto
  next
    case True
    define path where "path = guestCgroupRoot @ ''/exec-'' @ hex_encode (bytes_of (ans_data
        (orc (log @ [SysMkdirAll guestCgroupRoot, ?ctl]) (SysRandRead 16))))"
    let ?log4 = "?log3 @ [SysMkdir path]"
    obtain r5 log5 where w: "write_settings ?k path cgroup_settings ?log4 = (r5, log5)" by fastforce
    obtain r6 log6 where v: "verifyCgroupFiles ?k path log5 = (r6, log6)" by fastforce
    obtain n5 where n5: "log5 = ?log4 @ n5" "\<forall>s \<in> set n5. \<exists>a b. s = SysWriteFile a b"
      using write_settings_log [OF w] by blast
    obtain n6 where n6: "log6 = log5 @ n6" "\<forall>s \<in> set n6. \<exists>a. s = SysReadFile a"
      using verify_files_log [OF v [unfolded verifyCgroupFiles_def]] by blast
    have name: "randomCgroupName ?k (log @ [SysMkdirAll guestCgroupRoot, ?ctl]) = (Inr (drop (Suc (length guestCgroupRoot)) path), ?log3)"
      using True by (simp add: randomCgroupName_def log_kernel_app path_def)
    have path: "guestCgroupRoot @ CHR ''/'' # drop (Suc (length guestCgroupRoot)) path = path" by (simp add: path_def)
    have "log' = ?log4 \<and> (\<exists>e. r = Inl e) \<or> log' = log5 @ [SysRemove path] \<and> (\<exists>e. r = Inl e)
      \<or> log' = log6 @ [SysRemove path] \<and> (\<exists>e. r = Inl e)
      \<or> log' = log6 @ [SysOpenDir path, SysRemove path] \<and> (\<exists>e. r = Inl e)
      \<or> log' = log6 @ [SysOpenDir path] \<and> r = Inr path"
      using assms True w v
      by (cases r5; cases r6) (auto simp: prepareCgroup_def name path call_log ignore_log split: option.splits)
    then show ?thesis using n5 n6 by (elim disjE conjE exE) (force+)
  qed
qed

lemma cleanup_cgroup_log: "snd (cleanup_cgroup (log_kernel orc) path log) = log @ [SysRemove path]"
  by (simp add: cleanup_cgroup_def log_kernel_app split: answer.split)

lemma abort_command_log:
  "abort_command (log_kernel orc) path log = log @ [SysKill, SysWait, SysRemove path]"
  by (simp add: abort_command_def cleanup_cgroup_log ignore_log)

lemma verifyCgroupForProcess_log:
  "snd (verifyCgroupForProcess (log_kernel orc) pid path log) = log @ [SysReadFile (''/proc/'' @ nat_str pid @ ''/cgroup'')]"
  by (simp add: verifyCgroupForProcess_def log_kernel_app split: option.split)

text \<open>Everything that can happen after the cgroup is prepared.\<close>

lemma start_log_cases:
  assumes "prepareCgroup (log_kernel orc) log = (Inr path, log1)"
    and "startWithResourceLimits (log_kernel orc) log = (r, log')"
  obtains (refused) e where "r = Inl e" "log' = log1 @ [SysStart, SysClose, SysRemove path]"
    | (aborted) e mid where "r = Inl e" "log' = log1 @ [SysStart, SysClose] @ mid @ [SysKill, SysWait, SysRemove path]"
        "\<forall>p. SysMkdir p \<notin> set mid"
    | (ok) mid pre post where "r = Inr path" "log' = log1 @ [SysStart, SysClose] @ mid"
        "mid = pre @ map (\<lambda>(a, b). SysSetRlimit a b) [(RLIMIT_CPU, 300), (RLIMIT_FSIZE, guestFileMax), (RLIMIT_NOFILE, guestNoFileMax)] @ post"
        "\<exists>l. orc l (SysGetRlimit RLIMIT_CPU) = AnsLimit 300 300"
        "\<exists>l. orc l (SysGetRlimit RLIMIT_FSIZE) = AnsLimit guestFileMax guestFileMax"
        "\<exists>l. orc l (SysGetRlimit RLIMIT_NOFILE) = AnsLimit guestNoFileMax guestNoFileMax"
proof -
  let ?k = "log_kernel orc" and ?a = "orc log1 SysStart"
  note st = log_kernel_app [of orc SysStart log1]
  define log3 where "log3 = log1 @ [SysStart, SysClose]"
  let ?rd = "SysReadFile (''/proc/'' @ nat_str (ans_pid ?a) @ ''/cgroup'')"
  obtain e4 where v: "verifyCgroupForProcess ?k (ans_pid ?a) path log3 = (e4, log3 @ [?rd])"
    using verifyCgroupForProcess_log [of orc "ans_pid ?a" path log3] by (metis prod.collapse)
  obtain e5 log5 where ap: "applyRlimits ?k (log3 @ [?rd]) = (e5, log5)" by fastforce
  obtain e6 log6 where vl: "verifyRlimits ?k log5 = (e6, log6)" by fastforce
  obtain n5 where n5: "log5 = log3 @ [?rd] @ n5" "\<forall>s \<in> set n5. \<exists>a b. s = SysSetRlimit a b"
    "e5 = None \<longrightarrow> n5 = map (\<lambda>(a, b). SysSetRlimit a b)
        [(RLIMIT_CPU, 300), (RLIMIT_FSIZE, guestFileMax), (RLIMIT_NOFILE, guestNoFileMax)]"
    using set_limits_log [OF ap [unfolded applyRlimits_def]] by auto
  obtain n6 where n6: "log6 = log5 @ n6" "\<forall>s \<in> set n6. \<exists>a. s = SysGetRlimit a"
    "e6 = None \<longrightarrow> (\<exists>l. orc l (SysGetRlimit RLIMIT_CPU) = AnsLimit 300 300)
       \<and> (\<exists>l. orc l (SysGetRlimit RLIMIT_FSIZE) = AnsLimit guestFileMax guestFileMax)
       \<and> (\<exists>l. orc l (SysGetRlimit RLIMIT_NOFILE) = AnsLimit guestNoFileMax guestNoFileMax)"
    using verify_limits_log [OF vl [unfolded verifyRlimits_def]]
    by (auto simp: guestFileMax_def guestNoFileMax_def)
  have run: "startWithResourceLimits ?k log = (case ans_err ?a of
        Some err \<Rightarrow> (Inl (Wrapf ''start command: '' err []), log1 @ [SysStart, SysClose, SysRemove path])
      | None \<Rightarrow> (case e4 of
          Some err \<Rightarrow> (Inl (Wrapf ''verify cgroup limits: '' err []), log3 @ [?rd] @ [SysKill, SysWait, SysRemove path])
        | None \<Rightarrow> (case e5 of
            Some err \<Rightarrow> (Inl (Wrapf ''apply process limits: '' err []), log5 @ [SysKill, SysWait, SysRemove path])
          | None \<Rightarrow> (case e6 of
              Some err \<Rightarrow> (Inl (Wrapf ''verify process limits: '' err []), log6 @ [SysKill, SysWait, SysRemove path])
            | None \<Rightarrow> (Inr path, log6)))))"
    using assms(1) v ap vl
    by (simp add: startWithResourceLimits_def st ignore_log cleanup_cgroup_log abort_command_log log3_def
        split: option.split)
  show ?thesis
  proof (cases "ans_err ?a = None \<and> e4 = None \<and> e5 = None \<and> e6 = None")
    case True
    then show ?thesis
      using assms(2) run n5 n6 log3_def by (intro ok [of "[?rd] @ n5 @ n6" "[?rd]" n6]) auto
  next
    case False
    then consider (a) err where "ans_err ?a = Some err"
      | (b) err where "ans_err ?a = None" "e4 = Some err"
      | (c) err where "ans_err ?a = None" "e4 = None" "e5 = Some err"
      | (d) err where "ans_err ?a = None" "e4 = None" "e5 = None" "e6 = Some err"
      by (cases "ans_err ?a"; cases e4; cases e5; cases e6) auto
    then show ?thesis
    proof cases
      case a
      then show ?thesis using assms(2) run by (intro refused) auto
    next
      case b
      then show ?thesis using assms(2) run log3_def by (intro aborted [where mid = "[?rd]"]) auto
    next
      case c
      then show ?thesis using assms(2) run n5 log3_def by (intro aborted [where mid = "[?rd] @ n5"]) auto
    next
      case d
      then show ?thesis using assms(2) run n5 n6 log3_def by (intro aborted [where mid = "[?rd] @ n5 @ n6"]) auto
    qed
  qed
qed

lemma demo_start:
  "\<exists>log'. startWithResourceLimits (log_kernel demo_oracle) log = (Inr (guestCgroupRoot @ ''/exec-''), log')"
proof -
  have s: "cgroup_settings = [(''memory.max'', ''402653184''), (''pids.max'', ''256''), (''cpu.max'', ''100000 100000'')]"
    by (simp add: cgroup_settings_def guestMemoryMax_def guestPidsMax_def guestCPUQuotaUS_def guestCPUPeriodUS_def
        nat_str.simps digit_def char_of_def bit_0)
  have t: "TrimSpace ''402653184'' = ''402653184''" "TrimSpace ''256'' = ''256''"
      "TrimSpace ''100000 100000'' = ''100000 100000''"
    by (simp_all add: TrimSpace_ascii ascii_def is_ascii_def trim_both_def is_space_def)
  have p: "nat_str 7 = ''7''" "sublist ''/shiyao/exec-'' ''0::/shiyao/exec-''"
    using suffix_imp_sublist [of "''/shiyao/exec-''" "''0::/shiyao/exec-''"]
    by (simp_all add: nat_str.simps digit_def char_of_def bit_0 suffix_def)
  show ?thesis
    by (simp add: startWithResourceLimits_def prepareCgroup_def randomCgroupName_def call_log ignore_log log_kernel_app
        verifyCgroupFiles_def s t verifyCgroupForProcess_def applyRlimits_def verifyRlimits_def demo_oracle_def
        RLIMIT_CPU_def RLIMIT_FSIZE_def RLIMIT_NOFILE_def guestCgroupRoot_def path_Base_def str_Contains_def
        hex_encode_def bytes_of_def Let_def p)
qed

section \<open>Properties\<close>

text \<open>
  Output capture is truncation. Whatever non-empty pieces a process writes, the buffer holds
  exactly the first \<open>n\<close> bytes of the whole output, and it is marked truncated iff there were more.
\<close>

theorem limited_buffer_take:
  assumes "[] \<notin> set chunks"
  shows "lb_buf (lb_collect n chunks) = take n (concat chunks)
    \<and> (lb_truncated (lb_collect n chunks) \<longleftrightarrow> n < length (concat chunks))"
  using lb_fold [of "lb_new n" n "[]" chunks] assms by (simp add: lb_collect_def lb_new_def)

theorem limited_buffer_take_witness:
  "lb_buf (lb_collect 3 [''ab'', ''cd'', ''e'']) = ''abc'' \<and> lb_truncated (lb_collect 3 [''ab'', ''cd'', ''e''])"
  using limited_buffer_take [of "[''ab'', ''cd'', ''e'']" 3] by simp

text \<open>
  C26. Nothing is left behind when a command cannot be confined. Whatever the kernel answers, if
  \<open>startWithResourceLimits\<close> fails, then the cgroup directory it made is removed by the very last call,
  unless making it was itself the last call; and if the command was started, the run ends by killing
  and reaping its process group before that removal, unless the start itself was refused.
\<close>

theorem start_failure_cleanup:
  assumes "startWithResourceLimits (log_kernel orc) log = (Inl e, log')"
  shows "\<exists>new. log' = log @ new
    \<and> (\<forall>path. SysMkdir path \<in> set new \<longrightarrow> last new = SysRemove path \<or> last new = SysMkdir path)
    \<and> (SysStart \<in> set new \<longrightarrow> (\<exists>pre path. new = pre @ [SysStart, SysClose, SysRemove path]
            \<or> new = pre @ [SysKill, SysWait, SysRemove path]))"
proof -
  obtain r1 log1 where p: "prepareCgroup (log_kernel orc) log = (r1, log1)" by fastforce
  obtain new1 where new1: "log1 = log @ new1" "SysStart \<notin> set new1"
    "\<forall>path. SysMkdir path \<in> set new1 \<longrightarrow>
          (case r1 of Inl _ \<Rightarrow> last new1 \<in> {SysRemove path, SysMkdir path} | Inr p \<Rightarrow> p = path)"
    using prepare_log [OF p] by blast
  show ?thesis
  proof (cases r1)
    case (Inl e1)
    then have "log' = log1" using assms p by (simp add: startWithResourceLimits_def)
    then show ?thesis using new1 Inl by auto
  next
    case (Inr path)
    show ?thesis
    proof (cases rule: start_log_cases [OF p [unfolded Inr] assms])
      case (1 e2)
      then show ?thesis using new1 Inr by (intro exI [of _ "new1 @ [SysStart, SysClose, SysRemove path]"]) auto
    next
      case (2 e2 mid)
      then show ?thesis
        using new1 Inr
        by (intro exI [of _ "new1 @ [SysStart, SysClose] @ mid @ [SysKill, SysWait, SysRemove path]"]) auto
    next
      case (3 mid pre post)
      then show ?thesis by simp
    qed
  qed
qed

theorem start_failure_cleanup_witness:
  "\<exists>e log'. startWithResourceLimits (log_kernel (\<lambda>_ _. AnsErr (Errorf ''EPERM''))) [] = (Inl e, log')
     \<and> SysStart \<notin> set log'"
proof -
  have r: "startWithResourceLimits (log_kernel (\<lambda>_ _. AnsErr (Errorf ''EPERM''))) []
      = (Inl (Wrapf ''prepare cgroup: '' (Errorf ''EPERM'') []), [SysMkdirAll guestCgroupRoot])"
    by (simp add: startWithResourceLimits_def prepareCgroup_def call_log)
  from start_failure_cleanup [OF r] r show ?thesis by auto
qed

text \<open>
  A command that runs is confined. If \<open>startWithResourceLimits\<close> succeeds, it has set the CPU, file
  size and open file limits after the start, in this order, and the kernel has confirmed each of them.
\<close>

theorem start_success_confined:
  assumes "startWithResourceLimits (log_kernel orc) log = (Inr path, log')"
  shows "(\<exists>pre mid post. log' = pre @ [SysStart, SysClose] @ mid @ [SysSetRlimit RLIMIT_CPU 300,
            SysSetRlimit RLIMIT_FSIZE guestFileMax, SysSetRlimit RLIMIT_NOFILE guestNoFileMax] @ post)
    \<and> (\<exists>l. orc l (SysGetRlimit RLIMIT_CPU) = AnsLimit 300 300)
    \<and> (\<exists>l. orc l (SysGetRlimit RLIMIT_FSIZE) = AnsLimit guestFileMax guestFileMax)
    \<and> (\<exists>l. orc l (SysGetRlimit RLIMIT_NOFILE) = AnsLimit guestNoFileMax guestNoFileMax)"
proof -
  obtain r1 log1 where p: "prepareCgroup (log_kernel orc) log = (r1, log1)" by fastforce
  then obtain path' where r1: "r1 = Inr path'"
    using assms by (cases r1) (auto simp: startWithResourceLimits_def)
  show ?thesis
  proof (cases rule: start_log_cases [OF p [unfolded r1] assms])
    case (3 mid pre post)
    then have "log' = log1 @ [SysStart, SysClose] @ pre @ [SysSetRlimit RLIMIT_CPU 300,
        SysSetRlimit RLIMIT_FSIZE guestFileMax, SysSetRlimit RLIMIT_NOFILE guestNoFileMax] @ post" by simp
    with 3 show ?thesis by blast
  qed simp_all
qed

theorem start_success_confined_witness:
  "\<exists>path log'. startWithResourceLimits (log_kernel demo_oracle) [] = (Inr path, log')
     \<and> SysSetRlimit RLIMIT_NOFILE 4096 \<in> set log'"
proof -
  obtain log' where r: "startWithResourceLimits (log_kernel demo_oracle) [] = (Inr (guestCgroupRoot @ ''/exec-''), log')"
    using demo_start by blast
  from start_success_confined [OF r] r show ?thesis by (auto simp: guestNoFileMax_def)
qed

end
