(* ===== verification/Guest_Exec.thy ===== *)
theory Guest_Exec
  imports Guest_Agent
begin

text \<open>
  \<open>cmd/guest-agent/main.go\<close> and \<open>rootfs.go\<close>: serving one connection, running one command, streaming
  its output, and the switch to the ephemeral root file system. What the started process does is a
  parameter: the chunks it writes and whether the deadline of the request fires before it ends; its exit
  is the answer to \<open>SysWait\<close>. \<open>slots\<close> is the number of tokens in \<open>commandSlots\<close>.
\<close>

section \<open>Running a command\<close>

definition loadPresetEnv :: "string list \<Rightarrow> string result \<Rightarrow> string list" where
  "loadPresetEnv environ file =
     (case file of
        Inl _ \<Rightarrow> environ
      | Inr data \<Rightarrow>
          environ @ filter (\<lambda>line. line \<noteq> [] \<and> \<not> HasPrefix line ''#'') (map TrimSpace (split_on (CHR 0x0A) data)))"

record process =
  proc_stdout :: "string list"
  proc_stderr :: "string list"
  proc_timeout :: bool

text \<open>The environment of the command: the preset one and the request's variables.\<close>

definition command_env :: "string list \<Rightarrow> string result \<Rightarrow> exec_request \<Rightarrow> string list" where
  "command_env environ file req = loadPresetEnv environ file @ map (\<lambda>(key, val). key @ ''='' @ val) (Env req)"

definition truncation_note :: string where
  "truncation_note = [CHR 0x0A] @ ''[OUTPUT TRUNCATED DUE TO SIZE LIMIT]''"

definition buffer_text :: "limited_buffer \<Rightarrow> string" where
  "buffer_text b = lb_buf b @ (if lb_truncated b then truncation_note else [])"

definition blank_result :: "exec_request \<Rightarrow> exec_result" where
  "blank_result req = \<lparr>res_Version = ProtocolVersion, res_ID = req_ID req, ExitCode = -1, Stdout = [], Stderr = [], res_Error = []\<rparr>"

definition finish_result :: "exec_result \<Rightarrow> process \<Rightarrow> answer \<Rightarrow> exec_result" where
  "finish_result result proc w =
     (let result = result\<lparr>Stdout := buffer_text (lb_collect MaxOutputBytes (proc_stdout proc)),
                          Stderr := buffer_text (lb_collect MaxOutputBytes (proc_stderr proc))\<rparr>
      in case ans_err w of
           None \<Rightarrow> result\<lparr>ExitCode := 0\<rparr>
         | Some err \<Rightarrow>
             (case w of
                AnsExit c _ \<Rightarrow> result\<lparr>ExitCode := c\<rparr>
              | _ \<Rightarrow> if res_Error result = [] then result\<lparr>res_Error := Error err\<rparr> else result))"

definition cleanup_note :: "error option \<Rightarrow> exec_result \<Rightarrow> exec_result" where
  "cleanup_note cerr result =
     (case cerr of
        Some err \<Rightarrow> if res_Error result = [] then result\<lparr>res_Error := ''cleanup command cgroup: '' @ Error err\<rparr> else result
      | None \<Rightarrow> result)"

text \<open>From the start of the process to the result: the wait, cut short by the deadline, and the clean-up.\<close>

definition await_command ::
  "'h kernel \<Rightarrow> process \<Rightarrow> bool \<Rightarrow> string \<Rightarrow> exec_result \<Rightarrow> 'h \<Rightarrow> exec_result \<times> 'h" where
  "await_command k proc timedOut path result h =
     (case k SysWait (if timedOut then ignore k SysKill h else h) of
        (w, h) \<Rightarrow>
          (case cleanup_cgroup k path h of
             (cerr, h) \<Rightarrow>
               (finish_result
                  (cleanup_note cerr
                     (if timedOut then result\<lparr>res_Error := ''context deadline exceeded''\<rparr> else result))
                  proc w, h)))"

definition execute ::
  "'h kernel \<Rightarrow> (string \<Rightarrow> string list \<Rightarrow> string list \<Rightarrow> process) \<Rightarrow> string list \<Rightarrow> nat \<Rightarrow> exec_request \<Rightarrow> 'h \<Rightarrow> exec_result \<times> 'h" where
  "execute k run environ slots req h =
     (case req_Validate req of
        Some err \<Rightarrow> ((blank_result req)\<lparr>res_Error := Error err\<rparr>, h)
      | None \<Rightarrow>
          if MaxConcurrentCommands \<le> slots
          then ((blank_result req)\<lparr>res_Error := ''guest command concurrency limit reached''\<rparr>, h)
          else
            (case k (SysReadFile ''/etc/shiyao-env'') h of
               (a, h) \<Rightarrow>
                 (let env = command_env environ (case ans_err a of Some e \<Rightarrow> Inl e | None \<Rightarrow> Inr (ans_data a)) req;
                      proc = run (Command req) (Args req) env
                  in case startWithResourceLimits k h of
                       (Inl err, h) \<Rightarrow> ((blank_result req)\<lparr>res_Error := Error err\<rparr>, h)
                     | (Inr path, h) \<Rightarrow>
                         await_command k proc (proc_timeout proc \<and> 0 < TimeoutMS req) path (blank_result req) h)))"

section \<open>Serving a connection\<close>

datatype guest_msg = MsgResult exec_result | MsgFrame exec_frame

definition authorizedHost :: "32 word option \<Rightarrow> bool" where
  "authorizedHost remote \<longleftrightarrow> AuthorizeHostConnection remote = None"

definition error_result :: "error \<Rightarrow> exec_result" where
  "error_result err = \<lparr>res_Version = ProtocolVersion, res_ID = [], ExitCode = -1, Stdout = [], Stderr = [], res_Error = Error err\<rparr>"

text \<open>The loop over \<open>output.data\<close>: pieces of at most \<open>n\<close> bytes.\<close>

function chunks :: "nat \<Rightarrow> string \<Rightarrow> string list" where
  "chunks n s = (if s = [] \<or> n = 0 then [] else take n s # chunks n (drop n s))"
  by pat_completeness auto
termination
  by (relation "measure (\<lambda>(n, s). length s)") auto

definition output_frames :: "string \<Rightarrow> string \<Rightarrow> string \<Rightarrow> exec_frame list" where
  "output_frames reqID name data =
     map (\<lambda>piece. \<lparr>frame_Version = ProtocolVersion, frame_ID = reqID, frame_Stream = name,
                   frame_Data = piece, frame_Result = None\<rparr>)
       (chunks MaxStreamFrameBytes data)"

definition final_frame :: "exec_result \<Rightarrow> exec_frame" where
  "final_frame result =
     \<lparr>frame_Version = ProtocolVersion, frame_ID = res_ID result, frame_Stream = [], frame_Data = [],
      frame_Result = Some (result\<lparr>Stdout := [], Stderr := []\<rparr>)\<rparr>"

definition stream_frames :: "exec_result \<Rightarrow> exec_frame list" where
  "stream_frames result =
     map wire_frame (output_frames (res_ID result) ''stdout'' (Stdout result)
       @ output_frames (res_ID result) ''stderr'' (Stderr result) @ [final_frame result])"

text \<open>The connection accepts \<open>budget\<close> writes, or any number; the first that fails ends the stream.\<close>

definition streamResult :: "nat option \<Rightarrow> exec_result \<Rightarrow> exec_frame list" where
  "streamResult budget result =
     (case budget of None \<Rightarrow> stream_frames result | Some n \<Rightarrow> take n (stream_frames result))"

definition serve ::
  "'h kernel \<Rightarrow> (string \<Rightarrow> string list \<Rightarrow> string list \<Rightarrow> process) \<Rightarrow> string list \<Rightarrow> nat \<Rightarrow> 32 word option
    \<Rightarrow> nat option \<Rightarrow> exec_request result \<Rightarrow> 'h \<Rightarrow> guest_msg list \<times> 'h" where
  "serve k run environ slots remote budget request h =
     (let one = (\<lambda>m. if budget = Some 0 then [] else [m])
      in if \<not> authorizedHost remote then (one (MsgResult (wire_result (error_result (Errorf ''unauthorized vsock peer'')))), h)
         else case request of
                Inl err \<Rightarrow> (one (MsgResult (wire_result (error_result (Wrapf ''decode request: '' err [])))), h)
              | Inr req \<Rightarrow>
                  (case execute k run environ slots req h of
                     (result, h) \<Rightarrow>
                       if Stream req then (map MsgFrame (streamResult budget result), h)
                       else (one (MsgResult (wire_result result)), h)))"

section \<open>The ephemeral root\<close>

definition overlayBase :: string where "overlayBase = ''/dev/shm/shiyao-overlay''"
definition overlaySize :: string where "overlaySize = ''size=512M,mode=0700''"
definition newRoot :: string where "newRoot = overlayBase @ ''/newroot''"
definition oldRoot :: string where "oldRoot = newRoot @ ''/.oldroot''"

definition overlay_dirs :: "string list" where
  "overlay_dirs = [overlayBase @ ''/upper'', overlayBase @ ''/work'', newRoot, oldRoot]"

definition overlay_options :: string where
  "overlay_options = ''lowerdir=/,upperdir='' @ (overlayBase @ ''/upper'') @ '',workdir='' @ (overlayBase @ ''/work'')"

definition kernel_mounts :: "string list" where
  "kernel_mounts = [''proc'', ''sys'', ''dev'', ''run'']"

definition moveRootMount :: "'h kernel \<Rightarrow> string \<Rightarrow> string \<Rightarrow> 'h \<Rightarrow> error option \<times> 'h" where
  "moveRootMount k src dst h =
     (case k (SysStat src) h of
        (AnsNotExist _, h) \<Rightarrow> (None, h)
      | (a, h) \<Rightarrow>
          (case ans_err a of
             Some err \<Rightarrow> (Some err, h)
           | None \<Rightarrow>
               if a \<noteq> AnsDir True then (Some (Errorf ''source is not a directory''), h)
               else case call k (SysMkdirAll dst) h of
                      (Some err, h) \<Rightarrow> (Some err, h)
                    | (None, h) \<Rightarrow> call k (SysMove src dst) h))"

fun make_dirs :: "'h kernel \<Rightarrow> string list \<Rightarrow> 'h \<Rightarrow> error option \<times> 'h" where
  "make_dirs k [] h = (None, h)"
| "make_dirs k (path # paths) h =
     (case call k (SysMkdirAll path) h of
        (Some err, h) \<Rightarrow> (Some (Wrapf (''create overlay directory '' @ path @ '': '') err []), h)
      | (None, h) \<Rightarrow> make_dirs k paths h)"

fun move_mounts :: "'h kernel \<Rightarrow> string list \<Rightarrow> 'h \<Rightarrow> error option \<times> 'h" where
  "move_mounts k [] h = (None, h)"
| "move_mounts k (name # names) h =
     (case moveRootMount k (''/.oldroot/'' @ name) (''/'' @ name) h of
        (Some err, h) \<Rightarrow> (Some (Wrapf (''move '' @ name @ '' mount: '') err []), h)
      | (None, h) \<Rightarrow> move_mounts k names h)"

definition cleanupBeforePivot :: "'h kernel \<Rightarrow> bool \<Rightarrow> 'h \<Rightarrow> 'h" where
  "cleanupBeforePivot k mountedOverlay h =
     ignore k (SysUnmount overlayBase) (if mountedOverlay then ignore k (SysUnmount newRoot) h else h)"

definition setupEphemeralRootfs :: "'h kernel \<Rightarrow> 'h \<Rightarrow> error option \<times> 'h" where
  "setupEphemeralRootfs k h =
     (case call k (SysMkdirAll overlayBase) h of
        (Some err, h) \<Rightarrow> (Some (Wrapf ''create overlay base: '' err []), h)
      | (None, h) \<Rightarrow>
     (case call k (SysMount ''tmpfs'' overlayBase ''tmpfs'' overlaySize) h of
        (Some err, h) \<Rightarrow> (Some (Wrapf ''mount overlay tmpfs: '' err []), h)
      | (None, h) \<Rightarrow>
     (case make_dirs k overlay_dirs h of
        (Some err, h) \<Rightarrow> (Some err, cleanupBeforePivot k False h)
      | (None, h) \<Rightarrow>
     (case call k (SysMount ''overlay'' newRoot ''overlay'' overlay_options) h of
        (Some err, h) \<Rightarrow> (Some (Wrapf ''mount root overlay: '' err []), cleanupBeforePivot k False h)
      | (None, h) \<Rightarrow>
     (case call k (SysPivotRoot newRoot oldRoot) h of
        (Some err, h) \<Rightarrow> (Some (Wrapf ''pivot root to ephemeral overlay: '' err []), cleanupBeforePivot k True h)
      | (None, h) \<Rightarrow>
     (case call k (SysChdir ''/'') h of
        (Some err, h) \<Rightarrow> (Some (Wrapf ''chdir new root: '' err []), h)
      | (None, h) \<Rightarrow>
     (case move_mounts k kernel_mounts h of
        (Some err, h) \<Rightarrow> (Some err, h)
      | (None, h) \<Rightarrow>
     (case call k (SysUnmount ''/.oldroot'') h of
        (Some err, h) \<Rightarrow> (Some (Wrapf ''detach immutable root: '' err []), h)
      | (None, h) \<Rightarrow> (None, h)))))))))"

text \<open>A receiver that appends the data of every frame to the stream it belongs to.\<close>

definition collect :: "string \<times> string \<Rightarrow> exec_frame \<Rightarrow> error option \<times> string \<times> string" where
  "collect s f = (None, if frame_Stream f = ''stdout'' then (fst s @ frame_Data f, snd s) else (fst s, snd s @ frame_Data f))"

definition message_frames :: "guest_msg list \<Rightarrow> (error + exec_frame) list" where
  "message_frames = map (\<lambda>m. case m of MsgFrame f \<Rightarrow> Inr f | MsgResult _ \<Rightarrow> Inl (Errorf ''not a frame''))"

definition msg_result :: "guest_msg \<Rightarrow> exec_result option" where
  "msg_result m = (case m of MsgResult r \<Rightarrow> Some r | MsgFrame f \<Rightarrow> frame_Result f)"

text \<open>A request and a process, for the examples.\<close>

definition demo_request :: exec_request where
  "demo_request = \<lparr>req_Version = ProtocolVersion, req_ID = ''1'', Command = ''/bin/echo'', Args = [''hello''], Env = [],
     TimeoutMS = 1000, Stream = False\<rparr>"

definition demo_run :: "string \<Rightarrow> string list \<Rightarrow> string list \<Rightarrow> process" where
  "demo_run cmd args env = \<lparr>proc_stdout = args, proc_stderr = [], proc_timeout = False\<rparr>"

section \<open>Lemmas\<close>

declare chunks.simps [simp del]

lemma chunks_Nil [simp]: "chunks n [] = []" "chunks 0 s = []"
  by (simp_all add: chunks.simps)

lemma chunks_concat: "0 < n \<Longrightarrow> concat (chunks n s) = s"
proof (induction n s rule: chunks.induct)
  case (1 n s)
  then show ?case by (cases "s = []") (simp_all add: chunks.simps [of n s])
qed

lemma chunks_length: "piece \<in> set (chunks n s) \<Longrightarrow> length piece \<le> n"
proof (induction n s rule: chunks.induct)
  case (1 n s)
  then show ?case by (cases "s = [] \<or> n = 0") (auto simp: chunks.simps [of n s])
qed

lemma chunks_count: "0 < n \<Longrightarrow> length (chunks n s) = (length s + n - 1) div n"
proof (induction n s rule: chunks.induct)
  case (1 n s)
  show ?case
  proof (cases "s = []")
    case True
    then show ?thesis using 1(2) by simp
  next
    case False
    then have "length (chunks n s) = Suc ((length s - n + n - 1) div n)"
      using 1 by (simp add: chunks.simps [of n s])
    also have "\<dots> = (length s + n - 1) div n"
    proof (cases "n \<le> length s")
      case True
      then have "length s + n - 1 = n + (length s - n + n - 1)" using 1(2) by simp
      then show ?thesis using 1(2) by (simp only: div_add_self1)
    next
      case short: False
      then have "length s + n - 1 = n + (length s - 1)" "length s - 1 < n" using 1(2) False by (auto simp: Suc_le_eq)
      then show ?thesis using 1(2) short by (simp only: div_add_self1) simp
    qed
    finally show ?thesis .
  qed
qed

lemma chunks_ascii: "ascii s \<Longrightarrow> piece \<in> set (chunks n s) \<Longrightarrow> ascii piece"
proof (induction n s rule: chunks.induct)
  case (1 n s)
  have "ascii (take n s)" "ascii (drop n s)" using 1(2) ascii_simps(3) [of "take n s" "drop n s"] by simp_all
  then show ?case using 1 by (cases "s = [] \<or> n = 0") (auto simp: chunks.simps [of n s])
qed

lemma MaxStreamFrameBytes_pos [simp]: "0 < MaxStreamFrameBytes"
  by (simp add: MaxStreamFrameBytes_def)

lemma output_frames_length:
  "length (output_frames reqID name data) = (length data + MaxStreamFrameBytes - 1) div MaxStreamFrameBytes"
  by (simp add: output_frames_def chunks_count)

lemma ascii_streams [simp]: "json_string ''stdout'' = ''stdout''" "json_string ''stderr'' = ''stderr''"
  by (rule json_string_ascii, simp add: is_ascii_def)+

text \<open>The receiving loop consumes the frames of one output.\<close>

lemma stream_loop_output:
  assumes "ascii reqID" and "\<forall>p \<in> set ps. ascii p \<and> length p \<le> MaxStreamFrameBytes"
    and "name = ''stdout'' \<or> name = ''stderr''"
  shows "stream_loop collect reqID (map Inr (map wire_frame (map (\<lambda>piece. \<lparr>frame_Version = ProtocolVersion,
        frame_ID = reqID, frame_Stream = name, frame_Data = piece, frame_Result = None\<rparr>) ps)) @ rest) (out, err)
    = stream_loop collect reqID rest
        (if name = ''stdout'' then (out @ concat ps, err) else (out, err @ concat ps))"
  using assms(2)
proof (induction ps arbitrary: out err)
  case (Cons p ps)
  then show ?case using assms(1,3) by (auto simp: wire_frame_def json_string_ascii collect_def)
qed simp

lemma stream_loop_output_frames:
  assumes "ascii reqID" and "ascii data" and "name = ''stdout'' \<or> name = ''stderr''"
  shows "stream_loop collect reqID (map Inr (map wire_frame (output_frames reqID name data)) @ rest) (out, err)
    = stream_loop collect reqID rest (if name = ''stdout'' then (out @ data, err) else (out, err @ data))"
  using stream_loop_output [OF assms(1) _ assms(3), of "chunks MaxStreamFrameBytes data" rest out err]
    chunks_ascii [OF assms(2), of _ MaxStreamFrameBytes] chunks_length [of _ MaxStreamFrameBytes data]
  by (simp add: output_frames_def chunks_concat)

lemma stream_frames_received:
  assumes "ascii (res_ID r)" "ascii (Stdout r)" "ascii (Stderr r)" "ascii (res_Error r)"
    and "res_Version r = ProtocolVersion"
  shows "stream_loop collect (res_ID r) (map Inr (stream_frames r)) ([], [])
    = (Inr (r\<lparr>Stdout := [], Stderr := []\<rparr>), Stdout r, Stderr r)"
proof -
  have "wire_frame (final_frame r) = final_frame r"
    using assms by (simp add: wire_frame_def final_frame_def wire_result_def json_string_ascii)
  then show ?thesis
    using stream_loop_output_frames [OF assms(1,2), of "''stdout''" _ "[]" "[]"]
      stream_loop_output_frames [OF assms(1,3), of "''stderr''" _ "Stdout r" "[]"]
    by (simp add: stream_frames_def final_frame_def)
qed

lemma finish_result_simps [simp]:
  "res_ID (finish_result r proc w) = res_ID r"
  "res_Version (finish_result r proc w) = res_Version r"
  "Stdout (finish_result r proc w) = buffer_text (lb_collect MaxOutputBytes (proc_stdout proc))"
  "Stderr (finish_result r proc w) = buffer_text (lb_collect MaxOutputBytes (proc_stderr proc))"
  by (simp_all add: finish_result_def Let_def split: option.split answer.split)

lemma cleanup_note_simps [simp]:
  "res_ID (cleanup_note c r) = res_ID r" "res_Version (cleanup_note c r) = res_Version r"
  by (simp_all add: cleanup_note_def split: option.split)

lemma await_command_simps [simp]:
  "res_ID (fst (await_command k proc t path r h)) = res_ID r"
  "res_Version (fst (await_command k proc t path r h)) = res_Version r"
  "Stdout (fst (await_command k proc t path r h)) = buffer_text (lb_collect MaxOutputBytes (proc_stdout proc))"
  "Stderr (fst (await_command k proc t path r h)) = buffer_text (lb_collect MaxOutputBytes (proc_stderr proc))"
  by (simp_all add: await_command_def split: prod.split)

text \<open>The ways a request is executed.\<close>

lemma execute_cases:
  obtains (rejected) e where "req_Validate req \<noteq> None \<or> MaxConcurrentCommands \<le> slots"
      "execute k run environ slots req h = ((blank_result req)\<lparr>res_Error := e\<rparr>, h)"
    | (unconfined) e h1 h2 where "req_Validate req = None" "slots < MaxConcurrentCommands"
        "startWithResourceLimits k h1 = (Inl e, h2)"
        "execute k run environ slots req h = ((blank_result req)\<lparr>res_Error := Error e\<rparr>, h2)"
    | (ran) proc t path h1 h2 where "req_Validate req = None" "slots < MaxConcurrentCommands"
        "startWithResourceLimits k h1 = (Inr path, h2)"
        "execute k run environ slots req h = await_command k proc t path (blank_result req) h2"
proof (cases "req_Validate req = None \<and> slots < MaxConcurrentCommands")
  case True
  obtain a h1 where a: "k (SysReadFile ''/etc/shiyao-env'') h = (a, h1)" by fastforce
  obtain r h2 where s: "startWithResourceLimits k h1 = (r, h2)" by fastforce
  show ?thesis
  proof (cases r)
    case (Inl e)
    then show ?thesis using True a s by (intro unconfined [of h1 e h2]) (simp_all add: execute_def)
  next
    case (Inr path)
    then show ?thesis using True a s by (intro ran [of h1 path h2]) (simp_all add: execute_def Let_def)
  qed
next
  case False
  then show ?thesis
    by (cases "req_Validate req") (auto simp: execute_def intro: rejected)
qed

lemma blank_result_simps [simp]:
  "res_ID (blank_result req) = req_ID req" "res_Version (blank_result req) = ProtocolVersion"
  "Stdout (blank_result req) = []" "Stderr (blank_result req) = []" "ExitCode (blank_result req) = -1"
  by (simp_all add: blank_result_def)

lemma execute_header:
  "res_ID (fst (execute k run environ slots req h)) = req_ID req
   \<and> res_Version (fst (execute k run environ slots req h)) = ProtocolVersion"
  by (cases rule: execute_cases [of req slots k run environ h]) simp_all

lemma streamResult_stream:
  "Stdout r = [] \<Longrightarrow> Stderr r = [] \<Longrightarrow>
   streamResult budget r = (if budget = Some 0 then [] else [wire_frame (final_frame r)])"
  by (auto simp: streamResult_def stream_frames_def output_frames_def split: option.split)

lemma lb_Write_bound: "length (lb_buf b) \<le> lb_limit b \<Longrightarrow> length (lb_buf (lb_Write p b)) \<le> lb_limit b \<and> lb_limit (lb_Write p b) = lb_limit b"
  by (auto simp: lb_Write_def Let_def)

lemma lb_collect_bound: "length (lb_buf (lb_collect n cs)) \<le> n"
proof -
  have "length (lb_buf (fold lb_Write cs b)) \<le> lb_limit b" if "length (lb_buf b) \<le> lb_limit b" for b
    using that
  proof (induction cs arbitrary: b)
    case (Cons c cs)
    show ?case using Cons.IH [of "lb_Write c b"] lb_Write_bound [OF Cons.prems, of c] by simp
  qed simp
  from this [of "lb_new n"] show ?thesis by (simp add: lb_collect_def lb_new_def)
qed

lemma make_dirs_log:
  "make_dirs (log_kernel orc) ps log = (r, log') \<Longrightarrow>
   \<exists>new. log' = log @ new \<and> (\<forall>s \<in> set new. \<exists>a. s = SysMkdirAll a)"
  by (induction ps arbitrary: log) (fastforce simp: call_log split: option.splits)+

lemma moveRootMount_log:
  "moveRootMount (log_kernel orc) a b log = (r, log') \<Longrightarrow> \<exists>new. log' = log @ new"
  by (auto simp: moveRootMount_def log_kernel_app call_log split: answer.splits option.splits if_splits)

lemma move_mounts_log:
  "move_mounts (log_kernel orc) ns log = (r, log') \<Longrightarrow> \<exists>new. log' = log @ new"
proof (induction ns arbitrary: log)
  case (Cons n ns)
  obtain e log1 where m: "moveRootMount (log_kernel orc) (''/.oldroot/'' @ n) (''/'' @ n) log = (e, log1)" by fastforce
  obtain new where "log1 = log @ new" using moveRootMount_log [OF m] by blast
  then show ?case using Cons.prems Cons.IH [of log1] m by (cases e) auto
qed simp

lemma demo_request_ok: "request_ok (demo_request\<lparr>Stream := b\<rparr>)"
  by (simp add: request_ok_def demo_request_def MaxCommandLen_def MaxTimeoutMS_def MaxArgs_def MaxArgLen_def)

lemma demo_execute:
  "\<exists>result h'. execute (log_kernel demo_oracle) demo_run [] 0 (demo_request\<lparr>Stream := b\<rparr>) [] = (result, h')
     \<and> Stdout result = ''hello'' \<and> Stderr result = [] \<and> res_Error result = []"
proof -
  obtain log1 where s: "startWithResourceLimits (log_kernel demo_oracle) [SysReadFile ''/etc/shiyao-env'']
      = (Inr (guestCgroupRoot @ ''/exec-''), log1)" using demo_start by blast
  have o: "lb_collect MaxOutputBytes [''hello''] = \<lparr>lb_limit = MaxOutputBytes, lb_buf = ''hello'', lb_truncated = False\<rparr>"
    "lb_collect MaxOutputBytes [] = \<lparr>lb_limit = MaxOutputBytes, lb_buf = [], lb_truncated = False\<rparr>"
    by (simp_all add: lb_collect_def lb_new_def lb_Write_def MaxOutputBytes_def)
  have v: "req_Validate (demo_request\<lparr>Stream := b\<rparr>) = None" by (simp add: req_Validate_iff_ok demo_request_ok)
  have "Args demo_request = [''hello'']" by (simp add: demo_request_def)
  then show ?thesis
    using s log_kernel_app [of demo_oracle "SysReadFile ''/etc/shiyao-env''" "[]"]
    by (simp add: execute_def v MaxConcurrentCommands_def demo_run_def await_command_def log_kernel_app
        cleanup_cgroup_def demo_oracle_def cleanup_note_def finish_result_def o buffer_text_def blank_result_def)
qed

section \<open>Properties\<close>

lemma exec_stream_received:
  assumes "execute k run environ slots (req\<lparr>Stream := True\<rparr>) h = (result, h')"
    and "serve k run environ slots (Some HostCID) None (Inr (req\<lparr>Stream := True\<rparr>)) h = (msgs, h'')"
    and "request_ok (req\<lparr>Stream := True\<rparr>)" and "dial c = None" and "conn_write c = None" and "frames c = message_frames msgs"
    and "ascii (req_ID req)" and "ascii (Stdout result)" and "ascii (Stderr result)" and "ascii (res_Error result)"
  shows "ExecStream c req (Some collect) ([], []) = (Inr (result\<lparr>Stdout := [], Stderr := []\<rparr>), Stdout result, Stderr result)"
proof -
  have id: "res_ID result = req_ID req" "res_Version result = ProtocolVersion"
    using execute_header [of k run environ slots "req\<lparr>Stream := True\<rparr>" h] assms(1) by simp_all
  have "frames c = map Inr (stream_frames result)"
    using assms(1,2,6)
    by (auto simp: serve_def authorizedHost_def AuthorizeHostConnection_def streamResult_def message_frames_def comp_def)
  then show ?thesis
    using stream_frames_received [of result] assms(3-5,7-10) req_Validate_iff_ok [of "req\<lparr>Stream := True\<rparr>"] id
    by (simp add: ExecStream_def)
qed

text \<open>
  Streaming is lossless on ASCII text. When the host of the guest streams the execution of a
  valid request over a connection that carries every frame, \<open>ExecStream\<close> delivers exactly the standard
  output and the standard error of the command to its receiver, however long they are, and returns the
  result of the guest with these two fields left out.
\<close>

theorem stream_roundtrip:
  assumes "execute k run environ slots (req\<lparr>Stream := True\<rparr>) h = (result, h')"
    and "serve k run environ slots (Some HostCID) None (Inr (req\<lparr>Stream := True\<rparr>)) h = (msgs, h'')"
    and "request_ok (req\<lparr>Stream := True\<rparr>)" and "dial c = None" and "conn_write c = None" and "frames c = message_frames msgs"
    and "ascii (req_ID req)" and "ascii (Stdout result)" and "ascii (Stderr result)" and "ascii (res_Error result)"
  shows "ExecStream c req (Some collect) ([], []) = (Inr (result\<lparr>Stdout := [], Stderr := []\<rparr>), Stdout result, Stderr result)"
  by (rule exec_stream_received [OF assms])

theorem stream_roundtrip_witness:
  "\<exists>msgs h' r. serve (log_kernel demo_oracle) demo_run [] 0 (Some HostCID) None (Inr (demo_request\<lparr>Stream := True\<rparr>)) [] = (msgs, h')
     \<and> ExecStream \<lparr>dial = None, conn_write = None, replies = [], frames = message_frames msgs\<rparr> demo_request (Some collect) ([], [])
         = (Inr r, ''hello'', [])"
proof -
  obtain result h' where e: "execute (log_kernel demo_oracle) demo_run [] 0 (demo_request\<lparr>Stream := True\<rparr>) [] = (result, h')"
    and r: "Stdout result = ''hello''" "Stderr result = []" "res_Error result = []"
    using demo_execute by blast
  obtain msgs h'' where s: "serve (log_kernel demo_oracle) demo_run [] 0 (Some HostCID) None (Inr (demo_request\<lparr>Stream := True\<rparr>)) [] = (msgs, h'')"
    by fastforce
  have "request_ok (demo_request\<lparr>Stream := True\<rparr>)" by (rule demo_request_ok)
  then show ?thesis
    using stream_roundtrip [OF e s, of "\<lparr>dial = None, conn_write = None, replies = [], frames = message_frames msgs\<rparr>"] s r
    by (simp add: is_ascii_def demo_request_def)
qed

text \<open>
  C25. The guest runs commands only for the host. A peer that is not the host, a message that does
  not decode, a request that is not valid and a request beyond the number of concurrent commands are
  answered without a single system call, and the answer carries the exit code -1 and no output.
\<close>

theorem serve_guard:
  assumes "remote \<noteq> Some HostCID \<or> (\<exists>e. request = Inl e)
    \<or> (\<exists>req. request = Inr req \<and> (\<not> request_ok req \<or> MaxConcurrentCommands \<le> slots))"
  shows "snd (serve k run environ slots remote budget request h) = h
    \<and> (\<forall>m \<in> set (fst (serve k run environ slots remote budget request h)).
         \<exists>r. msg_result m = Some r \<and> ExitCode r = -1 \<and> Stdout r = [] \<and> Stderr r = [])"
proof (cases "remote = Some HostCID \<and> (\<exists>req. request = Inr req)")
  case True
  then obtain req where req: "request = Inr req" "remote = Some HostCID" by blast
  then have "\<not> request_ok req \<or> MaxConcurrentCommands \<le> slots" using assms by auto
  then obtain e where "execute k run environ slots req h = ((blank_result req)\<lparr>res_Error := e\<rparr>, h)"
    by (cases rule: execute_cases [of req slots k run environ h]) (auto simp: req_Validate_iff_ok)
  then show ?thesis
    using req by (auto simp: serve_def Let_def authorizedHost_def AuthorizeHostConnection_def wire_result_def
        msg_result_def streamResult_stream wire_frame_def final_frame_def json_string_ascii dest: in_set_takeD split: if_splits)
next
  case False
  then have "\<not> authorizedHost remote \<or> (\<exists>e. request = Inl e)"
    by (cases request) (auto simp: authorizedHost_def AuthorizeHostConnection_def split: option.splits)
  then show ?thesis
    by (cases "authorizedHost remote") (auto simp: serve_def Let_def msg_result_def error_result_def wire_result_def
        json_string_ascii split: if_splits)
qed

theorem serve_guard_witness:
  "serve (log_kernel demo_oracle) demo_run [] 0 (Some 3) None (Inr demo_request) [] \<noteq> ([], [])
   \<and> snd (serve (log_kernel demo_oracle) demo_run [] 0 (Some 3) None (Inr demo_request) []) = []"
  using serve_guard [of "Some 3" "Inr demo_request" 0 "log_kernel demo_oracle" demo_run "[]" None "[]"]
  by (simp add: HostCID_def serve_def Let_def authorizedHost_def AuthorizeHostConnection_def)

text \<open>
  Output is bounded. Whatever a command writes, each output in the result of \<open>execute\<close> has at
  most \<open>MaxOutputBytes\<close> bytes and the note on truncation, and every frame of a streamed result that is
  sent as ASCII text has at most \<open>MaxStreamFrameBytes\<close> bytes of data.
\<close>

theorem execute_output_bound:
  "length (Stdout (fst (execute k run environ slots req h))) \<le> MaxOutputBytes + length truncation_note
   \<and> length (Stderr (fst (execute k run environ slots req h))) \<le> MaxOutputBytes + length truncation_note"
  by (cases rule: execute_cases [of req slots k run environ h])
     (simp_all add: buffer_text_def le_SucI lb_collect_bound trans_le_add1)

text \<open>
  C28. The exchange ends, however much a command writes. A served connection carries at most 323 messages, the frames
  of two truncated outputs and the result; a stream that the peer reads to its end has exactly one frame per
  started \<open>MaxStreamFrameBytes\<close> bytes of each output, and the frame with the result.
\<close>

theorem exchange_ends:
  "length (fst (serve k run environ slots remote budget request h)) \<le> 323
   \<and> length (streamResult None r)
       = (length (Stdout r) + MaxStreamFrameBytes - 1) div MaxStreamFrameBytes
         + (length (Stderr r) + MaxStreamFrameBytes - 1) div MaxStreamFrameBytes + 1"
proof (rule conjI)
  show "length (fst (serve k run environ slots remote budget request h)) \<le> 323"
  proof (cases request)
    case (Inr req)
    obtain r h' where e: "execute k run environ slots req h = (r, h')" by (rule prod.exhaust)
    with execute_output_bound [of k run environ slots req h] have "length (stream_frames r) \<le> 323"
      by (simp add: stream_frames_def output_frames_length MaxOutputBytes_def MaxStreamFrameBytes_def truncation_note_def) linarith
    with Inr e show ?thesis by (auto simp: serve_def Let_def streamResult_def split: option.splits)
  qed (auto simp: serve_def)
qed (simp add: streamResult_def stream_frames_def output_frames_length)

text \<open>
  C27. A switch of the root that fails is undone. Whatever the kernel answers, a failure of
  \<open>setupEphemeralRootfs\<close> before the pivot ends with the removal of every mount it made: if the overlay was
  mounted, the last two calls unmount it and the file system below it; if only the latter was mounted,
  the last call unmounts it.
\<close>

theorem rootfs_failure_cleanup:
  assumes "setupEphemeralRootfs (log_kernel orc) log = (Some e, log')"
  shows "\<exists>new. log' = log @ new
    \<and> (SysChdir ''/'' \<in> set new
       \<or> (\<exists>pre. new = pre @ [SysPivotRoot newRoot oldRoot, SysUnmount newRoot, SysUnmount overlayBase])
       \<or> (SysPivotRoot newRoot oldRoot \<notin> set new \<and> last new = SysUnmount overlayBase)
       \<or> (\<exists>pre s. new = pre @ [s] \<and> set pre \<subseteq> {SysMkdirAll overlayBase}
            \<and> (s = SysMkdirAll overlayBase \<or> s = SysMount ''tmpfs'' overlayBase ''tmpfs'' overlaySize)))"
proof -
  let ?k = "log_kernel orc"
  let ?m = "SysMkdirAll overlayBase" and ?t = "SysMount ''tmpfs'' overlayBase ''tmpfs'' overlaySize"
    and ?v = "SysMount ''overlay'' newRoot ''overlay'' overlay_options"
    and ?p = "SysPivotRoot newRoot oldRoot" and ?c = "SysChdir ''/''"
  obtain e3 log3 where d: "make_dirs ?k overlay_dirs (log @ [?m, ?t]) = (e3, log3)"
    by fastforce
  obtain ds where ds: "log3 = log @ [?m, ?t] @ ds" "\<forall>s \<in> set ds. \<exists>a. s = SysMkdirAll a"
    using make_dirs_log [OF d] by auto
  obtain e7 log7 where mv: "move_mounts ?k kernel_mounts (log3 @ [?v, ?p, ?c]) = (e7, log7)"
    by fastforce
  obtain ms where ms: "log7 = log3 @ [?v, ?p, ?c] @ ms" using move_mounts_log [OF mv] by auto
  have "log' = log @ [?m] \<or> log' = log @ [?m, ?t] \<or> log' = log3 @ [SysUnmount overlayBase]
    \<or> log' = log3 @ [?v, SysUnmount overlayBase] \<or> log' = log3 @ [?v, ?p, SysUnmount newRoot, SysUnmount overlayBase]
    \<or> (\<exists>rest. log' = log3 @ [?v, ?p, ?c] @ rest)"
    using assms d mv ms unfolding setupEphemeralRootfs_def
    by (cases e3; cases e7) (auto simp: call_log ignore_log cleanupBeforePivot_def split: option.splits)
  then show ?thesis
  proof (elim disjE exE)
    assume "log' = log @ [?m]"
    then show ?thesis by (intro exI [of _ "[?m]"]) auto
  next
    assume "log' = log @ [?m, ?t]"
    then show ?thesis by (intro exI [of _ "[?m, ?t]"]) auto
  next
    assume "log' = log3 @ [SysUnmount overlayBase]"
    then show ?thesis using ds by (intro exI [of _ "[?m, ?t] @ ds @ [SysUnmount overlayBase]"]) auto
  next
    assume "log' = log3 @ [?v, SysUnmount overlayBase]"
    then show ?thesis using ds by (intro exI [of _ "[?m, ?t] @ ds @ [?v, SysUnmount overlayBase]"]) auto
  next
    assume "log' = log3 @ [?v, ?p, SysUnmount newRoot, SysUnmount overlayBase]"
    then show ?thesis using ds by (intro exI [of _ "[?m, ?t] @ ds @ [?v, ?p, SysUnmount newRoot, SysUnmount overlayBase]"]) auto
  next
    fix rest
    assume "log' = log3 @ [?v, ?p, ?c] @ rest"
    then show ?thesis using ds by (intro exI [of _ "[?m, ?t] @ ds @ [?v, ?p, ?c] @ rest"]) auto
  qed
qed

theorem rootfs_failure_cleanup_witness:
  "\<exists>e log'. setupEphemeralRootfs (log_kernel (\<lambda>_ s. case s of SysPivotRoot _ _ \<Rightarrow> AnsErr (Errorf ''EINVAL'') | _ \<Rightarrow> AnsOk)) [] = (Some e, log')
     \<and> (\<exists>pre. log' = pre @ [SysPivotRoot newRoot oldRoot, SysUnmount newRoot, SysUnmount overlayBase])"
proof -
  let ?orc = "\<lambda>(_ :: sys list) s. case s of SysPivotRoot _ _ \<Rightarrow> AnsErr (Errorf ''EINVAL'') | _ \<Rightarrow> AnsOk"
  obtain e log' where r: "setupEphemeralRootfs (log_kernel ?orc) [] = (Some e, log')"
      "SysPivotRoot newRoot oldRoot \<in> set log'" "SysChdir ''/'' \<notin> set log'"
    by (simp add: setupEphemeralRootfs_def call_log ignore_log overlay_dirs_def cleanupBeforePivot_def)
  from rootfs_failure_cleanup [OF r(1)] r show ?thesis by auto
qed

text \<open>
  Valid UTF-8 output can break a stream. When a character of two bytes crosses the boundary of a
  frame, the frame holds its first byte alone; the encoding replaces it by the three bytes of U+FFFD,
  so the frame is longer than \<open>MaxStreamFrameBytes\<close> and the host gives up with an error, although the
  command succeeded.
\<close>

theorem stream_split_rune:
  assumes "ascii a" and "length a = MaxStreamFrameBytes - 1" and "ascii (res_ID r)"
    and "res_Version r = ProtocolVersion" and "Stdout r = a @ [CHR 0xC3, CHR 0xA9]"
  shows "stream_loop collect (res_ID r) (map Inr (stream_frames r)) ([], [])
    = (Inl (Errorf ''invalid execution output frame''), [], [])"
proof -
  let ?p = "a @ [CHR 0xC3]"
  have len: "length ?p = MaxStreamFrameBytes" using assms(2) by (simp add: MaxStreamFrameBytes_def)
  then have "chunks MaxStreamFrameBytes (Stdout r) = ?p # chunks MaxStreamFrameBytes [CHR 0xA9]"
    using assms(5) chunks.simps [of MaxStreamFrameBytes "Stdout r"] by (simp add: take_Cons' drop_Cons')
  moreover have "json_string ?p = a @ [CHR 0xEF, CHR 0xBF, CHR 0xBD]"
    using json_string_append [OF assms(1)] by (simp add: json_string_def decode_rune_def decode2_def RuneError_def)
  ultimately show ?thesis
    using assms len
    by (simp add: stream_frames_def output_frames_def wire_frame_def json_string_ascii)
qed

theorem stream_split_rune_witness:
  "stream_loop collect ''1'' (map Inr (stream_frames \<lparr>res_Version = ProtocolVersion, res_ID = ''1'', ExitCode = 0,
       Stdout = replicate (MaxStreamFrameBytes - 1) (CHR ''a'') @ [CHR 0xC3, CHR 0xA9], Stderr = [], res_Error = []\<rparr>)) ([], [])
   = (Inl (Errorf ''invalid execution output frame''), [], [])"
  using stream_split_rune [of "replicate (MaxStreamFrameBytes - 1) (CHR ''a'')"
      "\<lparr>res_Version = ProtocolVersion, res_ID = ''1'', ExitCode = 0,
       Stdout = replicate (MaxStreamFrameBytes - 1) (CHR ''a'') @ [CHR 0xC3, CHR 0xA9], Stderr = [], res_Error = []\<rparr>"]
  by (simp add: ascii_def list_all_iff is_ascii_def)

end
