(* ===== verification/Exec_Bridge.thy ===== *)
theory Exec_Bridge
  imports Guest_Exec Sandbox_Service
begin

text \<open>
  \<open>internal/core/websocket\<close> and the handler \<open>ExecStreamWS\<close> of \<open>internal/platform/sandbox\<close>: a client runs a command in its
  sandbox over a WebSocket. The library gorilla/websocket is represented by what the first read gives and by a
  function that decides which writes fail; the connection records what was sent, the deadlines and whether it is
  closed. Durations are nanoseconds in 64-bit arithmetic.
\<close>

section \<open>Messages and connections\<close>

record client_message =
  cm_Type :: string
  cm_Command :: string
  cm_Args :: "string list"
  cm_Env :: "(string \<times> string) list"
  cm_TimeoutMS :: int

record ws_result =
  wr_ExitCode :: int
  wr_Stdout :: string
  wr_Stderr :: string
  wr_Error :: string

record server_message =
  sm_Type :: string
  sm_Data :: string
  sm_Result :: "ws_result option"
  sm_Error :: string

definition TypeExec :: string where "TypeExec = ''exec''"
definition TypeStdout :: string where "TypeStdout = ''stdout''"
definition TypeStderr :: string where "TypeStderr = ''stderr''"
definition TypeResult :: string where "TypeResult = ''result''"
definition TypeError :: string where "TypeError = ''error''"

record ws_conn =
  ws_sent :: "server_message list"
  ws_deadline :: "int option"
  ws_closed :: bool

text \<open>A duration is a 64-bit integer: a product or a sum wraps around.\<close>

definition duration :: "int \<Rightarrow> int" where "duration n = sint (word_of_int n :: 64 word)"

definition DefaultConnectionTimeout :: int where "DefaultConnectionTimeout = 5 * 60 * 1000000000"

definition SetDeadlines :: "int \<Rightarrow> ws_conn \<Rightarrow> ws_conn" where
  "SetDeadlines clock c = c\<lparr>ws_deadline := Some (clock + DefaultConnectionTimeout)\<rparr>"

definition SetExecutionDeadline :: "int \<Rightarrow> int \<Rightarrow> ws_conn \<Rightarrow> ws_conn" where
  "SetExecutionDeadline clock timeoutMS c =
     (let buffer = 10 * 1000000000;
          timeout = duration (timeoutMS * 1000000);
          timeout = (if timeout \<le> 0 then DefaultConnectionTimeout else timeout)
      in c\<lparr>ws_deadline := Some (clock + duration (timeout + buffer))\<rparr>)"

definition WriteJSON :: "(server_message list \<Rightarrow> server_message \<Rightarrow> error option) \<Rightarrow> server_message \<Rightarrow> ws_conn \<Rightarrow> error option \<times> ws_conn" where
  "WriteJSON fails msg c =
     (case fails (ws_sent c) msg of
        Some err \<Rightarrow> (Some err, c)
      | None \<Rightarrow> (None, c\<lparr>ws_sent := ws_sent c @ [msg]\<rparr>))"

section \<open>The bridge\<close>

definition error_message :: "string \<Rightarrow> server_message" where
  "error_message e = \<lparr>sm_Type = TypeError, sm_Data = [], sm_Result = None, sm_Error = e\<rparr>"

definition result_message :: "exec_result \<Rightarrow> server_message" where
  "result_message r =
     \<lparr>sm_Type = TypeResult, sm_Data = [],
      sm_Result = Some \<lparr>wr_ExitCode = ExitCode r, wr_Stdout = Stdout r, wr_Stderr = Stderr r, wr_Error = res_Error r\<rparr>,
      sm_Error = []\<rparr>"

definition exec_request_of :: "string \<Rightarrow> client_message \<Rightarrow> exec_request" where
  "exec_request_of sandboxID msg =
     \<lparr>req_Version = ProtocolVersion, req_ID = sandboxID, Command = cm_Command msg, Args = cm_Args msg, Env = cm_Env msg,
      TimeoutMS = cm_TimeoutMS msg, Stream = True\<rparr>"

text \<open>The callback for a frame.\<close>

definition bridge_frame ::
  "(server_message list \<Rightarrow> server_message \<Rightarrow> error option) \<Rightarrow> ws_conn \<Rightarrow> exec_frame \<Rightarrow> error option \<times> ws_conn" where
  "bridge_frame fails c frame =
     (if frame_Stream frame = TypeStdout
      then WriteJSON fails \<lparr>sm_Type = TypeStdout, sm_Data = frame_Data frame, sm_Result = None, sm_Error = []\<rparr> c
      else if frame_Stream frame = TypeStderr
      then WriteJSON fails \<lparr>sm_Type = TypeStderr, sm_Data = frame_Data frame, sm_Result = None, sm_Error = []\<rparr> c
      else (None, c))"

definition BridgeExecStream ::
  "int \<Rightarrow> (server_message list \<Rightarrow> server_message \<Rightarrow> error option) \<Rightarrow> client_message result \<Rightarrow> string \<Rightarrow> exec_conn \<Rightarrow> ws_conn \<Rightarrow> ws_conn" where
  "BridgeExecStream clock fails first sandboxID guest c =
     (let c' = (case first of
                  Inl err \<Rightarrow> c
                | Inr clientMsg \<Rightarrow>
                    if cm_Type clientMsg \<noteq> TypeExec
                    then snd (WriteJSON fails (error_message (''first message must be of type '' @ [CHR 0x27] @ ''exec'' @ [CHR 0x27])) c)
                    else let c = SetExecutionDeadline clock (cm_TimeoutMS clientMsg) c
                         in (case ExecStream guest (exec_request_of sandboxID clientMsg) (Some (bridge_frame fails)) c of
                               (Inl err, c) \<Rightarrow> snd (WriteJSON fails (error_message (Error err)) c)
                             | (Inr result, c) \<Rightarrow> snd (WriteJSON fails (result_message result) c)))
      in c'\<lparr>ws_closed := True\<rparr>)"

section \<open>The handler\<close>

definition socketPathForSandbox :: "string \<Rightarrow> string \<Rightarrow> string" where
  "socketPathForSandbox tmp sandboxID = filepath_Join [tmp, ''firecracker-'' @ sandboxID @ ''.sock'']"

text \<open>
  \<open>upgrade\<close> is the new connection, or nothing if the upgrade fails, and \<open>guests path\<close> the guest behind a socket.
  The answer is a response of the API or the connection in its final state.
\<close>

definition handler_ExecStreamWS ::
  "call_env \<Rightarrow> (string \<Rightarrow> uuid option) \<Rightarrow> string \<Rightarrow> ws_conn option \<Rightarrow> int \<Rightarrow> (server_message list \<Rightarrow> server_message \<Rightarrow> error option)
    \<Rightarrow> client_message result \<Rightarrow> (string \<Rightarrow> exec_conn) \<Rightarrow> principal option \<Rightarrow> string \<Rightarrow> sandbox list
    \<Rightarrow> unit response + ws_conn option" where
  "handler_ExecStreamWS env parse tmp upgrade clock fails first guests ctx i t =
     (case UserIDFromContext ctx of
        None \<Rightarrow> Inl not_signed_in
      | Some userID \<Rightarrow>
          (case parse i of
             None \<Rightarrow> Inl (http_Error (NewBadRequest ''invalid sandbox ID''))
           | Some sandboxID \<Rightarrow>
               (case sandbox_Get env userID sandboxID t of
                  Inl err \<Rightarrow> Inl (http_Error err)
                | Inr s \<Rightarrow>
                    if sb_Status s \<noteq> ''running'' then Inl (http_Error (NewConflict ''sandbox is not running''))
                    else (case upgrade of
                            None \<Rightarrow> Inr None
                          | Some c \<Rightarrow>
                              Inr (Some (BridgeExecStream clock fails first (sb_VmID s)
                                (guests (socketPathForSandbox tmp (sb_VmID s))) (SetDeadlines clock c)))))))"

text \<open>What the client has received of one output.\<close>

definition received :: "string \<Rightarrow> server_message list \<Rightarrow> string" where
  "received name msgs = concat (map sm_Data (filter (\<lambda>m. sm_Type m = name) msgs))"

definition demo_message :: client_message where
  "demo_message = \<lparr>cm_Type = ''exec'', cm_Command = ''/bin/echo'', cm_Args = [''hello''], cm_Env = [], cm_TimeoutMS = 1000\<rparr>"

section \<open>Correctness\<close>

text \<open>While every write succeeds, the bridge sends on what the plain receiver collects.\<close>

lemma bridge_frame_ok:
  "bridge_frame (\<lambda>_ _. None) c f =
     (None, if frame_Stream f = TypeStdout \<or> frame_Stream f = TypeStderr
        then c\<lparr>ws_sent := ws_sent c @ [\<lparr>sm_Type = frame_Stream f, sm_Data = frame_Data f, sm_Result = None, sm_Error = []\<rparr>]\<rparr> else c)"
  by (simp add: bridge_frame_def WriteJSON_def)

lemma received_append: "received name (xs @ ys) = received name xs @ received name ys"
  by (simp add: received_def)

lemma bridge_loop:
  assumes "stream_loop collect i fs (out, err) = (r, out', err')" "received TypeStdout (ws_sent c) = out" "received TypeStderr (ws_sent c) = err"
  shows "\<exists>sent. stream_loop (bridge_frame (\<lambda>_ _. None)) i fs c = (r, c\<lparr>ws_sent := sent\<rparr>)
    \<and> received TypeStdout sent = out' \<and> received TypeStderr sent = err' \<and> (\<exists>more. sent = ws_sent c @ more)"
  using assms
proof (induction fs arbitrary: out err c)
  case Nil
  then show ?case by (intro exI [of _ "ws_sent c"]) simp
next
  case (Cons x fs)
  show ?case
  proof (cases x)
    case (Inl e)
    with Cons.prems show ?thesis by (intro exI [of _ "ws_sent c"]) simp
  next
    case (Inr f)
    show ?thesis
    proof (cases "frame_Version f \<noteq> ProtocolVersion \<or> frame_ID f \<noteq> i \<or> frame_Result f \<noteq> None
        \<or> frame_Stream f \<noteq> ''stdout'' \<and> frame_Stream f \<noteq> ''stderr'' \<or> MaxStreamFrameBytes < length (frame_Data f)")
      case True
      with Cons.prems Inr show ?thesis
        by (intro exI [of _ "ws_sent c"]) (auto split: option.splits if_splits)
    next
      case False
      let ?m = "\<lparr>sm_Type = frame_Stream f, sm_Data = frame_Data f, sm_Result = None, sm_Error = []\<rparr>"
      let ?c = "c\<lparr>ws_sent := ws_sent c @ [?m]\<rparr>"
      have st: "frame_Stream f = ''stdout'' \<or> frame_Stream f = ''stderr''" using False by blast
      obtain s2 where s2: "collect (out, err) f = (None, s2)" by (simp add: collect_def)
      have "stream_loop collect i fs (snd (collect (out, err) f)) = (r, out', err')"
        using Cons.prems(1) Inr False st s2 by auto
      moreover have "received TypeStdout (ws_sent ?c) = fst (snd (collect (out, err) f))"
        "received TypeStderr (ws_sent ?c) = snd (snd (collect (out, err) f))"
        using Cons.prems(2,3) st by (auto simp: received_def collect_def TypeStdout_def TypeStderr_def)
      ultimately obtain sent where "stream_loop (bridge_frame (\<lambda>_ _. None)) i fs ?c = (r, ?c\<lparr>ws_sent := sent\<rparr>)"
        "received TypeStdout sent = out'" "received TypeStderr sent = err'" "\<exists>more. sent = ws_sent ?c @ more"
        using Cons.IH [of "fst (snd (collect (out, err) f))" "snd (snd (collect (out, err) f))" ?c] by auto
      moreover have "bridge_frame (\<lambda>_ _. None) c f = (None, ?c)"
        using st by (auto simp: bridge_frame_ok TypeStdout_def TypeStderr_def)
      ultimately show ?thesis
        using Inr False st by (intro exI [of _ sent]) auto
    qed
  qed
qed

section \<open>Properties\<close>



text \<open>
  C421. The connection outlives the command. For every timeout up to the maximum, the arithmetic of the deadline does not wrap
  around, and the deadline is ten seconds after the end of the timeout, or after five minutes if none is set.
\<close>

theorem execution_deadline:
  assumes "0 \<le> timeoutMS" and "timeoutMS \<le> MaxTimeoutMS"
  shows "ws_deadline (SetExecutionDeadline clock timeoutMS c)
    = Some (clock + (if timeoutMS = 0 then 300000000000 else timeoutMS * 1000000) + 10000000000)"
proof -
  have d: "duration n = n" if "0 \<le> n" "n < 2 ^ 63" for n
    using that by (simp add: duration_def signed_of_int signed_take_bit_int_eq_self)
  have "duration (timeoutMS * 1000000) = timeoutMS * 1000000" using assms by (intro d) (simp_all add: MaxTimeoutMS_def)
  moreover have "duration (timeoutMS * 1000000 + 10 * 1000000000) = timeoutMS * 1000000 + 10 * 1000000000"
    using assms by (intro d) (simp_all add: MaxTimeoutMS_def)
  moreover have "duration (DefaultConnectionTimeout + 10 * 1000000000) = DefaultConnectionTimeout + 10 * 1000000000"
    by (intro d) (simp_all add: DefaultConnectionTimeout_def)
  ultimately show ?thesis using assms by (simp add: SetExecutionDeadline_def Let_def DefaultConnectionTimeout_def)
qed

theorem execution_deadline_witness:
  "ws_deadline (SetExecutionDeadline 0 1000 \<lparr>ws_sent = [], ws_deadline = None, ws_closed = False\<rparr>) = Some 11000000000"
  using execution_deadline [of 1000 0 "\<lparr>ws_sent = [], ws_deadline = None, ws_closed = False\<rparr>"] by (simp add: MaxTimeoutMS_def)

end
