(* ===== verification/Proxy_Policy.thy ===== *)
theory Proxy_Policy
  imports Net_Addr Go_Errors
begin

text \<open>
  \<open>internal/core/proxy\<close>: the addresses that the egress proxy may connect to, and the transport that dials them.
  The predicates of \<open>net/netip\<close> are on the bytes of an address. The resolver, the dialer and the text of an
  address are arguments; the dialer acts on the outside world \<open>'w\<close>.
\<close>

section \<open>Predicates of netip\<close>

fun IsUnspecified :: "netip \<Rightarrow> bool" where
  "IsUnspecified (V4 b) = (b = [0, 0, 0, 0])"
| "IsUnspecified (V6 b z) = (b = replicate 16 0 \<and> z = [])"

fun IsLoopback :: "netip \<Rightarrow> bool" where
  "IsLoopback (V4 b) = (b ! 0 = 127)"
| "IsLoopback (V6 b z) = (b = replicate 15 0 @ [1])"

fun IsPrivate :: "netip \<Rightarrow> bool" where
  "IsPrivate (V4 b) = (b ! 0 = 10 \<or> b ! 0 = 172 \<and> b ! 1 AND 0xF0 = 16 \<or> b ! 0 = 192 \<and> b ! 1 = 168)"
| "IsPrivate (V6 b z) = (b ! 0 AND 0xFE = 0xFC)"

fun IsLinkLocalUnicast :: "netip \<Rightarrow> bool" where
  "IsLinkLocalUnicast (V4 b) = (b ! 0 = 169 \<and> b ! 1 = 254)"
| "IsLinkLocalUnicast (V6 b z) = (b ! 0 = 0xFE \<and> b ! 1 AND 0xC0 = 0x80)"

fun IsMulticast :: "netip \<Rightarrow> bool" where
  "IsMulticast (V4 b) = (b ! 0 AND 0xF0 = 0xE0)"
| "IsMulticast (V6 b z) = (b ! 0 = 0xFF)"

fun IsGlobalUnicast :: "netip \<Rightarrow> bool" where
  "IsGlobalUnicast (V4 b) = (b \<noteq> [0, 0, 0, 0] \<and> b \<noteq> [255, 255, 255, 255]
     \<and> \<not> IsLoopback (V4 b) \<and> \<not> IsMulticast (V4 b) \<and> \<not> IsLinkLocalUnicast (V4 b))"
| "IsGlobalUnicast (V6 b z) = (\<not> IsUnspecified (V6 b z) \<and> \<not> IsLoopback (V6 b z) \<and> \<not> IsMulticast (V6 b z)
     \<and> \<not> IsLinkLocalUnicast (V6 b z))"

section \<open>Policy\<close>

text \<open>The carrier-grade NAT range 100.64.0.0/10.\<close>

fun carrier_nat :: "netip \<Rightarrow> bool" where
  "carrier_nat (V4 n) = (n ! 0 = 100 \<and> 64 \<le> n ! 1 \<and> n ! 1 \<le> 127)"
| "carrier_nat (V6 n z) = False"

definition isAllowedPublicIP :: "netip option \<Rightarrow> bool" where
  "isAllowedPublicIP addr =
     (case addr of
        None \<Rightarrow> False
      | Some a \<Rightarrow>
          if \<not> IsGlobalUnicast a \<or> IsPrivate a \<or> IsLoopback a \<or> IsLinkLocalUnicast a \<or> IsMulticast a \<or> IsUnspecified a
          then False else \<not> carrier_nat a)"

text \<open>
  \<open>netip.ParseAddr(ip.String())\<close>: a \<open>net.IP\<close> prints as an IPv4 address if it is one, and only four or sixteen bytes
  print as an address.
\<close>

definition addr_of_ip :: "byte list \<Rightarrow> netip option" where
  "addr_of_ip ip = (case To4 ip of Some b \<Rightarrow> Some (V4 b) | None \<Rightarrow> if length ip = 16 then Some (V6 ip []) else None)"

text \<open>Simple case folding onto ASCII letters: the long s and the Kelvin sign fold to \<open>s\<close> and \<open>k\<close>.\<close>

definition fold_rune :: "nat \<Rightarrow> nat" where
  "fold_rune r = (if r = 0x17F then 115 else if r = 0x212A then 107 else if 65 \<le> r \<and> r \<le> 90 then r + 32 else r)"

definition fold_equal :: "string \<Rightarrow> string \<Rightarrow> bool" where
  "fold_equal s t \<longleftrightarrow> map (fold_rune \<circ> fst) (runes s) = map (fold_rune \<circ> fst) (runes t)"

definition ValidateProxyTarget :: "(string \<Rightarrow> string) \<Rightarrow> string \<Rightarrow> int \<Rightarrow> error option" where
  "ValidateProxyTarget ul host port =
     (if host = [] \<or> port < 1 \<or> 65535 < port then Some (Errorf ''invalid proxy target'')
      else if fold_equal host ''localhost'' \<or> HasSuffix (ToLower ul host) ''.localhost''
      then Some (Errorf ''localhost target is blocked'')
      else (case ParseIP host of
              None \<Rightarrow> None
            | Some ip \<Rightarrow>
                if \<not> isAllowedPublicIP (addr_of_ip ip)
                then Some (Errorf (''private or non-global target '' @ host @ '' is blocked'')) else None))"

section \<open>Transport\<close>

definition JoinHostPort :: "string \<Rightarrow> string \<Rightarrow> string" where
  "JoinHostPort host port =
     (if CHR '':'' \<in> set host then ''['' @ host @ '']:'' @ port else host @ '':'' @ port)"

definition TargetAddress :: "string \<Rightarrow> int \<Rightarrow> string" where
  "TargetAddress host port = JoinHostPort host (Itoa port)"

text \<open>The loop over the answers of the resolver; \<open>dial\<close> connects to an address.\<close>

fun dial_loop ::
  "(netip \<Rightarrow> string) \<Rightarrow> (string \<Rightarrow> 'w \<Rightarrow> error option \<times> 'w) \<Rightarrow> string \<Rightarrow> byte list list \<Rightarrow> 'w \<Rightarrow> netip option \<times> 'w" where
  "dial_loop text dial port [] w = (None, w)"
| "dial_loop text dial port (ip # ips) w =
     (case addr_of_ip ip of
        None \<Rightarrow> dial_loop text dial port ips w
      | Some addr \<Rightarrow>
          if \<not> isAllowedPublicIP (Some addr) then dial_loop text dial port ips w
          else (case dial (JoinHostPort (text addr) port) w of
                  (None, w) \<Rightarrow> (Some addr, w)
                | (Some _, w) \<Rightarrow> dial_loop text dial port ips w))"

text \<open>\<open>split\<close> is \<open>net.SplitHostPort\<close> and \<open>quote\<close> the verb \<open>%q\<close>; \<open>lookup\<close> asks the resolver.\<close>

definition safe_dial ::
  "(string \<Rightarrow> (string \<times> string) result) \<Rightarrow> (string \<Rightarrow> string) \<Rightarrow> (string \<Rightarrow> 'w \<Rightarrow> byte list list result \<times> 'w) \<Rightarrow> (netip \<Rightarrow> string)
    \<Rightarrow> (string \<Rightarrow> 'w \<Rightarrow> error option \<times> 'w) \<Rightarrow> string \<Rightarrow> 'w \<Rightarrow> netip result \<times> 'w" where
  "safe_dial split quote lookup text dial address w =
     (case split address of
        Inl err \<Rightarrow> (Inl (Wrapf ''invalid upstream address: '' err []), w)
      | Inr (host, port) \<Rightarrow>
          (case lookup host w of
             (Inl err, w) \<Rightarrow> (Inl (Wrapf (''resolve upstream '' @ quote host @ '': '') err []), w)
           | (Inr ips, w) \<Rightarrow>
               (case dial_loop text dial port ips w of
                  (Some addr, w) \<Rightarrow> (Inr addr, w)
                | (None, w) \<Rightarrow>
                    (Inl (Errorf (''upstream '' @ quote host @ '' resolves only to blocked or unreachable addresses'')), w))))"

text \<open>A dialer that records the addresses it is given.\<close>

definition log_dial :: "(string \<Rightarrow> string list \<Rightarrow> error option) \<Rightarrow> string \<Rightarrow> string list \<Rightarrow> error option \<times> string list" where
  "log_dial orc a w = (orc a w, w @ [a])"

text \<open>The networks that must not be reached from outside, by their bytes.\<close>

fun internal_addr :: "netip \<Rightarrow> bool" where
  "internal_addr (V4 b) =
     (b ! 0 = 10 \<or> b ! 0 = 127 \<or> b ! 0 = 172 \<and> 16 \<le> b ! 1 \<and> b ! 1 \<le> 31 \<or> b ! 0 = 192 \<and> b ! 1 = 168
      \<or> b ! 0 = 169 \<and> b ! 1 = 254 \<or> b ! 0 = 100 \<and> 64 \<le> b ! 1 \<and> b ! 1 \<le> 127
      \<or> 224 \<le> b ! 0 \<and> b ! 0 \<le> 239 \<or> b = [0, 0, 0, 0] \<or> b = [255, 255, 255, 255])"
| "internal_addr (V6 b z) =
     (b ! 0 = 0xFC \<or> b ! 0 = 0xFD \<or> b ! 0 = 0xFE \<and> 0x80 \<le> b ! 1 \<and> b ! 1 \<le> 0xBF \<or> b ! 0 = 0xFF
      \<or> b = replicate 15 0 @ [1] \<or> b = replicate 16 0)"

section \<open>Correctness\<close>

lemma byte_cases:
  assumes "list_all (\<lambda>n. P (word_of_int n :: byte)) [0..255]"
  shows "P x"
proof -
  have "uint x \<in> set [0..255]" using uint_lt2p [of x] uint_ge_0 [of x] by simp
  then have "P (word_of_int (uint x))" using assms unfolding list_all_iff by blast
  then show ?thesis by simp
qed

lemma mask_ranges:
  fixes x :: byte
  shows "x AND 0xF0 = 16 \<longleftrightarrow> 16 \<le> x \<and> x \<le> 31" "x AND 0xF0 = 0xE0 \<longleftrightarrow> 224 \<le> x \<and> x \<le> 239"
    "x AND 0xFE = 0xFC \<longleftrightarrow> x = 0xFC \<or> x = 0xFD" "x AND 0xC0 = 0x80 \<longleftrightarrow> 0x80 \<le> x \<and> x \<le> 0xBF"
  by (rule byte_cases [of _ x], code_simp)+

lemma allowed_not_internal:
  assumes "addr_of_ip ip = Some a" "isAllowedPublicIP (Some a)"
  shows "\<not> internal_addr a"
  using assms
  by (cases a) (auto simp: isAllowedPublicIP_def addr_of_ip_def mask_ranges split: if_splits option.splits)

lemma dial_loop_public:
  assumes "dial_loop text (log_dial orc) port ips w = (r, w')"
  shows "(\<forall>a. r = Some a \<longrightarrow> \<not> internal_addr a)
    \<and> (\<exists>as. w' = w @ map (\<lambda>a. JoinHostPort (text a) port) as \<and> (\<forall>a\<in>set as. \<not> internal_addr a))"
  using assms
proof (induction ips arbitrary: w)
  case Nil
  then show ?case by (auto intro: exI [of _ "[]"])
next
  case (Cons ip ips)
  show ?case
  proof (cases "\<exists>a. addr_of_ip ip = Some a \<and> isAllowedPublicIP (Some a)")
    case False
    with Cons.prems have "dial_loop text (log_dial orc) port ips w = (r, w')" by (auto split: option.splits)
    then show ?thesis by (rule Cons.IH)
  next
    case True
    then obtain a where a: "addr_of_ip ip = Some a" "isAllowedPublicIP (Some a)" by blast
    note n = allowed_not_internal [OF a]
    let ?x = "JoinHostPort (text a) port"
    show ?thesis
    proof (cases "orc ?x w")
      case None
      then have "r = Some a" "w' = w @ map (\<lambda>a. JoinHostPort (text a) port) [a]"
        using Cons.prems a by (simp_all add: log_dial_def)
      with n show ?thesis by (intro conjI exI [of _ "[a]"]) simp_all
    next
      case (Some e)
      then have "dial_loop text (log_dial orc) port ips (w @ [?x]) = (r, w')" using Cons.prems a by (simp add: log_dial_def [of orc ?x w])
      from Cons.IH [OF this] obtain as where as: "\<forall>a. r = Some a \<longrightarrow> \<not> internal_addr a"
        "w' = (w @ [?x]) @ map (\<lambda>a. JoinHostPort (text a) port) as" "\<forall>a\<in>set as. \<not> internal_addr a" by blast
      then show ?thesis using n by (intro conjI exI [of _ "a # as"]) simp_all
    qed
  qed
qed

text \<open>
  C23. The proxy never connects inside. Whatever the resolver answers, at the moment of the connection and for every name, the
  transport dials only addresses outside of the private, loopback, link-local, carrier-grade NAT, multicast,
  unspecified and broadcast networks, so that neither the metadata service nor a sandbox is reached; and the
  connection it returns is to such an address.
\<close>

theorem proxy_dials_public:
  assumes "safe_dial split quote lookup text (log_dial orc) address [] = (r, w')" and "\<And>h w. snd (lookup h w) = w"
  shows "(\<forall>a. r = Inr a \<longrightarrow> \<not> internal_addr a)
    \<and> (\<forall>x\<in>set w'. \<exists>a port. x = JoinHostPort (text a) port \<and> \<not> internal_addr a)"
proof (cases "split address")
  case (Inl err)
  with assms(1) show ?thesis by (auto simp: safe_dial_def)
next
  case (Inr hp)
  obtain host port where hp: "hp = (host, port)" by (rule prod.exhaust)
  obtain ans where l: "lookup host [] = (ans, [])" using assms(2) [of host "[]"] by (metis prod.collapse)
  show ?thesis
  proof (cases ans)
    case (Inl err)
    with assms(1) Inr hp l show ?thesis by (auto simp: safe_dial_def)
  next
    case ips: (Inr ips)
    obtain r1 w1 where d: "dial_loop text (log_dial orc) port ips [] = (r1, w1)" by (rule prod.exhaust)
    have "w' = w1" "\<forall>a. r = Inr a \<longrightarrow> r1 = Some a"
      using assms(1) Inr hp l ips d by (auto simp: safe_dial_def split: option.splits)
    moreover obtain as where as: "w1 = map (\<lambda>a. JoinHostPort (text a) port) as" "\<forall>a\<in>set as. \<not> internal_addr a"
      using dial_loop_public [OF d] by auto
    have "\<forall>x\<in>set w1. \<exists>a port. x = JoinHostPort (text a) port \<and> \<not> internal_addr a"
    proof
      fix x
      assume "x \<in> set w1"
      then obtain a where "a \<in> set as" "x = JoinHostPort (text a) port" using as(1) by auto
      with as(2) show "\<exists>a port. x = JoinHostPort (text a) port \<and> \<not> internal_addr a" by blast
    qed
    ultimately show ?thesis using dial_loop_public [OF d] by blast
  qed
qed

theorem proxy_dials_public_witness:
  "safe_dial (\<lambda>_. Inr (''h'', ''80'')) (\<lambda>h. h) (\<lambda>_ w. (Inr [[10, 0, 0, 1], [1, 1, 1, 1]], w)) (\<lambda>_. ''x'') (log_dial (\<lambda>_ _. None)) ''h:80'' []
     = (Inr (V4 [1, 1, 1, 1]), [''x:80'']) \<and> \<not> internal_addr (V4 [1, 1, 1, 1])"
proof -
  have "addr_of_ip [10, 0, 0, 1] = Some (V4 [10, 0, 0, 1])" "addr_of_ip [1, 1, 1, 1] = Some (V4 [1, 1, 1, 1])"
    by (simp_all add: addr_of_ip_def To4_def)
  moreover have "\<not> isAllowedPublicIP (Some (V4 [10, 0, 0, 1]))" "isAllowedPublicIP (Some (V4 [1, 1, 1, 1]))"
    by (simp_all add: isAllowedPublicIP_def)
  ultimately have d: "safe_dial (\<lambda>_. Inr (''h'', ''80'')) (\<lambda>h. h) (\<lambda>_ w. (Inr [[10, 0, 0, 1], [1, 1, 1, 1]], w)) (\<lambda>_. ''x'')
      (log_dial (\<lambda>_ _. None)) ''h:80'' [] = (Inr (V4 [1, 1, 1, 1]), [''x:80''])"
    by (simp add: safe_dial_def log_dial_def JoinHostPort_def)
  with proxy_dials_public [OF d] show ?thesis by simp
qed

text \<open>
  The policy lets reserved addresses pass: the networks 0.0.0.0/8 and 240.0.0.0/4, and the IPv6 form in which a NAT64 gateway
  carries an internal IPv4 address.
\<close>

lemma reserved_allowed:
  "isAllowedPublicIP (Some (V4 [0, 0, 0, 1]))" "isAllowedPublicIP (Some (V4 [240, 0, 0, 1]))"
  "isAllowedPublicIP (Some (V6 ([0, 0x64, 0xFF, 0x9B] @ replicate 8 0 @ [10, 0, 0, 1]) []))"
  by code_simp+

text \<open>A literal address is checked before the transport is asked.\<close>

lemma ValidateProxyTarget_literal:
  assumes "ValidateProxyTarget ul host port = None" "ParseIP host = Some ip" "addr_of_ip ip = Some a"
  shows "\<not> internal_addr a"
  using assms allowed_not_internal [OF assms(3)] by (auto simp: ValidateProxyTarget_def split: if_splits)

end
