(* ===== verification/Snapshot_Registry.thy ===== *)
theory Snapshot_Registry
  imports Go_Errors
begin

text \<open>
  \<open>internal/platform/snapshot/config.go\<close>, \<open>validator.go\<close>, \<open>manifest.go\<close> and \<open>registry.go\<close>: the declaration of a
  snapshot, its manifest, and the registry of snapshots over an object store. The operating system answers
  the calls of \<open>host_op\<close>; \<open>disk\<close> is a host with files. YAML, JSON and the S3 client are arguments.
\<close>

section \<open>Configuration\<close>

record runtime_config =
  rt_OS :: string
  rt_Distro :: string
  rt_Architecture :: string

record language_config =
  lang_Name :: string
  lang_Version :: string

record dependencies =
  dep_System :: "string list"
  dep_Pip :: "string list"
  dep_NPM :: "string list"

record resources =
  res_VCPU :: int
  res_MemoryMB :: int
  res_DiskMB :: int

record network_policy =
  AllowedDomains :: "string list"
  BlockPrivateIPs :: bool

record snapshot_config =
  sc_Version :: string
  sc_Name :: string
  sc_Description :: string
  sc_Runtime :: runtime_config
  sc_Language :: language_config
  sc_Dependencies :: dependencies
  sc_Resources :: resources
  sc_Env :: "(string, string) gomap option"
  sc_Network :: network_policy

definition DefaultSchemaVersion :: string where "DefaultSchemaVersion = ''v1alpha1''"
definition ManifestVersion :: string where "ManifestVersion = ''v1alpha1''"

definition or_default :: "string \<Rightarrow> string \<Rightarrow> string" where
  "or_default d s = (if s = [] then d else s)"

definition applyDefaults :: "snapshot_config \<Rightarrow> snapshot_config" where
  "applyDefaults c =
     c\<lparr>sc_Version := or_default DefaultSchemaVersion (sc_Version c),
       sc_Runtime := \<lparr>rt_OS = or_default ''linux'' (rt_OS (sc_Runtime c)),
                      rt_Distro = or_default ''ubuntu-22.04'' (rt_Distro (sc_Runtime c)),
                      rt_Architecture = or_default ''x86_64'' (rt_Architecture (sc_Runtime c))\<rparr>,
       sc_Language := \<lparr>lang_Name = or_default ''python'' (lang_Name (sc_Language c)),
                       lang_Version = or_default ''3.11'' (lang_Version (sc_Language c))\<rparr>,
       sc_Env := Some (case sc_Env c of None \<Rightarrow> [] | Some env \<Rightarrow> env)\<rparr>"

text \<open>\<open>Validate\<close> has a pointer receiver: the configuration with its defaults is the second result.\<close>

definition config_check :: "snapshot_config \<Rightarrow> error option" where
  "config_check c =
     (if sc_Name c = [] then Some (Errorf ''snapshot name is required'')
      else if sc_Version c \<noteq> DefaultSchemaVersion then Some (Errorf (''unsupported snapshot schema version '' @ Quote (sc_Version c)))
      else if rt_OS (sc_Runtime c) \<noteq> ''linux'' then Some (Errorf (''unsupported runtime OS '' @ Quote (rt_OS (sc_Runtime c))))
      else if rt_Architecture (sc_Runtime c) \<noteq> ''x86_64''
        then Some (Errorf (''unsupported architecture '' @ Quote (rt_Architecture (sc_Runtime c))))
      else if res_VCPU (sc_Resources c) \<le> 0 then Some (Errorf ''resources.vcpu must be greater than 0'')
      else if res_MemoryMB (sc_Resources c) < 128 then Some (Errorf ''resources.memory_mb must be at least 128'')
      else if res_DiskMB (sc_Resources c) < 1024 then Some (Errorf ''resources.disk_mb must be at least 1024'')
      else if list_ex (\<lambda>domain. domain = []) (AllowedDomains (sc_Network c))
        then Some (Errorf ''network.allowed_domains cannot contain empty domains'')
      else None)"

definition config_Validate :: "snapshot_config \<Rightarrow> error option \<times> snapshot_config" where
  "config_Validate c = (let c = applyDefaults c in (config_check c, c))"

definition config_Load :: "(string \<Rightarrow> string result) \<Rightarrow> (string \<Rightarrow> snapshot_config result) \<Rightarrow> string \<Rightarrow> snapshot_config result" where
  "config_Load read yaml path =
     (case read path of
        Inl err \<Rightarrow> Inl (Wrapf ''read snapshot config: '' err [])
      | Inr data \<Rightarrow>
          (case yaml data of
             Inl err \<Rightarrow> Inl (Wrapf ''parse snapshot config: '' err [])
           | Inr cfg \<Rightarrow> (case config_Validate cfg of (Some err, _) \<Rightarrow> Inl err | (None, cfg) \<Rightarrow> Inr cfg)))"

record manifest =
  mf_Version :: string
  mf_Name :: string
  ConfigDigest :: string
  mf_KernelPath :: string
  mf_RootfsPath :: string
  mf_GuestAgent :: string
  mf_CreatedAt :: int

section \<open>The host\<close>

text \<open>A reader is the bytes it yields and the error that ends it, if it does not end at the end of the file.\<close>

type_synonym reader = "string \<times> error option"

datatype host_op =
  OpStat string | OpLookPath string | OpMkdirAll string | OpMkdirTemp string string | OpRemoveAll string
| OpOpen string | OpCreate string | OpCopy string reader | OpChmod string
| OpReadFile string | OpWriteFile string string | OpRun "string list"

datatype host_ans = HDone | HFailed error | HFound string | HStream reader

type_synonym 'w host = "host_op \<Rightarrow> 'w \<Rightarrow> host_ans \<times> 'w"

fun host_err :: "host_ans \<Rightarrow> error option" where
  "host_err (HFailed e) = Some e"
| "host_err _ = None"

fun found :: "host_ans \<Rightarrow> string" where
  "found (HFound s) = s"
| "found _ = []"

fun stream :: "host_ans \<Rightarrow> reader" where
  "stream (HStream r) = r"
| "stream _ = ([], None)"

definition perform :: "'w host \<Rightarrow> host_op \<Rightarrow> 'w \<Rightarrow> error option \<times> 'w" where
  "perform host op w = (case host op w of (a, w) \<Rightarrow> (host_err a, w))"

text \<open>
  A host whose state is the content of its files. \<open>fault\<close> says which calls fail; a copy that fails has written
  \<open>part\<close> bytes.
\<close>

type_synonym files = "string \<Rightarrow> string option"

definition disk :: "(host_op \<Rightarrow> error option) \<Rightarrow> nat \<Rightarrow> files host" where
  "disk fault part op fs =
     (case fault op of
        Some e \<Rightarrow> (HFailed e, case op of OpCopy path r \<Rightarrow> fs(path \<mapsto> take part (fst r)) | _ \<Rightarrow> fs)
      | None \<Rightarrow>
          (case op of
             OpOpen path \<Rightarrow> (case fs path of None \<Rightarrow> (HFailed (Errorf ''no such file or directory''), fs) | Some d \<Rightarrow> (HStream (d, None), fs))
           | OpCreate path \<Rightarrow> (HDone, fs(path \<mapsto> []))
           | OpCopy path r \<Rightarrow> (case snd r of None \<Rightarrow> HDone | Some e \<Rightarrow> HFailed e, fs(path \<mapsto> fst r))
           | OpWriteFile path d \<Rightarrow> (HDone, fs(path \<mapsto> d))
           | _ \<Rightarrow> (HDone, fs)))"

section \<open>Stores\<close>

record 'w store =
  PutObject :: "string \<Rightarrow> reader \<Rightarrow> 'w \<Rightarrow> error option \<times> 'w"
  GetObject :: "string \<Rightarrow> 'w \<Rightarrow> reader result \<times> 'w"

text \<open>Opening a file for writing and copying a reader into it, each with the text of its error.\<close>

definition write_object :: "'w host \<Rightarrow> string \<Rightarrow> string \<Rightarrow> string \<Rightarrow> string \<Rightarrow> reader \<Rightarrow> 'w \<Rightarrow> error option \<times> 'w" where
  "write_object host mk op cp path body w =
     (case perform host (OpMkdirAll (filepath_Dir path)) w of
        (Some err, w) \<Rightarrow> (Some (Wrapf mk err []), w)
      | (None, w) \<Rightarrow>
          (case perform host (OpCreate path) w of
             (Some err, w) \<Rightarrow> (Some (Wrapf op err []), w)
           | (None, w) \<Rightarrow>
               (case perform host (OpCopy path body) w of
                  (Some err, w) \<Rightarrow> (Some (Wrapf cp err []), w)
                | (None, w) \<Rightarrow> (None, w))))"

definition local_path :: "string \<Rightarrow> string \<Rightarrow> string" where
  "local_path root key = filepath_Join [root, key]"

definition NewLocalStore :: "'w host \<Rightarrow> string \<Rightarrow> 'w \<Rightarrow> string result \<times> 'w" where
  "NewLocalStore host root w =
     (if root = [] then (Inl (Errorf ''local store root path is required''), w)
      else case perform host (OpMkdirAll root) w of
             (Some err, w) \<Rightarrow> (Inl (Wrapf ''create local store directory: '' err []), w)
           | (None, w) \<Rightarrow> (Inr root, w))"

definition local_PutObject :: "'w host \<Rightarrow> string \<Rightarrow> string \<Rightarrow> reader \<Rightarrow> 'w \<Rightarrow> error option \<times> 'w" where
  "local_PutObject host root key body w =
     write_object host ''create local directory: '' ''open local destination file: '' ''write local file: ''
       (local_path root key) body w"

definition local_GetObject :: "'w host \<Rightarrow> string \<Rightarrow> string \<Rightarrow> 'w \<Rightarrow> reader result \<times> 'w" where
  "local_GetObject host root key w =
     (case host (OpOpen (local_path root key)) w of
        (a, w) \<Rightarrow> (case host_err a of Some err \<Rightarrow> (Inl (Wrapf ''open local file: '' err []), w) | None \<Rightarrow> (Inr (stream a), w)))"

definition LocalStore :: "'w host \<Rightarrow> string \<Rightarrow> 'w store" where
  "LocalStore host root = \<lparr>PutObject = local_PutObject host root, GetObject = local_GetObject host root\<rparr>"

text \<open>The S3 client: loading its configuration, and the two calls, which know the bucket.\<close>

record s3_config =
  s3_Endpoint :: string
  s3_Region :: string
  s3_Bucket :: string
  s3_AccessKeyID :: string
  s3_SecretAccessKey :: string
  s3_UsePathStyle :: bool

record 'w s3_client =
  s3_PutObject :: "string \<Rightarrow> string \<Rightarrow> reader \<Rightarrow> 'w \<Rightarrow> error option \<times> 'w"
  s3_GetObject :: "string \<Rightarrow> string \<Rightarrow> 'w \<Rightarrow> reader result \<times> 'w"

definition S3Store :: "'w s3_client \<Rightarrow> string \<Rightarrow> 'w store" where
  "S3Store client bucket =
     \<lparr>PutObject = (\<lambda>key body w.
        case s3_PutObject client bucket key body w of
          (Some err, w) \<Rightarrow> (Some (Wrapf (''s3 put object '' @ key @ '': '') err []), w)
        | (None, w) \<Rightarrow> (None, w)),
      GetObject = (\<lambda>key w.
        case s3_GetObject client bucket key w of
          (Inl err, w) \<Rightarrow> (Inl (Wrapf (''s3 get object '' @ key @ '': '') err []), w)
        | (Inr body, w) \<Rightarrow> (Inr body, w))\<rparr>"

text \<open>\<open>load\<close> is \<open>LoadDefaultConfig\<close> and \<open>NewFromConfig\<close>: region, keys, endpoint and style give the client.\<close>

definition NewS3Store ::
  "(string \<Rightarrow> string \<Rightarrow> string \<Rightarrow> string option \<Rightarrow> bool \<Rightarrow> 'w s3_client result) \<Rightarrow> s3_config \<Rightarrow> 'w store result" where
  "NewS3Store load cfg =
     (if s3_Bucket cfg = [] then Inl (Errorf ''s3 bucket name is required'')
      else case load (s3_Region cfg) (s3_AccessKeyID cfg) (s3_SecretAccessKey cfg)
                  (if s3_Endpoint cfg = [] then None else Some (s3_Endpoint cfg)) (s3_UsePathStyle cfg) of
             Inl err \<Rightarrow> Inl (Wrapf ''load aws config: '' err [])
           | Inr client \<Rightarrow> Inr (S3Store client (s3_Bucket cfg)))"

section \<open>The registry\<close>

definition NewRegistry :: "'w store option \<Rightarrow> 'w store result" where
  "NewRegistry store = (case store of None \<Rightarrow> Inl (Errorf ''storage driver is required'') | Some s \<Rightarrow> Inr s)"

definition object_key :: "string \<Rightarrow> string \<Rightarrow> string" where
  "object_key name artifact = name @ ''/'' @ artifact"

definition registry_Put :: "(manifest \<Rightarrow> string result) \<Rightarrow> 'w store \<Rightarrow> manifest \<Rightarrow> 'w \<Rightarrow> error option \<times> 'w" where
  "registry_Put enc st m w =
     (if mf_Name m = [] then (Some (Errorf ''snapshot manifest name is required''), w)
      else case enc m of
             Inl err \<Rightarrow> (Some (Wrapf ''encode snapshot manifest: '' err []), w)
           | Inr data \<Rightarrow> PutObject st (object_key (mf_Name m) ''manifest.json'') (data, None) w)"

definition registry_Get :: "(reader \<Rightarrow> manifest result) \<Rightarrow> 'w store \<Rightarrow> string \<Rightarrow> 'w \<Rightarrow> manifest result \<times> 'w" where
  "registry_Get dec st name w =
     (case GetObject st (object_key name ''manifest.json'') w of
        (Inl err, w) \<Rightarrow> (Inl (Wrapf ''get manifest: '' err []), w)
      | (Inr reader, w) \<Rightarrow>
          (case dec reader of Inl err \<Rightarrow> (Inl (Wrapf ''decode snapshot manifest: '' err []), w) | Inr m \<Rightarrow> (Inr m, w)))"

definition PushArtifact :: "'w host \<Rightarrow> 'w store \<Rightarrow> string \<Rightarrow> string \<Rightarrow> string \<Rightarrow> 'w \<Rightarrow> error option \<times> 'w" where
  "PushArtifact host st snapshotName artifactName localPath w =
     (case host (OpOpen localPath) w of
        (a, w) \<Rightarrow>
          (case host_err a of
             Some err \<Rightarrow> (Some (Wrapf ''open artifact file: '' err []), w)
           | None \<Rightarrow> PutObject st (object_key snapshotName artifactName) (stream a) w))"

definition PullArtifact :: "'w host \<Rightarrow> 'w store \<Rightarrow> string \<Rightarrow> string \<Rightarrow> string \<Rightarrow> 'w \<Rightarrow> error option \<times> 'w" where
  "PullArtifact host st snapshotName artifactName targetPath w =
     (case GetObject st (object_key snapshotName artifactName) w of
        (Inl err, w) \<Rightarrow> (Some (Wrapf ''get artifact from store: '' err []), w)
      | (Inr reader, w) \<Rightarrow>
          write_object host ''create destination directory: '' ''open local artifact destination: ''
            ''stream artifact to local disk: '' targetPath reader w)"

definition demo_manifest :: manifest where
  "demo_manifest = \<lparr>mf_Version = ManifestVersion, mf_Name = ''py'', ConfigDigest = [], mf_KernelPath = ''vmlinux'',
     mf_RootfsPath = ''rootfs.ext4'', mf_GuestAgent = ''/agent'', mf_CreatedAt = 0\<rparr>"

section \<open>What a store promises\<close>

text \<open>
  \<open>same k k'\<close> says that the two keys may share their object. A write that succeeds is read back, a write that
  fails or succeeds leaves other objects alone, and reading changes nothing.
\<close>

locale object_store =
  fixes put :: "string \<Rightarrow> reader \<Rightarrow> 'w \<Rightarrow> error option \<times> 'w"
    and get :: "string \<Rightarrow> 'w \<Rightarrow> reader result \<times> 'w"
    and same :: "string \<Rightarrow> string \<Rightarrow> bool"
  assumes put_get: "put k r w = (None, w') \<Longrightarrow> snd r = None \<and> get k w' = (Inr r, w')"
    and put_other: "put k r w = (e, w') \<Longrightarrow> \<not> same k k' \<Longrightarrow> fst (get k' w') = fst (get k' w)"
    and get_pure: "snd (get k w) = w"
begin

lemma Put_Get:
  assumes "registry_Put enc \<lparr>PutObject = put, GetObject = g\<rparr> m w = (None, w')"
    and "\<And>data. enc m = Inr data \<Longrightarrow> dec (data, None) = Inr m"
  shows "registry_Get dec \<lparr>PutObject = p, GetObject = get\<rparr> (mf_Name m) w' = (Inr m, w')"
proof -
  obtain data where "enc m = Inr data" "put (object_key (mf_Name m) ''manifest.json'') (data, None) w = (None, w')"
    using assms(1) by (auto simp: registry_Put_def split: if_splits sum.splits)
  with assms(2) put_get [OF this(2)] show ?thesis by (simp add: registry_Get_def)
qed

lemma Put_other:
  assumes "registry_Put enc \<lparr>PutObject = put, GetObject = g\<rparr> m w = (e, w')"
    and "\<not> same (object_key (mf_Name m) ''manifest.json'') (object_key name ''manifest.json'')"
  shows "fst (registry_Get dec \<lparr>PutObject = p, GetObject = get\<rparr> name w') = fst (registry_Get dec \<lparr>PutObject = p, GetObject = get\<rparr> name w)"
proof -
  have "fst (get (object_key name ''manifest.json'') w') = fst (get (object_key name ''manifest.json'') w)"
    using assms put_other by (auto simp: registry_Put_def split: if_splits sum.splits)
  then show ?thesis by (auto simp: registry_Get_def split: prod.splits sum.splits)
qed

lemma Push_get:
  assumes "PushArtifact host \<lparr>PutObject = put, GetObject = g\<rparr> name art path w = (None, w')"
    and "host (OpOpen path) w = (HStream r, w)"
  shows "get (object_key name art) w' = (Inr r, w')"
  using assms put_get by (simp add: PushArtifact_def)

end

section \<open>The local store\<close>

lemma write_object_disk:
  assumes "write_object (disk fault part) mk op cp path body fs = (e, fs')"
  shows "\<forall>p. p \<noteq> path \<longrightarrow> fs' p = fs p" "e = None \<Longrightarrow> snd body = None \<and> fs' path = Some (fst body)"
  using assms by (auto simp: write_object_def perform_def disk_def split: option.splits)

lemma local_GetObject_disk:
  "local_GetObject (disk (\<lambda>_. None) part) root key fs =
     (case fs (local_path root key) of
        None \<Rightarrow> (Inl (Wrapf ''open local file: '' (Errorf ''no such file or directory'') []), fs)
      | Some d \<Rightarrow> (Inr (d, None), fs))"
  by (auto simp: local_GetObject_def disk_def split: option.splits)

interpretation local_objects: object_store "local_PutObject (disk fault part) root" "local_GetObject (disk (\<lambda>_. None) 0) root"
  "\<lambda>k k'. local_path root k = local_path root k'"
proof unfold_locales
  fix k k' r fs fs' e
  show "snd r = None \<and> local_GetObject (disk (\<lambda>_. None) 0) root k fs' = (Inr r, fs')"
    if "local_PutObject (disk fault part) root k r fs = (None, fs')"
    using write_object_disk(2) [of fault part _ _ _ "local_path root k" r fs None fs'] that
    by (auto simp: local_PutObject_def local_GetObject_disk prod_eq_iff)
  show "fst (local_GetObject (disk (\<lambda>_. None) 0) root k' fs') = fst (local_GetObject (disk (\<lambda>_. None) 0) root k' fs)"
    if "local_PutObject (disk fault part) root k r fs = (e, fs')" "local_path root k \<noteq> local_path root k'"
    using write_object_disk(1) [of fault part _ _ _ "local_path root k" r fs e fs'] that
    by (auto simp: local_PutObject_def local_GetObject_disk split: option.splits)
  show "snd (local_GetObject (disk (\<lambda>_. None) 0) root k fs) = fs"
    by (simp add: local_GetObject_disk split: option.splits)
qed

text \<open>The elements of the path of an object are those of the root, of the name and of the artifact.\<close>

lemma object_path:
  assumes "root \<noteq> []" "''..'' \<notin> set (split_on (CHR ''/'') name)" "art = ''manifest.json''"
  shows "path_segs (local_path root (object_key name art)) = path_segs root @ filter real_seg (split_on (CHR ''/'') name) @ [art]"
proof -
  have "split_on (CHR ''/'') (object_key name art) = split_on (CHR ''/'') name @ [art]"
    using assms(3) by (simp add: object_key_def split_on_sep)
  moreover have "real_seg art" "art \<noteq> ''..''" using assms(3) by (simp_all add: real_seg_def)
  ultimately show ?thesis
    using path_segs_below [OF assms(1), of "object_key name art"] assms(2)
    by (simp add: local_path_def path_segs_Clean)
qed

lemma artifact_roundtrip:
  assumes "PushArtifact (disk f n) (LocalStore (disk f n) root) name art src fs = (None, fs1)" "fs src = Some d"
    and "PullArtifact (disk g k) (LocalStore (disk (\<lambda>_. None) 0) root) name art dst fs1 = (None, fs2)"
  shows "fs2 dst = Some d"
proof -
  have "disk f n (OpOpen src) fs = (HStream (d, None), fs)"
    using assms(1,2) by (auto simp: PushArtifact_def disk_def split: option.splits)
  from local_objects.Push_get [OF assms(1) [unfolded LocalStore_def] this]
  have "write_object (disk g k) ''create destination directory: '' ''open local artifact destination: ''
      ''stream artifact to local disk: '' dst (d, None) fs1 = (None, fs2)"
    using assms(3) by (simp add: PullArtifact_def LocalStore_def)
  from write_object_disk(2) [OF this] show ?thesis by simp
qed

section \<open>Properties\<close>



text \<open>
  C40. A name with two dots leaves the store. The check of a configuration accepts every name that is not empty; the manifest of a
  snapshot called \<open>../x\<close> is written next to the root of the store, not below it.
\<close>

theorem registry_escape:
  assumes "config_check c = None" and "root \<noteq> []" and "path_segs root = base @ [dir]" and "dir \<noteq> ''..''"
    and "real_seg x" and "CHR ''/'' \<notin> set x"
  shows "config_check (c\<lparr>sc_Name := ''../'' @ x\<rparr>) = None
    \<and> path_segs (local_path root (object_key (''../'' @ x) ''manifest.json'')) = base @ [x, ''manifest.json'']"
proof
  show "config_check (c\<lparr>sc_Name := ''../'' @ x\<rparr>) = None"
    using assms(1) by (auto simp: config_check_def split: if_splits)
  have s: "split_on (CHR ''/'') (object_key (''../'' @ x) ''manifest.json'') = [''..'', x, ''manifest.json'']"
    using assms(6) by (simp add: object_key_def split_on_append)
  have r: "is_rooted (root @ ''/'' @ object_key (''../'' @ x) ''manifest.json'') = is_rooted root"
    using assms(2) by (cases root) (simp_all add: is_rooted_def HasPrefix_def)
  have x: "x \<noteq> []" "x \<noteq> ''.''" "x \<noteq> ''..''" using assms(5) by (simp_all add: real_seg_def)
  have "clean_segs (is_rooted root) acc (xs @ [''..'', x, ''manifest.json'']) = base @ [x, ''manifest.json'']"
    if "clean_segs (is_rooted root) acc xs = base @ [dir]" for acc xs
    using that
  proof (induction xs arbitrary: acc)
    case Nil
    then have "acc = dir # rev base" by (metis clean_segs.simps(1) rev.simps(2) rev_rev_ident rev_append append_Cons append_Nil)
    then show ?case using assms(4) x by simp
  next
    case (Cons s ss)
    then show ?case by (auto split: list.splits)
  qed
  from this [of "[]" "split_on (CHR ''/'') root"] assms(3) r s
  have "path_segs (root @ ''/'' @ object_key (''../'' @ x) ''manifest.json'') = base @ [x, ''manifest.json'']"
    by (simp add: path_segs_def split_on_sep)
  then show "path_segs (local_path root (object_key (''../'' @ x) ''manifest.json'')) = base @ [x, ''manifest.json'']"
    using assms(2) by (simp add: local_path_def filepath_Join_def path_segs_Clean)
qed

theorem registry_escape_witness:
  "path_segs (local_path ''/srv/snap'' (object_key ''../x'' ''manifest.json'')) = [''srv'', ''x'', ''manifest.json'']"
proof -
  have "path_segs ''/srv/snap'' = [''srv''] @ [''snap'']" by (simp add: path_segs_def is_rooted_def HasPrefix_def)
  moreover have "\<exists>c. config_check c = None"
    by (rule exI [of _ "applyDefaults \<lparr>sc_Version = [], sc_Name = ''n'', sc_Description = [], sc_Runtime = \<lparr>rt_OS = [], rt_Distro = [], rt_Architecture = []\<rparr>,
        sc_Language = \<lparr>lang_Name = [], lang_Version = []\<rparr>, sc_Dependencies = \<lparr>dep_System = [], dep_Pip = [], dep_NPM = []\<rparr>,
        sc_Resources = \<lparr>res_VCPU = 1, res_MemoryMB = 128, res_DiskMB = 1024\<rparr>, sc_Env = None, sc_Network = \<lparr>AllowedDomains = [], BlockPrivateIPs = True\<rparr>\<rparr>"])
       (simp add: config_check_def applyDefaults_def or_default_def)
  ultimately show ?thesis using registry_escape [of _ "''/srv/snap''" "[''srv'']" "''snap''" "''x''"] by (auto simp: real_seg_def)
qed

end
