(* ===== verification/Snapshot_Builder.thy ===== *)
theory Snapshot_Builder
  imports Snapshot_Registry Guest_Exec
begin

text \<open>
  \<open>internal/platform/snapshot/builder.go\<close>: from a configuration to an image in the registry. The commands it runs and
  the file system are the host of \<open>Snapshot_Registry\<close>; a cancelled context shows as the failure of a call.
  \<open>and_then\<close> is the sequence of two steps with an early return, \<open>wrap\<close> the prefix of an error,
  \<open>with_temp\<close> a temporary directory with its deferred removal.
\<close>

section \<open>Steps\<close>

type_synonym 'w build_step = "'w \<Rightarrow> error option \<times> 'w"

definition and_then :: "'w build_step \<Rightarrow> 'w build_step \<Rightarrow> 'w build_step" where
  "and_then f g w = (case f w of (Some err, w) \<Rightarrow> (Some err, w) | (None, w) \<Rightarrow> g w)"

definition wrap :: "string \<Rightarrow> 'w build_step \<Rightarrow> 'w build_step" where
  "wrap pre f w = (case f w of (Some err, w) \<Rightarrow> (Some (Wrapf pre err []), w) | (None, w) \<Rightarrow> (None, w))"

definition with_temp :: "'w host \<Rightarrow> (error \<Rightarrow> 'r) \<Rightarrow> string \<Rightarrow> string \<Rightarrow> string \<Rightarrow> (string \<Rightarrow> 'w \<Rightarrow> 'r \<times> 'w) \<Rightarrow> 'w \<Rightarrow> 'r \<times> 'w" where
  "with_temp host fail label dir pattern body w =
     (case host (OpMkdirTemp dir pattern) w of
        (a, w) \<Rightarrow>
          (case host_err a of
             Some err \<Rightarrow> (fail (Wrapf label err []), w)
           | None \<Rightarrow> (case body (found a) w of (r, w) \<Rightarrow> (r, snd (host (OpRemoveAll (found a)) w)))))"

definition runCommand :: "'w host \<Rightarrow> string \<Rightarrow> string list \<Rightarrow> 'w build_step" where
  "runCommand host name args = wrap (name @ '' '' @ Join args '' '' @ '': '') (perform host (OpRun (name # args)))"

definition runChroot :: "'w host \<Rightarrow> string \<Rightarrow> string list \<Rightarrow> 'w build_step" where
  "runChroot host rootDir args = runCommand host ''chroot'' (rootDir # args)"

section \<open>The root file system\<close>

definition withChrootMounts :: "'w host \<Rightarrow> string \<Rightarrow> 'w build_step \<Rightarrow> 'w build_step" where
  "withChrootMounts host rootDir fn w =
     (let dev = filepath_Join [rootDir, ''dev'']; proc = filepath_Join [rootDir, ''proc'']
      in case wrap ''mount /dev: '' (runCommand host ''mount'' [''--rbind'', ''/dev'', dev]) w of
           (Some err, w) \<Rightarrow> (Some err, w)
         | (None, w) \<Rightarrow>
             (case (case wrap ''mount /proc: '' (runCommand host ''mount'' [''-t'', ''proc'', ''proc'', proc]) w of
                      (Some err, w) \<Rightarrow> (Some err, w)
                    | (None, w) \<Rightarrow> (case fn w of (r, w) \<Rightarrow> (r, snd (runCommand host ''umount'' [''-l'', proc] w)))) of
                (r, w) \<Rightarrow> (r, snd (runCommand host ''umount'' [''-R'', ''-l'', dev] w))))"

definition distroSource :: "(string \<Rightarrow> string) \<Rightarrow> string \<Rightarrow> (string \<times> string) result" where
  "distroSource ul distro =
     (case map_of [(''ubuntu-22.04'', (''jammy'', ''http://archive.ubuntu.com/ubuntu'')),
                   (''ubuntu-20.04'', (''focal'', ''http://archive.ubuntu.com/ubuntu'')),
                   (''ubuntu-24.04'', (''noble'', ''http://archive.ubuntu.com/ubuntu'')),
                   (''debian-11'', (''bullseye'', ''http://deb.debian.org/debian'')),
                   (''debian-12'', (''bookworm'', ''http://deb.debian.org/debian''))] (ToLower ul distro) of
        None \<Rightarrow> Inl (Errorf (''unsupported distribution '' @ Quote distro))
      | Some res \<Rightarrow> Inr res)"

definition apt_install :: "string list" where
  "apt_install = [''apt-get'', ''install'', ''-y'', ''--no-install-recommends'']"

definition installLanguage :: "(string \<Rightarrow> string) \<Rightarrow> 'w host \<Rightarrow> string \<Rightarrow> language_config \<Rightarrow> 'w build_step" where
  "installLanguage ul host rootDir language w =
     (if lang_Name language = [] then (None, w)
      else case map_of [(''python'', [''python3'', ''python3-pip'']), (''node'', [''nodejs'', ''npm'']), (''go'', [''golang''])]
                  (ToLower ul (lang_Name language)) of
             None \<Rightarrow> (Some (Errorf (''unsupported language runtime '' @ Quote (lang_Name language))), w)
           | Some pkgs \<Rightarrow> wrap (''install '' @ lang_Name language @ '' runtime: '') (runChroot host rootDir (apt_install @ pkgs)) w)"

definition install_packages :: "'w host \<Rightarrow> string \<Rightarrow> string \<Rightarrow> string list \<Rightarrow> string list \<Rightarrow> 'w build_step" where
  "install_packages host label rootDir tool pkgs w =
     (if pkgs = [] then (None, w) else wrap label (runChroot host rootDir (tool @ pkgs)) w)"

definition provision_root :: "(string \<Rightarrow> string) \<Rightarrow> 'w host \<Rightarrow> snapshot_config \<Rightarrow> string \<Rightarrow> 'w build_step" where
  "provision_root ul host cfg rootDir =
     and_then (wrap ''apt update: '' (runChroot host rootDir [''apt-get'', ''update'']))
     (and_then (install_packages host ''install system dependencies: '' rootDir apt_install (dep_System (sc_Dependencies cfg)))
     (and_then (installLanguage ul host rootDir (sc_Language cfg))
     (and_then (install_packages host ''install pip dependencies: '' rootDir [''python3'', ''-m'', ''pip'', ''install''] (dep_Pip (sc_Dependencies cfg)))
       (install_packages host ''install npm dependencies: '' rootDir [''npm'', ''install'', ''-g''] (dep_NPM (sc_Dependencies cfg))))))"

text \<open>The copy of the resolver configuration; its failures are ignored.\<close>

definition copy_resolv :: "'w host \<Rightarrow> string \<Rightarrow> 'w build_step" where
  "copy_resolv host rootDir w =
     (case host (OpReadFile ''/etc/resolv.conf'') w of
        (a, w) \<Rightarrow>
          (case host_err a of
             Some _ \<Rightarrow> (None, w)
           | None \<Rightarrow> (None, snd (host (OpWriteFile (filepath_Join [rootDir, ''etc'', ''resolv.conf'']) (fst (stream a))) w))))"

definition buildRootfs :: "(string \<Rightarrow> string) \<Rightarrow> 'w host \<Rightarrow> snapshot_config \<Rightarrow> string \<Rightarrow> 'w build_step" where
  "buildRootfs ul host cfg rootDir w =
     (case distroSource ul (rt_Distro (sc_Runtime cfg)) of
        Inl err \<Rightarrow> (Some err, w)
      | Inr (release, mirror) \<Rightarrow>
          and_then (wrap (''bootstrap '' @ rt_Distro (sc_Runtime cfg) @ '': '')
                      (runCommand host ''debootstrap'' [''--variant=minbase'', release, rootDir, mirror]))
          (and_then (copy_resolv host rootDir)
            (withChrootMounts host rootDir (provision_root ul host cfg rootDir))) w)"

definition installGuestAgent :: "'w host \<Rightarrow> string \<Rightarrow> string \<Rightarrow> 'w build_step" where
  "installGuestAgent host rootDir guestAgent =
     (let dst = filepath_Join [rootDir, ''usr'', ''local'', ''bin'', ''shiyao-agent'']
      in and_then (perform host (OpMkdirAll (filepath_Dir dst)))
           (\<lambda>w. case host (OpOpen guestAgent) w of
                  (a, w) \<Rightarrow>
                    (case host_err a of
                       Some err \<Rightarrow> (Some err, w)
                     | None \<Rightarrow> and_then (perform host (OpCreate dst))
                                (and_then (perform host (OpCopy dst (stream a))) (perform host (OpChmod dst))) w)))"

section \<open>The environment file\<close>

definition env_start :: "nat \<Rightarrow> bool" where
  "env_start r \<longleftrightarrow> r = 95 \<or> 65 \<le> r \<and> r \<le> 90 \<or> 97 \<le> r \<and> r \<le> 122"

definition validEnvName :: "string \<Rightarrow> bool" where
  "validEnvName name \<longleftrightarrow>
     (case runes name of
        [] \<Rightarrow> False
      | (r, _) # rs \<Rightarrow> env_start r \<and> list_all (\<lambda>(r, _). env_start r \<or> 48 \<le> r \<and> r \<le> 57) rs)"

definition shellQuote :: "string \<Rightarrow> string" where
  "shellQuote s = [CHR 0x27] @ replace_byte (CHR 0x27) [CHR 0x27, CHR 0x5C, CHR 0x27, CHR 0x27] s @ [CHR 0x27]"

definition sanitize :: "string \<Rightarrow> string" where
  "sanitize s = replace_byte (CHR 0x0D) [] (replace_byte (CHR 0x0A) [CHR 0x5C, CHR ''n''] s)"

definition env_line :: "string \<times> string \<Rightarrow> string" where
  "env_line kv = fst kv @ ''='' @ shellQuote (sanitize (snd kv))"

fun env_lines :: "(string, string) gomap \<Rightarrow> string list result" where
  "env_lines [] = Inr []"
| "env_lines (kv # env) =
     (if \<not> validEnvName (fst kv) then Inl (Errorf (''invalid environment variable name '' @ Quote (fst kv)))
      else case env_lines env of Inl err \<Rightarrow> Inl err | Inr lines \<Rightarrow> Inr (env_line kv # lines))"

definition env_path :: "string \<Rightarrow> string" where
  "env_path rootDir = filepath_Join [rootDir, ''etc'', ''shiyao-env'']"

definition writeEnvironment :: "'w host \<Rightarrow> string \<Rightarrow> (string, string) gomap \<Rightarrow> 'w build_step" where
  "writeEnvironment host rootDir env w =
     (if env = [] then (None, w)
      else and_then (perform host (OpMkdirAll (filepath_Dir (env_path rootDir))))
             (\<lambda>w. case env_lines env of
                    Inl err \<Rightarrow> (Some err, w)
                  | Inr lines \<Rightarrow> perform host (OpWriteFile (env_path rootDir) (Join lines [CHR 0x0A] @ [CHR 0x0A])) w) w)"

section \<open>The image\<close>

definition tar_script :: string where
  "tar_script = ''tar --exclude=./dev -C '' @ [CHR 0x22] @ ''$1'' @ [CHR 0x22] @ '' -cpf - . | tar -C '' @ [CHR 0x22] @ ''$2'' @ [CHR 0x22] @ '' -xpf -''"

definition populate :: "'w host \<Rightarrow> string \<Rightarrow> string \<Rightarrow> string \<Rightarrow> 'w build_step" where
  "populate host rootDir output mountDir w =
     (case wrap ''mount filesystem image: '' (runCommand host ''mount'' [''-o'', ''loop'', output, mountDir]) w of
        (Some err, w) \<Rightarrow> (Some err, w)
      | (None, w) \<Rightarrow>
          (case wrap ''populate filesystem image: '' (perform host (OpRun [''sh'', ''-c'', tar_script, ''sh'', rootDir, mountDir])) w of
             (r, w) \<Rightarrow> (r, snd (runCommand host ''umount'' [''-l'', mountDir] w))))"

definition createFilesystemImage :: "'w host \<Rightarrow> string \<Rightarrow> string \<Rightarrow> int \<Rightarrow> 'w build_step" where
  "createFilesystemImage host rootDir output diskMB =
     and_then (wrap ''mkfs.ext4 is required: '' (perform host (OpLookPath ''mkfs.ext4'')))
     (and_then (wrap ''create image directory: '' (perform host (OpMkdirAll (filepath_Dir output))))
     (and_then (wrap ''allocate filesystem image: ''
        (runCommand host ''dd'' [''if=/dev/zero'', ''of='' @ output, ''bs=1M'', ''count='' @ Itoa diskMB, ''status=progress'']))
     (and_then (wrap ''format filesystem image: '' (runCommand host ''mkfs.ext4'' [''-F'', output]))
       (with_temp host Some ''create image mount directory: '' (filepath_Dir output) ''.shiyao-mount-''
          (populate host rootDir output)))))"

section \<open>The builder\<close>

record builder =
  b_Kernel :: string
  b_GuestAgent :: string
  b_WorkDir :: string

definition NewBuilder :: "'w store option \<Rightarrow> string \<Rightarrow> string \<Rightarrow> ('w store \<times> builder) result" where
  "NewBuilder registry kpath guestAgent =
     (case registry of
        None \<Rightarrow> Inl (Errorf ''snapshot registry is required'')
      | Some r \<Rightarrow>
          if kpath = [] then Inl (Errorf ''kernel path is required'')
          else if guestAgent = [] then Inl (Errorf ''guest agent path is required'')
          else Inr (r, \<lparr>b_Kernel = kpath, b_GuestAgent = guestAgent, b_WorkDir = []\<rparr>))"

text \<open>\<open>sha\<close> is SHA-256 and \<open>go_syntax\<close> the verb \<open>%#v\<close> on a configuration.\<close>

definition configDigest :: "(byte list \<Rightarrow> byte list) \<Rightarrow> (snapshot_config \<Rightarrow> string) \<Rightarrow> snapshot_config \<Rightarrow> string" where
  "configDigest sha go_syntax cfg = hex_encode (sha (bytes_of (go_syntax cfg)))"

definition build_checks :: "'w host \<Rightarrow> builder \<Rightarrow> string \<Rightarrow> 'w build_step" where
  "build_checks host b workDir =
     and_then (wrap ''stat kernel: '' (perform host (OpStat (b_Kernel b))))
     (and_then (wrap ''stat guest agent: '' (perform host (OpStat (b_GuestAgent b))))
     (and_then (wrap ''debootstrap is required: '' (perform host (OpLookPath ''debootstrap'')))
       (wrap ''create build directory: '' (perform host (OpMkdirAll workDir)))))"

definition build_image :: "(string \<Rightarrow> string) \<Rightarrow> 'w host \<Rightarrow> builder \<Rightarrow> snapshot_config \<Rightarrow> string \<Rightarrow> string \<Rightarrow> 'w build_step" where
  "build_image ul host b cfg rootfs rootDir =
     and_then (wrap ''create rootfs directory: '' (perform host (OpMkdirAll rootDir)))
     (and_then (buildRootfs ul host cfg rootDir)
     (and_then (wrap ''install guest agent: '' (installGuestAgent host rootDir (b_GuestAgent b)))
     (and_then (wrap ''write environment: '' (writeEnvironment host rootDir (case sc_Env cfg of None \<Rightarrow> [] | Some env \<Rightarrow> env)))
       (createFilesystemImage host rootDir rootfs (res_DiskMB (sc_Resources cfg))))))"

definition build_publish :: "'w host \<Rightarrow> 'w store \<Rightarrow> (manifest \<Rightarrow> string result) \<Rightarrow> builder \<Rightarrow> string \<Rightarrow> manifest \<Rightarrow> 'w build_step" where
  "build_publish host st enc b rootfs m =
     and_then (wrap ''upload kernel artifact: '' (PushArtifact host st (mf_Name m) ''vmlinux'' (b_Kernel b)))
     (and_then (wrap ''upload rootfs artifact: '' (PushArtifact host st (mf_Name m) ''rootfs.ext4'' rootfs))
       (wrap ''register snapshot: '' (registry_Put enc st m)))"

definition build_manifest :: "string \<Rightarrow> int \<Rightarrow> builder \<Rightarrow> snapshot_config \<Rightarrow> manifest" where
  "build_manifest digest clock b cfg =
     \<lparr>mf_Version = ManifestVersion, mf_Name = sc_Name cfg, ConfigDigest = digest, mf_KernelPath = ''vmlinux'',
      mf_RootfsPath = ''rootfs.ext4'', mf_GuestAgent = filepath_Clean (b_GuestAgent b), mf_CreatedAt = clock\<rparr>"

definition Build ::
  "(string \<Rightarrow> string) \<Rightarrow> (snapshot_config \<Rightarrow> string) \<Rightarrow> (manifest \<Rightarrow> string result) \<Rightarrow> int \<Rightarrow> 'w host \<Rightarrow> 'w store \<Rightarrow> builder
    \<Rightarrow> snapshot_config \<Rightarrow> string \<Rightarrow> 'w \<Rightarrow> manifest result \<times> 'w" where
  "Build ul digest enc clock host st b cfg rootfs w =
     (case config_Validate cfg of
        (Some err, _) \<Rightarrow> (Inl err, w)
      | (None, cfg) \<Rightarrow>
          if rootfs = [] then (Inl (Errorf ''rootfs path is required''), w)
          else let workDir = (if b_WorkDir b = [] then filepath_Dir rootfs else b_WorkDir b) in
            (case build_checks host b workDir w of
               (Some err, w) \<Rightarrow> (Inl err, w)
             | (None, w) \<Rightarrow>
                 with_temp host Inl ''create build workspace: '' workDir ''.shiyao-build-''
                   (\<lambda>buildDir w.
                      let m = build_manifest (digest cfg) clock b cfg
                      in case and_then (build_image ul host b cfg rootfs (filepath_Join [buildDir, ''rootfs'']))
                                (build_publish host st enc b rootfs m) w of
                           (Some err, w) \<Rightarrow> (Inl err, w)
                         | (None, w) \<Rightarrow> (Inr m, w)) w))"

section \<open>What a build leaves behind\<close>

text \<open>
  A host that records its calls with their answers, and what the record says: the mounts that are in place after it,
  whether directories are removed only while there are none, and whether every temporary directory is removed.
\<close>

type_synonym build_log = "(host_op \<times> host_ans) list"

definition log_host :: "(build_log \<Rightarrow> host_op \<Rightarrow> host_ans) \<Rightarrow> build_log host" where
  "log_host orc op log = (orc log op, log @ [(op, orc log op)])"

fun mount_step :: "host_op \<times> host_ans \<Rightarrow> string list \<Rightarrow> string list" where
  "mount_step (OpRun (c # args), a) M =
     (if host_err a \<noteq> None then M
      else if c = ''mount'' then last args # M
      else if c = ''umount'' then remove1 (last args) M
      else M)"
| "mount_step _ M = M"

definition mounts :: "build_log \<Rightarrow> string list \<Rightarrow> string list" where
  "mounts log M = fold mount_step log M"

fun is_umount :: "host_op \<Rightarrow> bool" where
  "is_umount (OpRun (c # args)) = (c = ''umount'')"
| "is_umount _ = False"

definition umount_failed :: "host_op \<times> host_ans \<Rightarrow> bool" where
  "umount_failed e \<longleftrightarrow> is_umount (fst e) \<and> host_err (snd e) \<noteq> None"

definition umount_done :: "host_op \<times> host_ans \<Rightarrow> bool" where
  "umount_done e \<longleftrightarrow> is_umount (fst e) \<and> host_err (snd e) = None"

fun clean_removals :: "build_log \<Rightarrow> string list \<Rightarrow> bool" where
  "clean_removals [] M = True"
| "clean_removals (e # es) M =
     ((case fst e of OpRemoveAll _ \<Rightarrow> M = [] | _ \<Rightarrow> True) \<and> clean_removals es (mount_step e M))"

definition temps_removed :: "build_log \<Rightarrow> bool" where
  "temps_removed log \<longleftrightarrow>
     list_all (\<lambda>e. case e of (OpMkdirTemp _ _, HFound d) \<Rightarrow> list_ex (\<lambda>e. fst e = OpRemoveAll d) log | _ \<Rightarrow> True) log"

text \<open>Calls that neither mount nor unmount, and make or remove no directory tree.\<close>

fun neutral_op :: "host_op \<Rightarrow> bool" where
  "neutral_op (OpRun (c # args)) = (c \<noteq> ''mount'' \<and> c \<noteq> ''umount'')"
| "neutral_op (OpRemoveAll d) = False"
| "neutral_op (OpMkdirTemp d p) = False"
| "neutral_op _ = True"

definition tidy_log :: "build_log \<Rightarrow> bool" where
  "tidy_log ext \<longleftrightarrow> temps_removed ext \<and> (list_ex umount_failed ext \<or> (\<forall>M. mounts ext M = M) \<and> clean_removals ext [])"

text \<open>A state with objects next to that of the host, and an S3 client whose buckets are those objects.\<close>

definition on_first :: "'a host \<Rightarrow> ('a \<times> files) host" where
  "on_first host op w = (case w of (x, obj) \<Rightarrow> (case host op x of (a, x) \<Rightarrow> (a, (x, obj))))"

definition bucket_client :: "(string \<Rightarrow> error option) \<Rightarrow> ('a \<times> files) s3_client" where
  "bucket_client fault =
     \<lparr>s3_PutObject = (\<lambda>bucket key body w.
        case fault key of
          Some err \<Rightarrow> (Some err, w)
        | None \<Rightarrow> (case snd body of Some err \<Rightarrow> (Some err, w) | None \<Rightarrow> (None, (fst w, (snd w)(key \<mapsto> fst body))))),
      s3_GetObject = (\<lambda>bucket key w.
        case snd w key of None \<Rightarrow> (Inl (Errorf ''NoSuchKey''), w) | Some d \<Rightarrow> (Inr (d, None), w))\<rparr>"

definition bucket_store :: "(string \<Rightarrow> error option) \<Rightarrow> string \<Rightarrow> ('a \<times> files) store" where
  "bucket_store fault bucket = S3Store (bucket_client fault) bucket"

text \<open>A host on which everything goes well, and what to build on it.\<close>

definition demo_build :: "build_log \<Rightarrow> host_op \<Rightarrow> host_ans" where
  "demo_build log op =
     (case op of OpMkdirTemp _ pattern \<Rightarrow> HFound (''/w/'' @ pattern) | OpOpen _ \<Rightarrow> HStream (''data'', None) | _ \<Rightarrow> HDone)"

definition demo_builder :: builder where
  "demo_builder = \<lparr>b_Kernel = ''/k'', b_GuestAgent = ''/a'', b_WorkDir = ''/w''\<rparr>"

definition demo_snapshot :: snapshot_config where
  "demo_snapshot =
     \<lparr>sc_Version = [], sc_Name = ''py'', sc_Description = [], sc_Runtime = \<lparr>rt_OS = [], rt_Distro = [], rt_Architecture = []\<rparr>,
      sc_Language = \<lparr>lang_Name = [], lang_Version = []\<rparr>, sc_Dependencies = \<lparr>dep_System = [], dep_Pip = [], dep_NPM = []\<rparr>,
      sc_Resources = \<lparr>res_VCPU = 1, res_MemoryMB = 128, res_DiskMB = 1024\<rparr>, sc_Env = None,
      sc_Network = \<lparr>AllowedDomains = [], BlockPrivateIPs = True\<rparr>\<rparr>"

text \<open>The same host, where neither a command in the new root nor an unmount works.\<close>

definition stuck_build :: "build_log \<Rightarrow> host_op \<Rightarrow> host_ans" where
  "stuck_build log op =
     (case op of
        OpRun (c # args) \<Rightarrow> if c = ''chroot'' \<or> c = ''umount'' then HFailed (Errorf ''EBUSY'') else HDone
      | _ \<Rightarrow> demo_build log op)"

definition rbinds_to :: "string \<Rightarrow> host_op \<Rightarrow> bool" where
  "rbinds_to dev op \<longleftrightarrow> (\<forall>t. op = OpRun [''mount'', ''--rbind'', ''/dev'', t] \<longrightarrow> t = dev)"

section \<open>Relations that a build respects\<close>

text \<open>
  The steps of the builder relate the state before and after by any reflexive and transitive relation that the calls
  of the host respect. \<open>ok\<close> are the calls for which it is known.
\<close>

definition extends :: "(build_log \<Rightarrow> bool) \<Rightarrow> build_log \<Rightarrow> build_log \<Rightarrow> bool" where
  "extends Q log log' \<longleftrightarrow> (\<exists>ext. log' = log @ ext \<and> Q ext)"

definition steps_in :: "('w \<Rightarrow> 'w \<Rightarrow> bool) \<Rightarrow> ('w \<Rightarrow> 'r \<times> 'w) \<Rightarrow> bool" where
  "steps_in R f \<longleftrightarrow> (\<forall>w. R w (snd (f w)))"

locale host_relation =
  fixes host :: "'w host" and R :: "'w \<Rightarrow> 'w \<Rightarrow> bool" and ok :: "host_op \<Rightarrow> bool"
  assumes R_refl: "R w w"
    and R_trans: "R u v \<Longrightarrow> R v w \<Longrightarrow> R u w"
    and host_step: "ok op \<Longrightarrow> R w (snd (host op w))"
begin

lemma obeysD: "steps_in R f \<Longrightarrow> f w = (r, w') \<Longrightarrow> R w w'"
  unfolding steps_in_def by (metis snd_conv)

lemma obeysI:
  assumes "\<And>w r w'. f w = (r, w') \<Longrightarrow> R w w'"
  shows "steps_in R f"
  unfolding steps_in_def using assms by (metis prod.collapse)

lemma obeys_perform: "ok op \<Longrightarrow> steps_in R (perform host op)"
  using host_step by (auto simp: steps_in_def perform_def split: prod.splits) (metis snd_conv)

lemma obeys_host: "ok op \<Longrightarrow> host op w = (a, w') \<Longrightarrow> R w w'"
  using host_step [of op w] by simp

lemma obeys_wrap: "steps_in R f \<Longrightarrow> steps_in R (wrap pre f)"
  by (rule obeysI) (auto simp: wrap_def dest: obeysD split: prod.splits option.splits)

lemma obeys_and_then: "steps_in R f \<Longrightarrow> steps_in R g \<Longrightarrow> steps_in R (and_then f g)"
  by (rule obeysI) (auto simp: and_then_def dest: obeysD intro: R_trans split: prod.splits option.splits)

lemma obeys_runCommand: "ok (OpRun (c # args)) \<Longrightarrow> steps_in R (runCommand host c args)"
  unfolding runCommand_def by (intro obeys_wrap obeys_perform)

lemma obeys_with_temp:
  assumes "ok (OpMkdirTemp dir pattern)" "\<And>d. ok (OpRemoveAll d)" "\<And>d. steps_in R (body d)"
  shows "steps_in R (with_temp host fail label dir pattern body)"
proof (rule obeysI)
  fix w r w'
  assume w: "with_temp host fail label dir pattern body w = (r, w')"
  obtain a w1 where a: "host (OpMkdirTemp dir pattern) w = (a, w1)" by (rule prod.exhaust)
  obtain r2 w2 where b: "body (found a) w1 = (r2, w2)" by (rule prod.exhaust)
  show "R w w'"
    using w a b obeys_host [OF assms(1) a] obeysD [OF assms(3) b] host_step [OF assms(2), of w2 "found a"]
    by (auto simp: with_temp_def intro: R_trans split: option.splits)
qed

lemma obeys_withChrootMounts:
  assumes "ok (OpRun [''mount'', ''--rbind'', ''/dev'', filepath_Join [rootDir, ''dev'']])"
    and "ok (OpRun [''mount'', ''-t'', ''proc'', ''proc'', filepath_Join [rootDir, ''proc'']])"
    and "\<And>args. ok (OpRun (''umount'' # args))" and "steps_in R fn"
  shows "steps_in R (withChrootMounts host rootDir fn)"
proof (rule obeysI)
  fix w r w'
  let ?dev = "filepath_Join [rootDir, ''dev'']" and ?proc = "filepath_Join [rootDir, ''proc'']"
  assume w: "withChrootMounts host rootDir fn w = (r, w')"
  obtain e1 w1 where 1: "wrap ''mount /dev: '' (runCommand host ''mount'' [''--rbind'', ''/dev'', ?dev]) w = (e1, w1)" by (rule prod.exhaust)
  obtain e2 w2 where 2: "wrap ''mount /proc: '' (runCommand host ''mount'' [''-t'', ''proc'', ''proc'', ?proc]) w1 = (e2, w2)" by (rule prod.exhaust)
  obtain e3 w3 where 3: "fn w2 = (e3, w3)" by (rule prod.exhaust)
  have um: "R w (snd (runCommand host ''umount'' args w))" for args w
    using obeys_runCommand [OF assms(3), of args] by (simp add: steps_in_def)
  note rel = obeysD [OF obeys_wrap [OF obeys_runCommand [OF assms(1)]] 1] obeysD [OF obeys_wrap [OF obeys_runCommand [OF assms(2)]] 2]
    obeysD [OF assms(4) 3]
  from w 1 2 3 have "w' = w1 \<or> w' = snd (runCommand host ''umount'' [''-R'', ''-l'', ?dev] w2)
    \<or> w' = snd (runCommand host ''umount'' [''-R'', ''-l'', ?dev] (snd (runCommand host ''umount'' [''-l'', ?proc] w3)))"
    by (auto simp: withChrootMounts_def Let_def split: option.splits)
  moreover have "R w w1" by (rule rel(1))
  moreover from this rel(2) have "R w w2" by (rule R_trans)
  moreover from this rel(3) have "R w w3" by (rule R_trans)
  moreover have "R w v \<Longrightarrow> R w (snd (runCommand host ''umount'' args v))" for args v using um by (blast intro: R_trans)
  ultimately show "R w w'" by (elim disjE) simp_all
qed

lemma obeys_populate:
  assumes "ok (OpRun [''mount'', ''-o'', ''loop'', output, mountDir])" "\<And>args. ok (OpRun (''umount'' # args))"
    and "\<And>args. ok (OpRun (''sh'' # args))"
  shows "steps_in R (populate host rootDir output mountDir)"
proof (rule obeysI)
  fix w r w'
  assume w: "populate host rootDir output mountDir w = (r, w')"
  obtain e1 w1 where 1: "wrap ''mount filesystem image: '' (runCommand host ''mount'' [''-o'', ''loop'', output, mountDir]) w = (e1, w1)"
    by (rule prod.exhaust)
  obtain e2 w2 where 2: "wrap ''populate filesystem image: '' (perform host (OpRun [''sh'', ''-c'', tar_script, ''sh'', rootDir, mountDir])) w1 = (e2, w2)"
    by (rule prod.exhaust)
  have "R w2 (snd (runCommand host ''umount'' [''-l'', mountDir] w2))"
    using obeys_runCommand [OF assms(2)] by (simp add: steps_in_def)
  moreover have "w' = w1 \<or> w' = snd (runCommand host ''umount'' [''-l'', mountDir] w2)"
    using w 1 2 by (auto simp: populate_def split: option.splits)
  moreover have a: "R w w1" by (rule obeysD [OF obeys_wrap [OF obeys_runCommand [OF assms(1)]] 1])
  moreover have "R w w2" by (rule R_trans [OF a obeysD [OF obeys_wrap [OF obeys_perform [OF assms(3)]] 2]])
  ultimately show "R w w'" by (blast intro: R_trans)
qed

lemma obeys_provision:
  assumes "\<And>args. ok (OpRun (''chroot'' # args))"
  shows "steps_in R (provision_root ul host cfg rootDir)"
proof -
  have c: "steps_in R (runChroot host rootDir args)" for args
    unfolding runChroot_def using assms by (rule obeys_runCommand)
  have p: "steps_in R (install_packages host label rootDir tool pkgs)" for label tool pkgs
    using obeysD [OF obeys_wrap [OF c]] by (intro obeysI) (auto simp: install_packages_def R_refl split: if_splits)
  have "steps_in R (installLanguage ul host rootDir language)" for language
    using obeysD [OF obeys_wrap [OF c]] by (intro obeysI) (auto simp: installLanguage_def R_refl simp del: map_of.simps split: if_splits option.splits)
  then show ?thesis unfolding provision_root_def by (intro obeys_and_then obeys_wrap c p)
qed

lemma obeys_agent:
  assumes "\<And>op. neutral_op op \<Longrightarrow> ok op"
  shows "steps_in R (installGuestAgent host rootDir guestAgent)"
proof -
  let ?dst = "filepath_Join [rootDir, ''usr'', ''local'', ''bin'', ''shiyao-agent'']"
  have w: "steps_in R (and_then (perform host (OpCreate ?dst)) (and_then (perform host (OpCopy ?dst r)) (perform host (OpChmod ?dst))))" for r
    using assms by (intro obeys_and_then obeys_perform) simp_all
  show ?thesis
    unfolding installGuestAgent_def Let_def
  proof (intro obeys_and_then obeys_perform obeysI)
    fix w r w'
    obtain a w1 where a: "host (OpOpen guestAgent) w = (a, w1)" by (rule prod.exhaust)
    have "R w w1" using obeys_host [OF assms a] by simp
    moreover assume "(case host (OpOpen guestAgent) w of (a, w) \<Rightarrow>
        (case host_err a of None \<Rightarrow> and_then (perform host (OpCreate ?dst)) (and_then (perform host (OpCopy ?dst (stream a))) (perform host (OpChmod ?dst))) w
         | Some err \<Rightarrow> (Some err, w))) = (r, w')"
    ultimately show "R w w'"
      using a obeysD [OF w, of "stream a" w1] by (auto intro: R_trans split: option.splits)
  qed (use assms in simp)
qed

lemma obeys_environment:
  assumes "\<And>op. neutral_op op \<Longrightarrow> ok op"
  shows "steps_in R (writeEnvironment host rootDir env)"
proof -
  have p: "neutral_op op \<Longrightarrow> steps_in R (perform host op)" for op using assms by (rule obeys_perform)
  have "steps_in R (\<lambda>w. case env_lines env of Inl err \<Rightarrow> (Some err, w)
      | Inr lines \<Rightarrow> perform host (OpWriteFile (env_path rootDir) (Join lines [CHR 0x0A] @ [CHR 0x0A])) w)"
    using p by (cases "env_lines env") (simp_all add: steps_in_def R_refl)
  then have "steps_in R (and_then (perform host (OpMkdirAll (filepath_Dir (env_path rootDir))))
      (\<lambda>w. case env_lines env of Inl err \<Rightarrow> (Some err, w)
      | Inr lines \<Rightarrow> perform host (OpWriteFile (env_path rootDir) (Join lines [CHR 0x0A] @ [CHR 0x0A])) w))"
    by (intro obeys_and_then p) simp_all
  then show ?thesis by (cases "env = []") (simp_all add: steps_in_def writeEnvironment_def R_refl)
qed

lemma obeys_rootfs:
  assumes "\<And>op. neutral_op op \<Longrightarrow> ok op"
    and "steps_in R (withChrootMounts host rootDir (provision_root ul host cfg rootDir))"
  shows "steps_in R (buildRootfs ul host cfg rootDir)"
proof -
  have "steps_in R (copy_resolv host rootDir)"
  proof (rule obeysI)
    fix w r w'
    assume c: "copy_resolv host rootDir w = (r, w')"
    obtain a w1 where a: "host (OpReadFile ''/etc/resolv.conf'') w = (a, w1)" by (rule prod.exhaust)
    have "R w w1" using obeys_host [OF assms(1) a] by simp
    moreover have "R w1 (snd (host (OpWriteFile p d) w1))" for p d using host_step [OF assms(1)] by simp
    ultimately show "R w w'" using c a by (auto simp: copy_resolv_def intro: R_trans split: option.splits)
  qed
  then have "steps_in R (and_then (wrap pre (runCommand host ''debootstrap'' args)) (and_then (copy_resolv host rootDir)
      (withChrootMounts host rootDir (provision_root ul host cfg rootDir))))" for pre args
    using assms by (intro obeys_and_then obeys_wrap obeys_runCommand) simp_all
  then show ?thesis
    by (auto simp: steps_in_def buildRootfs_def R_refl simp del: map_of.simps split: sum.splits prod.splits)
qed

lemma obeys_image:
  assumes "\<And>op. neutral_op op \<Longrightarrow> ok op"
    and "steps_in R (withChrootMounts host rootDir (provision_root ul host cfg rootDir))"
    and "steps_in R (with_temp host Some ''create image mount directory: '' (filepath_Dir rootfs) ''.shiyao-mount-'' (populate host rootDir rootfs))"
  shows "steps_in R (build_image ul host b cfg rootfs rootDir)"
proof -
  have p: "neutral_op op \<Longrightarrow> steps_in R (perform host op)" for op using assms(1) by (rule obeys_perform)
  have c: "c \<noteq> ''mount'' \<Longrightarrow> c \<noteq> ''umount'' \<Longrightarrow> steps_in R (runCommand host c args)" for c args
    using assms(1) by (intro obeys_runCommand) simp
  show ?thesis
    unfolding build_image_def createFilesystemImage_def
    by (intro obeys_and_then obeys_wrap p c obeys_rootfs obeys_agent obeys_environment assms) simp_all
qed

lemma obeys_publish:
  assumes "\<And>op. neutral_op op \<Longrightarrow> ok op" and "\<And>k r. steps_in R (PutObject st k r)"
  shows "steps_in R (build_publish host st enc b rootfs m)"
proof -
  have "steps_in R (PushArtifact host st name art path)" for name art path
  proof (rule obeysI)
    fix w r w'
    assume p: "PushArtifact host st name art path w = (r, w')"
    obtain a w1 where a: "host (OpOpen path) w = (a, w1)" by (rule prod.exhaust)
    have "R w w1" using obeys_host [OF assms(1) a] by simp
    then show "R w w'" using p a obeysD [OF assms(2), of "object_key name art" "stream a" w1]
      by (auto simp: PushArtifact_def intro: R_trans split: option.splits)
  qed
  moreover have "steps_in R (registry_Put enc st m)"
    using obeysD [OF assms(2)] by (intro obeysI) (auto simp: registry_Put_def R_refl split: if_splits sum.splits)
  ultimately show ?thesis unfolding build_publish_def by (intro obeys_and_then obeys_wrap)
qed

lemma obeys_checks: "(\<And>op. neutral_op op \<Longrightarrow> ok op) \<Longrightarrow> steps_in R (build_checks host b workDir)"
  unfolding build_checks_def by (intro obeys_and_then obeys_wrap obeys_perform) simp_all

end

section \<open>Records of a build\<close>

lemma mounts_simps [simp]: "mounts [] M = M" "mounts (e # es) M = mounts es (mount_step e M)" "mounts (xs @ ys) M = mounts ys (mounts xs M)"
  by (simp_all add: mounts_def)

lemma clean_removals_append [simp]: "clean_removals (xs @ ys) M \<longleftrightarrow> clean_removals xs M \<and> clean_removals ys (mounts xs M)"
  by (induction xs arbitrary: M) auto

lemma temps_removed_iff:
  "temps_removed log \<longleftrightarrow> (\<forall>x y d. (OpMkdirTemp x y, HFound d) \<in> set log \<longrightarrow> (\<exists>a. (OpRemoveAll d, a) \<in> set log))"
proof -
  have "(case e of (OpMkdirTemp _ _, HFound d) \<Rightarrow> P d | _ \<Rightarrow> True) \<longleftrightarrow> (\<forall>x y d. e = (OpMkdirTemp x y, HFound d) \<longrightarrow> P d)" for e P
    by (cases e; cases "fst e"; cases "snd e") simp_all
  then have "temps_removed log \<longleftrightarrow> (\<forall>e \<in> set log. \<forall>x y d. e = (OpMkdirTemp x y, HFound d) \<longrightarrow> list_ex (\<lambda>e. fst e = OpRemoveAll d) log)"
    by (simp only: temps_removed_def list_all_iff)
  moreover have "list_ex (\<lambda>e. fst e = OpRemoveAll d) log \<longleftrightarrow> (\<exists>a. (OpRemoveAll d, a) \<in> set log)" for d
    by (force simp: list_ex_iff)
  ultimately show ?thesis by blast
qed

lemma temps_removed_append: "temps_removed xs \<Longrightarrow> temps_removed ys \<Longrightarrow> temps_removed (xs @ ys)"
  unfolding temps_removed_iff set_append by blast

lemma neutral_step: "neutral_op (fst e) \<Longrightarrow> mount_step e M = M"
  by (cases "(e, M)" rule: mount_step.cases) auto

lemma neutral_log:
  assumes "list_all (neutral_op \<circ> fst) log"
  shows "mounts log M = M" "clean_removals log M" "temps_removed log"
proof -
  show "mounts log M = M" using assms by (induction log) (simp_all add: neutral_step)
  show "clean_removals log M" using assms by (induction log) (auto simp: neutral_step split: host_op.splits)
  show "temps_removed log"
    using assms unfolding temps_removed_iff by (force simp: list_all_iff)
qed

lemma tidy_neutral: "list_all (neutral_op \<circ> fst) log \<Longrightarrow> tidy_log log"
  by (simp add: tidy_log_def neutral_log)

lemma tidy_append: "tidy_log xs \<Longrightarrow> tidy_log ys \<Longrightarrow> tidy_log (xs @ ys)"
  by (auto simp: tidy_log_def temps_removed_append)

lemma extends_rel:
  assumes "Q []" "\<And>xs ys. Q xs \<Longrightarrow> Q ys \<Longrightarrow> Q (xs @ ys)" "\<And>op a. ok op \<Longrightarrow> Q [(op, a)]"
  shows "host_relation (log_host orc) (extends Q) ok"
proof unfold_locales
  fix u v w op
  show "extends Q w w" using assms(1) by (simp add: extends_def)
  show "extends Q u w" if "extends Q u v" "extends Q v w"
    using that assms(2) unfolding extends_def by (metis append.assoc)
  show "extends Q w (snd (log_host orc op w))" if "ok op"
    using assms(3) [OF that] by (auto simp: extends_def log_host_def)
qed

interpretation tidy: host_relation "log_host orc" "extends tidy_log" neutral_op
  by (rule extends_rel) (simp_all add: tidy_neutral tidy_append)

interpretation neutral: host_relation "log_host orc" "extends (list_all (neutral_op \<circ> fst))" neutral_op
  by (rule extends_rel) simp_all

lemma run_log:
  "runCommand (log_host orc) c args log =
     (case host_err (orc log (OpRun (c # args))) of None \<Rightarrow> None | Some err \<Rightarrow> Some (Wrapf (c @ '' '' @ Join args '' '' @ '': '') err []),
      log @ [(OpRun (c # args), orc log (OpRun (c # args)))])"
  by (simp add: runCommand_def wrap_def perform_def log_host_def split: option.splits)

lemma tidy_with_temp:
  assumes "\<And>d. steps_in (extends tidy_log) (body d)"
  shows "steps_in (extends tidy_log) (with_temp (log_host orc) fail label dir pattern body)"
proof (rule tidy.obeysI)
  fix log r log'
  let ?a = "orc log (OpMkdirTemp dir pattern)"
  let ?log = "log @ [(OpMkdirTemp dir pattern, ?a)]"
  assume w: "with_temp (log_host orc) fail label dir pattern body log = (r, log')"
  obtain r1 log1 where b: "body (found ?a) ?log = (r1, log1)" by (rule prod.exhaust)
  then obtain ext where ext: "log1 = ?log @ ext" "tidy_log ext" using tidy.obeysD [OF assms b] by (auto simp: extends_def)
  have m: "mount_step (OpMkdirTemp dir pattern, ?a) M = M" "mount_step (OpRemoveAll d, c) M = M" for M d c by simp_all
  show "extends tidy_log log log'"
  proof (cases "host_err ?a")
    case None
    then obtain b where l: "log' = log @ ((OpMkdirTemp dir pattern, ?a) # ext @ [(OpRemoveAll (found ?a), b)])"
      using w b ext by (auto simp: with_temp_def log_host_def)
    have "temps_removed ((OpMkdirTemp dir pattern, ?a) # ext @ [(OpRemoveAll (found ?a), b)])"
    proof -
      have f: "HFound d = ?a \<Longrightarrow> found ?a = d" for d by (metis found.simps(1))
      have t: "temps_removed ext" using ext(2) by (simp add: tidy_log_def)
      show ?thesis unfolding temps_removed_iff
      proof (intro allI impI)
        fix x y d
        assume "(OpMkdirTemp x y, HFound d) \<in> set ((OpMkdirTemp dir pattern, ?a) # ext @ [(OpRemoveAll (found ?a), b)])"
        then have "HFound d = ?a \<or> (OpMkdirTemp x y, HFound d) \<in> set ext" by auto
        then show "\<exists>a. (OpRemoveAll d, a) \<in> set ((OpMkdirTemp dir pattern, ?a) # ext @ [(OpRemoveAll (found ?a), b)])"
        proof
          assume "(OpMkdirTemp x y, HFound d) \<in> set ext"
          with t show ?thesis unfolding temps_removed_iff by fastforce
        qed (use f in auto)
      qed
    qed
    then have "tidy_log ((OpMkdirTemp dir pattern, ?a) # ext @ [(OpRemoveAll (found ?a), b)])"
      using ext(2) m by (auto simp: tidy_log_def)
    then show ?thesis using l by (auto simp: extends_def)
  next
    case (Some err)
    then have "tidy_log [(OpMkdirTemp dir pattern, ?a)]"
      by (cases ?a) (simp_all add: tidy_log_def temps_removed_iff)
    then show ?thesis using w Some by (auto simp: with_temp_def log_host_def extends_def)
  qed
qed

lemma tidy_withChrootMounts:
  assumes "steps_in (extends (list_all (neutral_op \<circ> fst))) fn"
  shows "steps_in (extends tidy_log) (withChrootMounts (log_host orc) rootDir fn)"
proof (rule tidy.obeysI)
  fix log r log'
  let ?dev = "filepath_Join [rootDir, ''dev'']" and ?proc = "filepath_Join [rootDir, ''proc'']"
  let ?d = "OpRun [''mount'', ''--rbind'', ''/dev'', ?dev]" and ?p = "OpRun [''mount'', ''-t'', ''proc'', ''proc'', ?proc]"
    and ?ud = "OpRun [''umount'', ''-R'', ''-l'', ?dev]" and ?up = "OpRun [''umount'', ''-l'', ?proc]"
  assume w: "withChrootMounts (log_host orc) rootDir fn log = (r, log')"
  let ?l1 = "log @ [(?d, orc log ?d)]"
  let ?l2 = "?l1 @ [(?p, orc ?l1 ?p)]"
  obtain e3 l3 where f: "fn ?l2 = (e3, l3)" by (rule prod.exhaust)
  then obtain ext where ext: "l3 = ?l2 @ ext" "list_all (neutral_op \<circ> fst) ext"
    using neutral.obeysD [OF assms f] by (auto simp: extends_def)
  have t: "tidy_log [(?d, a)]" if "host_err a \<noteq> None" for a
    using that by (simp add: tidy_log_def temps_removed_iff)
  have t2: "tidy_log [(?d, a), (?p, b), (?ud, c)]" if "host_err a = None" "host_err b \<noteq> None" for a b c
    using that by (auto simp: tidy_log_def temps_removed_iff umount_failed_def)
  have t3: "tidy_log ((?d, a) # (?p, b) # ext @ [(?up, c), (?ud, d)])" if "host_err a = None" "host_err b = None" for a b c d
    using that neutral_log [OF ext(2)] by (auto simp: tidy_log_def temps_removed_iff umount_failed_def)
  show "extends tidy_log log log'"
  proof (cases "host_err (orc log ?d)")
    case (Some e)
    then show ?thesis using w t [of "orc log ?d"] by (auto simp: withChrootMounts_def Let_def wrap_def run_log extends_def)
  next
    case dev: None
    show ?thesis
    proof (cases "host_err (orc ?l1 ?p)")
      case (Some e)
      then show ?thesis using w dev t2 [of "orc log ?d" "orc ?l1 ?p"]
        by (auto simp: withChrootMounts_def Let_def wrap_def run_log extends_def)
    next
      case None
      then show ?thesis using w dev f ext t3 [of "orc log ?d" "orc ?l1 ?p"]
        by (auto simp: withChrootMounts_def Let_def wrap_def run_log extends_def)
    qed
  qed
qed

lemma tidy_populate: "steps_in (extends tidy_log) (populate (log_host orc) rootDir output mountDir)"
proof (rule tidy.obeysI)
  fix log r log'
  let ?m = "OpRun [''mount'', ''-o'', ''loop'', output, mountDir]" and ?t = "OpRun [''sh'', ''-c'', tar_script, ''sh'', rootDir, mountDir]"
    and ?u = "OpRun [''umount'', ''-l'', mountDir]"
  assume w: "populate (log_host orc) rootDir output mountDir log = (r, log')"
  have "tidy_log [(?m, a)]" if "host_err a \<noteq> None" for a using that by (simp add: tidy_log_def temps_removed_iff)
  moreover have "tidy_log [(?m, a), (?t, b), (?u, c)]" if "host_err a = None" for a b c
    using that by (auto simp: tidy_log_def temps_removed_iff umount_failed_def)
  ultimately show "extends tidy_log log log'"
    using w by (cases "host_err (orc log ?m)") (auto simp: populate_def wrap_def run_log perform_def log_host_def extends_def split: option.splits)
qed

lemma local_store_neutral: "steps_in (extends (list_all (neutral_op \<circ> fst))) (PutObject (LocalStore (log_host orc) root) k r)"
proof (rule neutral.obeysI)
  fix log e log'
  assume "PutObject (LocalStore (log_host orc) root) k r log = (e, log')"
  then show "extends (list_all (neutral_op \<circ> fst)) log log'"
    by (auto simp: LocalStore_def local_PutObject_def write_object_def perform_def log_host_def extends_def split: option.splits)
qed

lemma local_store_tidy: "steps_in (extends tidy_log) (PutObject (LocalStore (log_host orc) root) k r)"
  using local_store_neutral tidy_neutral unfolding steps_in_def extends_def by blast

lemma tidy_image: "steps_in (extends tidy_log) (build_image ul (log_host orc) b cfg rootfs rootDir)"
proof -
  have "steps_in (extends tidy_log) (withChrootMounts (log_host orc) rootDir (provision_root ul (log_host orc) cfg rootDir))"
    by (intro tidy_withChrootMounts neutral.obeys_provision) simp
  then show ?thesis by (intro tidy.obeys_image tidy_with_temp tidy_populate)
qed

text \<open>The shape of a run of \<open>Build\<close>: it ends before the workspace is made, or within \<open>with_temp\<close>.\<close>

lemma Build_cases:
  assumes "Build ul digest enc clock host st b cfg rootfs w = (r, w')"
  obtains (rejected) "w' = w" "\<exists>err. r = Inl err"
  | (aborted) err workDir where "build_checks host b workDir w = (Some err, w')" "r = Inl err"
  | (workspace) workDir w1 where "config_check (applyDefaults cfg) = None" "build_checks host b workDir w = (None, w1)"
      "with_temp host Inl ''create build workspace: '' workDir ''.shiyao-build-''
         (\<lambda>buildDir w. case and_then (build_image ul host b (applyDefaults cfg) rootfs (filepath_Join [buildDir, ''rootfs'']))
              (build_publish host st enc b rootfs (build_manifest (digest (applyDefaults cfg)) clock b (applyDefaults cfg))) w of
            (Some err, w) \<Rightarrow> (Inl err, w)
          | (None, w) \<Rightarrow> (Inr (build_manifest (digest (applyDefaults cfg)) clock b (applyDefaults cfg)), w)) w1 = (r, w')"
proof (cases "config_check (applyDefaults cfg)")
  case (Some err)
  then show ?thesis using assms rejected by (auto simp: Build_def config_Validate_def)
next
  case c: None
  show ?thesis
  proof (cases "rootfs = []")
    case True
    then show ?thesis using assms c rejected by (auto simp: Build_def config_Validate_def)
  next
    case False
    let ?wd = "if b_WorkDir b = [] then filepath_Dir rootfs else b_WorkDir b"
    obtain e w1 where k: "build_checks host b ?wd w = (e, w1)" by (rule prod.exhaust)
    show ?thesis
    proof (cases e)
      case None
      then show ?thesis using assms c False k by (intro workspace [of ?wd w1]) (auto simp: Build_def config_Validate_def Let_def)
    next
      case (Some err)
      then show ?thesis using assms c False k by (intro aborted [of ?wd err]) (auto simp: Build_def config_Validate_def Let_def)
    qed
  qed
qed

text \<open>
  C12. A build cleans up after itself. Whatever the host answers, and at whatever step the build stops: every temporary
  directory that was made has been removed again; and unless an unmount failed, no mount is left, and
  nothing was removed while a mount was in place.
\<close>

theorem build_tidy:
  assumes "Build ul digest enc clock (log_host orc) (LocalStore (log_host orc) root) b cfg rootfs [] = (r, log)"
  shows "temps_removed log \<and> (list_ex umount_failed log \<or> mounts log [] = [] \<and> clean_removals log [])"
proof -
  have checks: "steps_in (extends tidy_log) (build_checks (log_host orc) b workDir)" for workDir
    by (rule tidy.obeys_checks)
  have "steps_in (extends tidy_log) (\<lambda>w. case and_then (build_image ul (log_host orc) b c rootfs (filepath_Join [d, ''rootfs'']))
      (build_publish (log_host orc) (LocalStore (log_host orc) root) enc b rootfs m) w of (Some err, w) \<Rightarrow> (Inl err, w) | (None, w) \<Rightarrow> (Inr m, w))" for c d m
    using tidy.obeysD [OF tidy.obeys_and_then [OF tidy_image tidy.obeys_publish [OF _ local_store_tidy]]]
    by (intro tidy.obeysI) (auto split: prod.splits option.splits)
  note body = tidy_with_temp [OF this]
  from assms have "extends tidy_log [] log"
  proof (cases rule: Build_cases)
    case rejected
    then show ?thesis by (simp add: tidy.R_refl)
  next
    case (aborted err workDir)
    with tidy.obeysD [OF checks] show ?thesis by blast
  next
    case (workspace workDir log1)
    from tidy.R_trans [OF tidy.obeysD [OF checks workspace(2)] tidy.obeysD [OF body workspace(3)]] show ?thesis .
  qed
  then show ?thesis by (auto simp: extends_def tidy_log_def)
qed

theorem build_tidy_witness:
  "\<exists>r log. Build (\<lambda>s. s) (\<lambda>_. ''d'') (\<lambda>_. Inr ''{}'') 0 (log_host demo_build) (LocalStore (log_host demo_build) ''/srv'') demo_builder demo_snapshot ''/img/rootfs.ext4'' [] = (r, log)
     \<and> temps_removed log \<and> (list_ex umount_failed log \<or> mounts log [] = [] \<and> clean_removals log [])"
proof -
  obtain r log where b: "Build (\<lambda>s. s) (\<lambda>_. ''d'') (\<lambda>_. Inr ''{}'') 0 (log_host demo_build) (LocalStore (log_host demo_build) ''/srv'') demo_builder
      demo_snapshot ''/img/rootfs.ext4'' [] = (r, log)" by (rule prod.exhaust)
  from build_tidy [OF b] b show ?thesis by blast
qed

lemma mounts_grow: "\<not> list_ex umount_done log \<Longrightarrow> set M \<subseteq> set (mounts log M)"
proof (induction log arbitrary: M)
  case (Cons e log)
  have "set M \<subseteq> set (mount_step e M)"
    using Cons.prems by (cases "(e, M)" rule: mount_step.cases) (auto simp: umount_done_def)
  with Cons show ?case by fastforce
qed simp

lemma mounted_stays:
  assumes "\<not> list_ex umount_done log" "(OpRun (''mount'' # args), a) \<in> set log" "host_err a = None"
  shows "last args \<in> set (mounts log M)"
proof -
  obtain xs ys where "log = xs @ (OpRun (''mount'' # args), a) # ys" using assms(2) by (meson split_list)
  with assms(1,3) mounts_grow [of ys "last args # mounts xs M"] show ?thesis by auto
qed

lemma extends_neutral_no:
  assumes "extends (list_all (neutral_op \<circ> fst)) log log'" "e \<in> set log'" "e \<notin> set log"
  shows "neutral_op (fst e)"
  using assms by (auto simp: extends_def list_all_iff)

interpretation only_dev: host_relation "log_host orc" "extends (list_all (rbinds_to dev \<circ> fst))" "rbinds_to dev"
  by (rule extends_rel) simp_all

lemma image_rbinds: "steps_in (extends (list_all (rbinds_to (filepath_Join [rootDir, ''dev'']) \<circ> fst))) (build_image ul (log_host orc) b cfg rootfs rootDir)"
proof -
  have n: "neutral_op op \<Longrightarrow> rbinds_to dev op" for op dev by (cases op rule: neutral_op.cases) (auto simp: rbinds_to_def)
  show ?thesis
    by (intro only_dev.obeys_image only_dev.obeys_withChrootMounts only_dev.obeys_provision only_dev.obeys_with_temp only_dev.obeys_populate)
       (auto simp: rbinds_to_def n)
qed

text \<open>
  C37. If the unmount of the devices fails, the build removes them. The error of the command is ignored, and the last thing a build does
  is to remove its workspace with everything below it, in which the devices of the host are still mounted.
\<close>

theorem build_removes_devices:
  assumes "Build ul digest enc clock (log_host orc) (LocalStore (log_host orc) root) b cfg rootfs [] = (r, log)"
    and "(OpRun [''mount'', ''--rbind'', ''/dev'', dev], a) \<in> set log" and "host_err a = None" and "\<not> list_ex umount_done log"
  shows "\<exists>pre d c. log = pre @ [(OpRemoveAll d, c)] \<and> dev = filepath_Join [filepath_Join [d, ''rootfs''], ''dev''] \<and> dev \<in> set (mounts pre [])"
proof -
  let ?H = "log_host orc" and ?c = "applyDefaults cfg" and ?e = "(OpRun [''mount'', ''--rbind'', ''/dev'', dev], a)"
  let ?m = "build_manifest (digest ?c) clock b ?c"
  have checks: "?e \<notin> set l" if "build_checks ?H b workDir [] = (x, l)" for workDir x l
    using extends_neutral_no [OF neutral.obeysD [OF neutral.obeys_checks that]] by fastforce
  from assms(1) show ?thesis
  proof (cases rule: Build_cases)
    case rejected
    with assms(2) show ?thesis by simp
  next
    case (aborted err workDir)
    with checks assms(2) show ?thesis by blast
  next
    case (workspace workDir log1)
    let ?d = "found (orc log1 (OpMkdirTemp workDir ''.shiyao-build-''))"
    let ?l = "log1 @ [(OpMkdirTemp workDir ''.shiyao-build-'', orc log1 (OpMkdirTemp workDir ''.shiyao-build-''))]"
    let ?dev = "filepath_Join [filepath_Join [?d, ''rootfs''], ''dev'']"
    note n1 = checks [OF workspace(2)]
    obtain e1 l1 where i: "build_image ul ?H b ?c rootfs (filepath_Join [?d, ''rootfs'']) ?l = (e1, l1)" by (rule prod.exhaust)
    obtain e2 l2 where p: "build_publish ?H (LocalStore ?H root) enc b rootfs ?m l1 = (e2, l2)" by (rule prod.exhaust)
    have dev: "dev = ?dev" if "?e \<in> set l1"
      using only_dev.obeysD [OF image_rbinds i] that n1 by (fastforce simp: extends_def list_all_iff rbinds_to_def)
    have dev2: "dev = ?dev" if "?e \<in> set l2"
      using extends_neutral_no [OF neutral.obeysD [OF neutral.obeys_publish [OF _ local_store_neutral] p] that] dev by fastforce
    have "log = ?l \<or> (\<exists>pre c. log = pre @ [(OpRemoveAll ?d, c)] \<and> (pre = l1 \<or> pre = l2))"
      using workspace(3) i p by (auto simp: with_temp_def log_host_def and_then_def split: option.splits)
    moreover have "log \<noteq> ?l" using assms(2) n1 by auto
    ultimately obtain pre c where pre: "log = pre @ [(OpRemoveAll ?d, c)]" "pre = l1 \<or> pre = l2" by blast
    then have "?e \<in> set pre" using assms(2) by auto
    moreover have "\<not> list_ex umount_done pre" using assms(4) pre(1) by simp
    ultimately have "dev = ?dev" "dev \<in> set (mounts pre [])"
      using pre(2) dev dev2 mounted_stays [of pre "[''--rbind'', ''/dev'', dev]" a "[]"] assms(3) by auto
    with pre(1) show ?thesis by blast
  qed
qed

theorem build_removes_devices_witness:
  "\<exists>r pre c. Build (\<lambda>s. s) (\<lambda>_. ''d'') (\<lambda>_. Inr ''{}'') 0 (log_host stuck_build) (LocalStore (log_host stuck_build) ''/srv'') demo_builder
       demo_snapshot ''/img/rootfs.ext4'' [] = (r, pre @ [(OpRemoveAll ''/w/.shiyao-build-'', c)])
     \<and> ''/w/.shiyao-build-/rootfs/dev'' \<in> set (mounts pre [])"
proof -
  let ?dev = "''/w/.shiyao-build-/rootfs/dev''"
  obtain r log where b: "Build (\<lambda>s. s) (\<lambda>_. ''d'') (\<lambda>_. Inr ''{}'') 0 (log_host stuck_build) (LocalStore (log_host stuck_build) ''/srv'') demo_builder
      demo_snapshot ''/img/rootfs.ext4'' [] = (r, log)" by (rule prod.exhaust)
  have paths: "filepath_Join [''/w/.shiyao-build-'', ''rootfs''] = ''/w/.shiyao-build-/rootfs''"
    "filepath_Join [''/w/.shiyao-build-/rootfs'', ''dev''] = ?dev"
    by (simp_all add: filepath_Join_def filepath_Clean_def path_segs_def is_rooted_def HasPrefix_def)
  have "(OpRun [''mount'', ''--rbind'', ''/dev'', ?dev], HDone) \<in> set log \<and> \<not> list_ex umount_done log
      \<and> last log = (OpRemoveAll ''/w/.shiyao-build-'', HDone)"
    using b paths
    by (auto simp: Build_def config_Validate_def config_check_def applyDefaults_def demo_snapshot_def or_default_def demo_builder_def Let_def
        build_checks_def build_image_def buildRootfs_def and_then_def wrap_def perform_def log_host_def stuck_build_def demo_build_def
        with_temp_def distroSource_def ToLower_def is_ascii_def ascii_lower_def run_log copy_resolv_def withChrootMounts_def
        provision_root_def runChroot_def umount_done_def)
  with build_removes_devices [OF b, of ?dev HDone] obtain pre where
    "log = pre @ [(OpRemoveAll ''/w/.shiyao-build-'', HDone)]" "?dev \<in> set (mounts pre [])" by auto
  with b show ?thesis by blast
qed

section \<open>What a build publishes\<close>

interpretation bucket_objects: object_store "PutObject (bucket_store fault bucket)" "GetObject (bucket_store fault' bucket)" "(=)"
  by unfold_locales (auto simp: bucket_store_def S3Store_def bucket_client_def split: option.splits prod.splits)

interpretation objects_kept: host_relation "on_first host" "\<lambda>w w'. snd w' = snd w" "\<lambda>_. True"
  by unfold_locales (auto simp: on_first_def split: prod.splits)

lemma bucket_put:
  assumes "PutObject (bucket_store fault bucket) k r w = (e, w')"
  shows "(\<exists>err. e = Some err) \<and> w' = w \<or> e = None \<and> w' = (fst w, (snd w)(k \<mapsto> fst r))"
  using assms by (auto simp: bucket_store_def S3Store_def bucket_client_def split: option.splits)

lemma bucket_push:
  assumes "PushArtifact (on_first host) (bucket_store fault bucket) name art path w = (e, w')"
  shows "e \<noteq> None \<and> snd w' = snd w \<or> e = None \<and> (\<exists>d. snd w' = (snd w)(object_key name art \<mapsto> d))"
proof -
  obtain a w1 where a: "on_first host (OpOpen path) w = (a, w1)" by (rule prod.exhaust)
  have "snd w1 = snd w" using objects_kept.obeys_host [OF _ a] by simp
  then show ?thesis
    using assms a bucket_put [of fault bucket "object_key name art" "stream a" w1 e w']
    by (auto simp: PushArtifact_def split: option.splits)
qed

lemma bucket_register:
  assumes "registry_Put enc (bucket_store fault bucket) m w = (e, w')"
  shows "e \<noteq> None \<and> snd w' = snd w \<or> e = None \<and> (\<exists>data. enc m = Inr data \<and> snd w' = (snd w)(object_key (mf_Name m) ''manifest.json'' \<mapsto> data))"
proof (cases "enc m")
  case (Inr data)
  then show ?thesis
    using assms bucket_put [of fault bucket "object_key (mf_Name m) ''manifest.json''" "(data, None)" w e w']
    by (auto simp: registry_Put_def split: if_splits)
qed (use assms in \<open>auto simp: registry_Put_def split: if_splits\<close>)

lemma image_keeps:
  assumes "build_image ul (on_first host) b cfg rootfs rootDir w = (e, w')"
  shows "snd w' = snd w"
proof -
  have "steps_in (\<lambda>w w'. snd w' = snd w) (build_image ul (on_first host) b cfg rootfs rootDir)"
    by (intro objects_kept.obeys_image objects_kept.obeys_withChrootMounts objects_kept.obeys_provision objects_kept.obeys_with_temp
        objects_kept.obeys_populate TrueI)
  from objects_kept.obeysD [OF this assms] show ?thesis .
qed

lemma with_temp_run:
  assumes "with_temp host fail label dir pattern body w = (r, w')" "host (OpMkdirTemp dir pattern) w = (a, w1)" "host_err a = None"
    and "body (found a) w1 = (rb, w2)"
  shows "r = rb \<and> w' = snd (host (OpRemoveAll (found a)) w2)"
  using assms by (simp add: with_temp_def)

lemma publish_objects:
  assumes "build_publish (on_first host) (bucket_store fault bucket) enc b rootfs m w = (e, w')"
  shows "\<exists>k f. e = None \<and> (\<exists>data. enc m = Inr data \<and> snd w' = (snd w)(object_key (mf_Name m) ''vmlinux'' \<mapsto> k,
        object_key (mf_Name m) ''rootfs.ext4'' \<mapsto> f, object_key (mf_Name m) ''manifest.json'' \<mapsto> data))
    \<or> e \<noteq> None \<and> snd w' \<in> {snd w, (snd w)(object_key (mf_Name m) ''vmlinux'' \<mapsto> k),
        (snd w)(object_key (mf_Name m) ''vmlinux'' \<mapsto> k, object_key (mf_Name m) ''rootfs.ext4'' \<mapsto> f)}"
proof -
  let ?st = "bucket_store fault bucket" and ?H = "on_first host"
  obtain e1 w1 where 1: "PushArtifact ?H ?st (mf_Name m) ''vmlinux'' (b_Kernel b) w = (e1, w1)" by (rule prod.exhaust)
  obtain e2 w2 where 2: "PushArtifact ?H ?st (mf_Name m) ''rootfs.ext4'' rootfs w1 = (e2, w2)" by (rule prod.exhaust)
  obtain e3 w3 where 3: "registry_Put enc ?st m w2 = (e3, w3)" by (rule prod.exhaust)
  have "e1 \<noteq> None \<and> e \<noteq> None \<and> w' = w1 \<or> e1 = None \<and> e2 \<noteq> None \<and> e \<noteq> None \<and> w' = w2
    \<or> e1 = None \<and> e2 = None \<and> (e = None \<longleftrightarrow> e3 = None) \<and> w' = w3"
    using assms 1 2 3 by (auto simp: build_publish_def and_then_def wrap_def split: option.splits)
  with bucket_push [OF 1] bucket_push [OF 2] bucket_register [OF 3] show ?thesis by (elim disjE conjE exE) auto
qed



section \<open>The environment of the guest\<close>

lemma env_lines_Inr: "env_lines env = Inr lines \<Longrightarrow> lines = map env_line env \<and> (\<forall>kv \<in> set env. validEnvName (fst kv))"
  by (induction env arbitrary: lines) (auto split: if_splits sum.splits)

lemma validEnvName_ascii:
  assumes "validEnvName name"
  shows "ascii name" "name \<noteq> []" "env_start (code (hd name))" "CHR 0x0A \<notin> set name"
proof -
  have small: "env_start r \<or> 48 \<le> r \<and> r \<le> 57 \<Longrightarrow> r < 128" for r by (auto simp: env_start_def)
  have "list_all (\<lambda>(r, _). r < 128) (runes name)"
    using assms small by (cases "runes name") (auto simp: validEnvName_def list_all_iff)
  then show a: "ascii name" by (rule runes_small)
  then have v: "name \<noteq> [] \<and> env_start (code (hd name)) \<and> list_all (\<lambda>c. env_start (code c) \<or> 48 \<le> code c \<and> code c \<le> 57) (tl name)"
    using assms runes_ascii [OF a] by (cases name) (auto simp: validEnvName_def list_all_iff simp del: runes.simps)
  then show "name \<noteq> []" "env_start (code (hd name))" by simp_all
  show "CHR 0x0A \<notin> set name"
    using v by (cases name) (auto simp: list_all_iff env_start_def)
qed

lemma replace_byte_set: "set (replace_byte c new s) \<subseteq> (set s - {c}) \<union> set new"
  by (auto simp: replace_byte_def split: if_splits)

lemma replace_byte_id: "c \<notin> set s \<Longrightarrow> replace_byte c new s = s"
  by (induction s) (auto simp: replace_byte_def)

lemma env_line_text:
  assumes "validEnvName k" "ascii v"
  shows "ascii (env_line (k, v))" "CHR 0x0A \<notin> set (env_line (k, v))" "TrimSpace (env_line (k, v)) = env_line (k, v)"
    "env_line (k, v) \<noteq> []" "\<not> HasPrefix (env_line (k, v)) ''#''"
proof -
  note k = validEnvName_ascii [OF assms(1)]
  have q: "set (sanitize v) \<subseteq> (set v - {CHR 0x0A}) \<union> {CHR 0x5C, CHR ''n''}"
    using replace_byte_set [of "CHR 0x0D" "[]"] replace_byte_set [of "CHR 0x0A" "[CHR 0x5C, CHR ''n'']" v] by (fastforce simp: sanitize_def)
  then have s: "set (shellQuote (sanitize v)) \<subseteq> (set v - {CHR 0x0A}) \<union> {CHR 0x5C, CHR ''n'', CHR 0x27}"
    using replace_byte_set [of "CHR 0x27" "[CHR 0x27, CHR 0x5C, CHR 0x27, CHR 0x27]" "sanitize v"] by (fastforce simp: shellQuote_def)
  then show a: "ascii (env_line (k, v))" using k(1) assms(2) by (fastforce simp: env_line_def ascii_def list_all_iff is_ascii_def)
  show "CHR 0x0A \<notin> set (env_line (k, v))" using s k(4) by (auto simp: env_line_def)
  have hd: "env_line (k, v) \<noteq> []" "hd (env_line (k, v)) = hd k" "last (env_line (k, v)) = CHR 0x27"
    using k(2) by (simp_all add: env_line_def shellQuote_def)
  then show "env_line (k, v) \<noteq> []" by simp
  show "TrimSpace (env_line (k, v)) = env_line (k, v)"
  proof -
    have "\<not> is_space (code (hd k))" "\<not> is_space (code (CHR 0x27))" using k(3) by (auto simp: is_space_def env_start_def)
    then show ?thesis using a hd trim_both_id [of "env_line (k, v)" "\<lambda>c. is_space (code c)"] by (simp add: TrimSpace_ascii)
  qed
  show "\<not> HasPrefix (env_line (k, v)) ''#''"
  proof -
    have "hd k \<noteq> CHR ''#''" using k(3) by (auto simp: env_start_def)
    then show ?thesis using hd by (cases "env_line (k, v)") (auto simp: HasPrefix_def)
  qed
qed

lemma shellQuote_differs: "shellQuote (sanitize v) \<noteq> v"
proof
  assume eq: "shellQuote (sanitize v) = v"
  have grow: "new \<noteq> [] \<Longrightarrow> length s \<le> length (replace_byte c new s)" for c new s
    by (induction s) (auto simp: replace_byte_def Suc_le_eq neq_Nil_conv)
  have "CHR 0x0D \<notin> set (sanitize v)" using replace_byte_set [of "CHR 0x0D" "[]"] by (auto simp: sanitize_def)
  then have "CHR 0x0D \<notin> set (shellQuote (sanitize v))"
    using replace_byte_set [of "CHR 0x27" "[CHR 0x27, CHR 0x5C, CHR 0x27, CHR 0x27]" "sanitize v"] by (auto simp: shellQuote_def)
  with eq have "CHR 0x0D \<notin> set v" by simp
  then have "CHR 0x0D \<notin> set (replace_byte (CHR 0x0A) [CHR 0x5C, CHR ''n''] v)"
    using replace_byte_set [of "CHR 0x0A" "[CHR 0x5C, CHR ''n'']" v] by auto
  then have "sanitize v = replace_byte (CHR 0x0A) [CHR 0x5C, CHR ''n''] v" by (simp add: sanitize_def replace_byte_id)
  then have "length v < length (shellQuote (sanitize v))"
    using grow [of "[CHR 0x5C, CHR ''n'']" v "CHR 0x0A"] grow [of "[CHR 0x27, CHR 0x5C, CHR 0x27, CHR 0x27]" "sanitize v" "CHR 0x27"]
    by (simp add: shellQuote_def)
  with eq show False by simp
qed

text \<open>
  C38. The guest sees the quotes. The builder writes each variable of the configuration with its value quoted for a shell; the agent in the guest
  does not read the file with a shell, it hands each line to the command as it is. So every variable reaches the command with the
  quotes in its value, which is never the value of the configuration. Values are ASCII.
\<close>

theorem preset_env_quoted:
  assumes "writeEnvironment (disk fault n) rootDir env fs = (None, fs')" and "env \<noteq> []" and "\<forall>kv \<in> set env. ascii (snd kv)"
  shows "\<exists>content. fs' (env_path rootDir) = Some content \<and> loadPresetEnv environ (Inr content) = environ @ map env_line env
    \<and> (\<forall>kv \<in> set env. env_line kv \<noteq> fst kv @ ''='' @ snd kv)"
proof -
  obtain lines where l: "env_lines env = Inr lines" "fs' (env_path rootDir) = Some (Join lines [CHR 0x0A] @ [CHR 0x0A])"
    using assms(1,2) by (auto simp: writeEnvironment_def and_then_def perform_def disk_def split: option.splits sum.splits)
  have lines: "lines = map env_line env" "\<forall>kv \<in> set env. validEnvName (fst kv)" using env_lines_Inr [OF l(1)] by simp_all
  have ok: "CHR 0x0A \<notin> set x" "TrimSpace x = x" "x \<noteq> []" "\<not> HasPrefix x ''#''" if "x \<in> set lines" for x
  proof -
    obtain kv where "kv \<in> set env" "x = env_line kv" using \<open>x \<in> set lines\<close> lines(1) by auto
    with lines(2) assms(3) env_line_text [of "fst kv" "snd kv"]
    show "CHR 0x0A \<notin> set x" "TrimSpace x = x" "x \<noteq> []" "\<not> HasPrefix x ''#''" by auto
  qed
  have "split_on (CHR 0x0A) (Join lines [CHR 0x0A] @ [CHR 0x0A]) = lines @ [[]]"
    using split_on_Join [of lines "CHR 0x0A"] ok(1) lines(1) assms(2) by (simp add: split_on_sep)
  moreover have "map TrimSpace lines = lines" using ok(2) by (simp add: map_idI)
  moreover have "filter (\<lambda>line. line \<noteq> [] \<and> \<not> HasPrefix line ''#'') lines = lines" using ok(3,4) by (simp add: filter_id_conv)
  ultimately have "loadPresetEnv environ (Inr (Join lines [CHR 0x0A] @ [CHR 0x0A])) = environ @ lines"
    by (simp add: loadPresetEnv_def)
  moreover have "env_line kv \<noteq> fst kv @ ''='' @ snd kv" for kv using shellQuote_differs [of "snd kv"] by (simp add: env_line_def)
  ultimately show ?thesis using l(2) unfolding lines(1) by blast
qed

theorem preset_env_quoted_witness:
  "\<exists>fs' content. writeEnvironment (disk (\<lambda>_. None) 0) ''/r'' [(''A'', ''x'')] Map.empty = (None, fs')
     \<and> fs' (env_path ''/r'') = Some content \<and> loadPresetEnv [] (Inr content) = [''A='' @ [CHR 0x27, CHR ''x'', CHR 0x27]]"
proof -
  have v: "validEnvName ''A''" by (simp add: validEnvName_def is_ascii_decode is_ascii_def env_start_def)
  then obtain fs' where w: "writeEnvironment (disk (\<lambda>_. None) 0) ''/r'' [(''A'', ''x'')] Map.empty = (None, fs')"
    by (simp add: writeEnvironment_def and_then_def perform_def disk_def)
  have "env_line (''A'', ''x'') = ''A='' @ [CHR 0x27, CHR ''x'', CHR 0x27]"
    by (simp add: env_line_def shellQuote_def sanitize_def replace_byte_def)
  then show ?thesis using preset_env_quoted [OF w, of "[]"] w by (auto simp: is_ascii_def)
qed

end
