(* ===== verification/Request_Auth.thy ===== *)
theory Request_Auth
  imports Token_Services
begin

text \<open>
  \<open>internal/runtime/middleware/auth.go\<close> and \<open>internal/authz\<close>: who a request acts for, and what a principal may
  do. The middleware relies on its token resolver through the interface \<open>authn.Resolver\<close>; the locale
  \<open>token_resolver\<close> states what it needs of it, and the service for personal access tokens provides it.
  A request is its \<open>Authorization\<close> header and the value of its session cookie, if it has one.
\<close>

section \<open>The middleware\<close>

type_synonym resolver = "credential_input \<Rightarrow> db \<Rightarrow> principal result \<times> db"

record auth_middleware =
  mw_sessions :: bool
  mw_pat :: "resolver option"
  mw_users :: bool

record request =
  rq_authorization :: string
  rq_cookie :: "string option"

definition bearerScheme :: string where "bearerScheme = ''Bearer''"

text \<open>
  \<open>strings.EqualFold\<close> with a text of ASCII letters other than \<open>k\<close> and \<open>s\<close>, the only ones a rune beyond
  ASCII folds to.
\<close>

definition EqualFold :: "string \<Rightarrow> string \<Rightarrow> bool" where
  "EqualFold s t \<longleftrightarrow> map ascii_lower s = map ascii_lower t"

definition resolveBearer :: "auth_middleware \<Rightarrow> request \<Rightarrow> db \<Rightarrow> principal option \<times> db" where
  "resolveBearer a rq d =
     (case mw_pat a of
        None \<Rightarrow> (None, d)
      | Some resolve \<Rightarrow>
          let header = TrimSpace (rq_authorization rq)
          in if header = [] then (None, d)
             else let parts = Fields header
                  in if length parts \<noteq> 2 \<or> \<not> EqualFold (parts ! 0) bearerScheme then (None, d)
                     else (case resolve \<lparr>input_Type = CredentialPAT, input_Value = parts ! 1\<rparr> d of
                             (Inl _, d) \<Rightarrow> (None, d)
                           | (Inr p, d) \<Rightarrow> (Some p, d)))"

definition resolveSession :: "call_env \<Rightarrow> (byte list \<Rightarrow> byte list) \<Rightarrow> auth_middleware \<Rightarrow> request \<Rightarrow> db \<Rightarrow> principal option" where
  "resolveSession env sha a rq d =
     (if \<not> mw_sessions a then None
      else case rq_cookie rq of
             None \<Rightarrow> None
           | Some cookie \<Rightarrow>
               if TrimSpace cookie = [] then None
               else (case session_Get env sha cookie d of
                       Inl _ \<Rightarrow> None
                     | Inr sess \<Rightarrow>
                         Some \<lparr>Subject = \<lparr>subj_ID = se_UserID sess, subj_Type = SubjectUser\<rparr>,
                              Credential = \<lparr>cred_ID = se_ID sess, cred_Type = CredentialSession\<rparr>,
                              Assurance = AssuranceUnknown\<rparr>))"

definition userEnabled :: "call_env \<Rightarrow> auth_middleware \<Rightarrow> principal \<Rightarrow> db \<Rightarrow> bool" where
  "userEnabled env a p d =
     (if \<not> mw_users a \<or> subj_Type (Subject p) \<noteq> SubjectUser \<or> subj_ID (Subject p) = uuid_Nil then False
      else case GetMe env (subj_ID (Subject p)) d of Inl _ \<Rightarrow> False | Inr _ \<Rightarrow> True)"

text \<open>\<open>None\<close> is the answer 401; otherwise the request goes on with the principal in its context.\<close>

definition auth_Handler ::
  "call_env \<Rightarrow> (byte list \<Rightarrow> byte list) \<Rightarrow> auth_middleware \<Rightarrow> request \<Rightarrow> db \<Rightarrow> principal option \<times> db" where
  "auth_Handler env sha a rq d =
     (case resolveBearer a rq d of
        (bearer, d) \<Rightarrow>
          let found = (case bearer of Some p \<Rightarrow> Some p | None \<Rightarrow> resolveSession env sha a rq d)
          in (case found of
                None \<Rightarrow> (None, d)
              | Some p \<Rightarrow> (if userEnabled env a p d then Some p else None, d)))"

section \<open>Authorization\<close>

definition permissions :: "string list" where
  "permissions = [''sandbox:read'', ''sandbox:write'', ''user:read'', ''user:write'', ''token:read'', ''token:write'']"

definition perm_Valid :: "string \<Rightarrow> bool" where
  "perm_Valid p \<longleftrightarrow> p \<in> set permissions"

type_synonym policy = "principal \<Rightarrow> string \<Rightarrow> bool"

definition DefaultPolicy_Allows :: policy where
  "DefaultPolicy_Allows p perm =
     (if \<not> perm_Valid perm \<or> subj_Type (Subject p) \<noteq> SubjectUser then False
      else if cred_Type (Credential p) \<noteq> CredentialPAT then True
      else False)"

record authorizer =
  az_policy :: "policy option"

definition authz_New :: "policy option \<Rightarrow> authorizer" where
  "authz_New policy = \<lparr>az_policy = Some (case policy of None \<Rightarrow> DefaultPolicy_Allows | Some p \<Rightarrow> p)\<rparr>"

definition authz_Allows :: "authorizer option \<Rightarrow> principal \<Rightarrow> string \<Rightarrow> bool" where
  "authz_Allows a p perm =
     (case a of
        None \<Rightarrow> False
      | Some a \<Rightarrow> (case az_policy a of None \<Rightarrow> False | Some policy \<Rightarrow> policy p perm))"

text \<open>A database with a session, and a middleware, for the examples.\<close>

definition demo_signed_in :: db where
  "demo_signed_in = demo_db\<lparr>sessions := [\<lparr>se_ID = 3, se_UserID = 1, se_TokenHash = [], se_IpAddress = None, se_UserAgent = None,
     se_ExpiresAt = Some 600, se_LastSeenAt = None, se_RevokedAt = None, se_CreatedAt = 50\<rparr>]\<rparr>"

definition demo_mw :: auth_middleware where
  "demo_mw = \<lparr>mw_sessions = True, mw_pat = Some (pat_Resolve demo_call demo_pg (\<lambda>_. [])), mw_users = True\<rparr>"

section \<open>The interface of the resolver\<close>

text \<open>
  \<open>holds d p\<close> says that the tables record the credential of the principal for its user.
\<close>

locale token_resolver =
  fixes resolve :: resolver and holds :: "db \<Rightarrow> principal \<Rightarrow> bool"
  assumes resolve_sound: "resolve input d = (Inr p, d') \<Longrightarrow> subj_Type (Subject p) = SubjectUser \<and> holds d p"
    and resolve_users: "users (snd (resolve input d)) = users d"
begin

lemma bearer_sound:
  assumes "resolveBearer a rq d = (Some p, d')" and "mw_pat a = Some resolve"
  shows "holds d p"
  using assms resolve_sound [of "\<lparr>input_Type = CredentialPAT, input_Value = Fields (TrimSpace (rq_authorization rq)) ! 1\<rparr>" d]
  by (auto simp: resolveBearer_def Let_def split: if_splits sum.splits prod.splits)

lemma bearer_users: "mw_pat a = Some resolve \<or> mw_pat a = None \<Longrightarrow> users (snd (resolveBearer a rq d)) = users d"
  using resolve_users [of "\<lparr>input_Type = CredentialPAT, input_Value = Fields (TrimSpace (rq_authorization rq)) ! 1\<rparr>" d]
  by (auto simp: resolveBearer_def Let_def split: sum.split prod.split)

lemma handler_sound:
  assumes "auth_Handler env sha a rq d = (Some p, d')" and "mw_pat a = Some resolve \<or> mw_pat a = None"
  shows "(\<exists>u \<in> set (users d). u_ID u = subj_ID (Subject p) \<and> u_DisabledAt u = None)
    \<and> (mw_pat a = Some resolve \<and> holds d p \<or> resolveSession env sha a rq d' = Some p)"
proof -
  obtain bearer where b: "resolveBearer a rq d = (bearer, d')"
    using assms(1) by (cases "resolveBearer a rq d") (auto simp: auth_Handler_def Let_def split: option.splits)
  have en: "userEnabled env a p d'"
    using assms(1) b by (auto simp: auth_Handler_def Let_def split: option.splits if_splits)
  then obtain u where "GetUserByID env (subj_ID (Subject p)) d' = Inr u"
    by (auto simp: userEnabled_def GetMe_def split: if_splits sum.splits)
  from select_one_Inr [OF this [unfolded GetUserByID_def]]
  have "u \<in> set (users d')" "u_ID u = subj_ID (Subject p)" "u_DisabledAt u = None" by (simp_all add: live_user_def)
  moreover have "users d' = users d" using bearer_users [OF assms(2), of rq d] b by simp
  moreover have "bearer = Some p \<or> bearer = None \<and> resolveSession env sha a rq d' = Some p"
    using assms(1) b by (auto simp: auth_Handler_def Let_def split: option.splits if_splits)
  moreover have "mw_pat a = Some resolve \<and> holds d p" if "bearer = Some p"
    using bearer_sound [of a rq d p d'] assms(2) b that by (auto simp: resolveBearer_def)
  ultimately show ?thesis by auto
qed

end

text \<open>A token row of the user that has not expired.\<close>

definition pat_holds :: "call_env \<Rightarrow> db \<Rightarrow> principal \<Rightarrow> bool" where
  "pat_holds env d p \<longleftrightarrow> (\<exists>row \<in> set (access_tokens d). cred_ID (Credential p) = pt_ID row \<and> cred_Type (Credential p) = CredentialPAT
     \<and> subj_ID (Subject p) = pt_UserID row \<and> (pt_ExpiresAt row = None \<or> after (pt_ExpiresAt row) (now env)))"

interpretation pat_tokens: token_resolver "pat_Resolve env pg sha" "pat_holds env" for env pg sha
proof unfold_locales
  fix input d p d'
  assume "pat_Resolve env pg sha input d = (Inr p, d')"
  from pat_Resolve_Inr [OF this] show "subj_Type (Subject p) = SubjectUser \<and> pat_holds env d p"
    by (auto simp: pat_holds_def)
next
  fix input d
  show "users (snd (pat_Resolve env pg sha input d)) = users d" by (rule pat_Resolve_users)
qed

definition session_holds :: "call_env \<Rightarrow> db \<Rightarrow> principal \<Rightarrow> bool" where
  "session_holds env d p \<longleftrightarrow> (\<exists>s \<in> set (sessions d). cred_ID (Credential p) = se_ID s \<and> cred_Type (Credential p) = CredentialSession
     \<and> subj_ID (Subject p) = se_UserID s \<and> se_RevokedAt s = None \<and> after (se_ExpiresAt s) (now env))"

lemma resolveSession_sound: "resolveSession env sha a rq d = Some p \<Longrightarrow> session_holds env d p"
proof -
  assume r: "resolveSession env sha a rq d = Some p"
  then obtain cookie s where s: "session_Get env sha cookie d = Inr s"
      "p = \<lparr>Subject = \<lparr>subj_ID = se_UserID s, subj_Type = SubjectUser\<rparr>,
            Credential = \<lparr>cred_ID = se_ID s, cred_Type = CredentialSession\<rparr>, Assurance = AssuranceUnknown\<rparr>"
    by (auto simp: resolveSession_def split: if_splits option.splits sum.splits)
  then have "GetSessionByTokenHash env (hashToken sha cookie) d = Inr s"
    by (auto simp: session_Get_def split: if_splits sum.splits option.splits)
  from select_one_Inr [OF this [unfolded GetSessionByTokenHash_def]] s(2) show ?thesis
    by (auto simp: session_holds_def live_session_def)
qed

lemma pat_Resolve_sessions: "sessions (snd (pat_Resolve env pg sha input d)) = sessions d"
proof -
  have "sessions (snd (TouchToken env pg tid d)) = sessions d" for tid
    unfolding TouchToken_def by (rule exec_keeps [of "\<lambda>x. sessions x = sessions d"]) simp_all
  then show ?thesis
    by (auto simp: pat_Resolve_def split: sum.split prod.split option.split) (metis snd_conv)+
qed

section \<open>Properties\<close>

text \<open>
  No request passes without a live credential. If the middleware lets a request through, its
  principal is a user that exists and is enabled, and the tables hold the credential of this user: an
  unexpired personal access token, or a session that is neither expired nor revoked.
\<close>

theorem auth_Handler_sound:
  assumes "auth_Handler env sha a rq d = (Some p, d')" and "mw_pat a = Some (pat_Resolve env pg sha)"
  shows "(\<exists>u \<in> set (users d). u_ID u = subj_ID (Subject p) \<and> u_DisabledAt u = None)
    \<and> (pat_holds env d p \<or> session_holds env d' p)"
  using pat_tokens.handler_sound [OF assms(1) disjI1, OF assms(2)] resolveSession_sound by auto

theorem auth_Handler_sound_witness:
  "\<exists>p. auth_Handler demo_call (\<lambda>_. []) demo_mw \<lparr>rq_authorization = [], rq_cookie = Some ''t''\<rparr> demo_signed_in = (Some p, demo_signed_in)
     \<and> session_holds demo_call demo_signed_in p"
proof -
  have t: "TrimSpace ''t'' = ''t''" by (simp add: TrimSpace_ascii is_ascii_def trim_both_def is_space_def)
  obtain p where r: "auth_Handler demo_call (\<lambda>_. []) demo_mw \<lparr>rq_authorization = [], rq_cookie = Some ''t''\<rparr> demo_signed_in = (Some p, demo_signed_in)"
      "\<not> pat_holds demo_call demo_signed_in p"
    by (simp add: auth_Handler_def resolveBearer_def resolveSession_def t session_Get_def GetSessionByTokenHash_def
        select_one_def live_session_def live_user_def after_def hashToken_def userEnabled_def GetMe_def GetUserByID_def
        demo_mw_def demo_signed_in_def demo_db_def demo_call_def SubjectUser_def uuid_Nil_def pat_holds_def)
  from auth_Handler_sound [OF r(1), of demo_pg] r show ?thesis by (auto simp: demo_mw_def)
qed

text \<open>
  The default policy ignores scopes. It grants every valid permission to every user with a session
  and none at all to a personal access token, whatever scopes the token has.
\<close>

theorem default_policy_grants:
  assumes "subj_Type (Subject p) = SubjectUser"
  shows "authz_Allows (Some (authz_New None)) p perm \<longleftrightarrow> perm \<in> set permissions \<and> cred_Type (Credential p) \<noteq> CredentialPAT"
  using assms by (auto simp: authz_Allows_def authz_New_def DefaultPolicy_Allows_def perm_Valid_def)

theorem default_policy_grants_witness:
  "\<not> authz_Allows (Some (authz_New None)) \<lparr>Subject = \<lparr>subj_ID = 1, subj_Type = SubjectUser\<rparr>,
       Credential = \<lparr>cred_ID = 4, cred_Type = CredentialPAT\<rparr>, Assurance = AssuranceUnknown\<rparr> ''sandbox:read''"
  using default_policy_grants [of "\<lparr>Subject = \<lparr>subj_ID = 1, subj_Type = SubjectUser\<rparr>,
       Credential = \<lparr>cred_ID = 4, cred_Type = CredentialPAT\<rparr>, Assurance = AssuranceUnknown\<rparr>" "''sandbox:read''"] by simp

end
