(* ===== verification/Identity_Api.thy ===== *)
theory Identity_Api
  imports Request_Auth Sandbox_Service
begin

text \<open>
  The HTTP handlers of \<open>internal/identity\<close> (sign-in, sessions, users, personal and team tokens) and the routes of
  \<open>internal/runtime/daemon/routes.go\<close>: which endpoints the authentication middleware guards, and what a request
  does to the tables. gin is represented by its results: the decoded body or the error of the binding, the
  path parameters, the client address, and the cookies that a handler sets. \<open>parse\<close> is
  \<open>uuid.Parse\<close> and \<open>fmt\<close> the time format of HTTP.
\<close>

section \<open>Cookies\<close>

record cookie =
  ck_Name :: string
  ck_Value :: string
  ck_Path :: string
  ck_MaxAge :: int
  ck_HttpOnly :: bool
  ck_Secure :: bool
  ck_SameSite :: string

definition sessionCookieName :: string where "sessionCookieName = ''shiyao-session''"

definition SetCookie :: "call_env \<Rightarrow> string \<Rightarrow> time \<Rightarrow> cookie" where
  "SetCookie env token expiresAt =
     (let maxAge = (expiresAt - wall env) div 1000000
      in \<lparr>ck_Name = sessionCookieName, ck_Value = token, ck_Path = ''/'', ck_MaxAge = (if maxAge < 0 then 0 else maxAge),
          ck_HttpOnly = True, ck_Secure = True, ck_SameSite = ''Lax''\<rparr>)"

definition ClearCookie :: cookie where
  "ClearCookie = \<lparr>ck_Name = sessionCookieName, ck_Value = [], ck_Path = ''/'', ck_MaxAge = -1, ck_HttpOnly = True, ck_Secure = True, ck_SameSite = ''Lax''\<rparr>"

section \<open>Sign-in\<close>

record start_request =
  sq_Email :: string

record password_login_request =
  pq_TransactionID :: string
  pq_Password :: string

record send_otp_request =
  oq_TransactionID :: string

record verify_otp_request =
  vq_TransactionID :: string
  vq_Code :: string

record set_password_request =
  eq_Password :: string

record start_response =
  sr_TransactionID :: uuid
  sr_Methods :: "string list"

record authentication_response =
  ar_UserID :: uuid
  ar_SessionExpiry :: string

record send_otp_response =
  or_TransactionID :: uuid

definition authenticationMethods :: "string list" where "authenticationMethods = [''password'', ''otp'']"

definition parseUUID :: "(string \<Rightarrow> uuid option) \<Rightarrow> string \<Rightarrow> uuid option" where
  "parseUUID parse v = parse (TrimSpace v)"

text \<open>\<open>clientIP\<close> and \<open>userAgent\<close>: an empty text is no value.\<close>

definition non_empty :: "string \<Rightarrow> string option" where
  "non_empty v = (if v = [] then None else Some v)"

definition bad_body :: "'d response" where
  "bad_body = http_Error (NewBadRequest ''invalid request body'')"

definition bad_transaction :: "'d response" where
  "bad_transaction = http_Error (NewBadRequest ''invalid transaction_id'')"

definition auth_handler_Start ::
  "call_env \<Rightarrow> pg \<Rightarrow> (string \<Rightarrow> string) \<Rightarrow> start_request result \<Rightarrow> db \<Rightarrow> start_response response \<times> db" where
  "auth_handler_Start env pg ul body d =
     (case body of
        Inl _ \<Rightarrow> (bad_body, d)
      | Inr req \<Rightarrow>
          (case auth_Start env pg ul (normalizeEmail ul (sq_Email req)) d of
             (Inl err, d) \<Rightarrow> (http_Error err, d)
           | (Inr transaction, d) \<Rightarrow> (http_OK \<lparr>sr_TransactionID = tx_ID transaction, sr_Methods = authenticationMethods\<rparr>, d)))"

text \<open>The address and the agent of the client, for a new session.\<close>

definition createSession ::
  "call_env \<Rightarrow> pg \<Rightarrow> (byte list \<Rightarrow> byte list) \<Rightarrow> (string \<Rightarrow> string option) \<Rightarrow> (time \<Rightarrow> string) \<Rightarrow> string \<Rightarrow> string \<Rightarrow> uuid \<Rightarrow> db
    \<Rightarrow> authentication_response response \<times> cookie list \<times> db" where
  "createSession env pg sha ParseAddr fmt ip agent userID d =
     (case session_Create env pg sha ParseAddr userID (non_empty ip) (non_empty agent) d of
        (Inl err, d) \<Rightarrow> (http_Error err, [], d)
      | (Inr (token, sess), d) \<Rightarrow>
          let expiry = TimestamptzToTime (se_ExpiresAt sess)
          in (http_OK \<lparr>ar_UserID = userID, ar_SessionExpiry = fmt expiry\<rparr>, [SetCookie env token expiry], d))"

definition auth_handler_LoginWithPassword ::
  "call_env \<Rightarrow> pg \<Rightarrow> kdf \<Rightarrow> (byte list \<Rightarrow> byte list) \<Rightarrow> (string \<Rightarrow> string option) \<Rightarrow> (time \<Rightarrow> string) \<Rightarrow> (string \<Rightarrow> uuid option)
    \<Rightarrow> string \<Rightarrow> string \<Rightarrow> password_login_request result \<Rightarrow> db \<Rightarrow> authentication_response response \<times> cookie list \<times> db" where
  "auth_handler_LoginWithPassword env pg argon2 sha ParseAddr fmt parse ip agent body d =
     (case body of
        Inl _ \<Rightarrow> (bad_body, [], d)
      | Inr req \<Rightarrow>
          (case parseUUID parse (pq_TransactionID req) of
             None \<Rightarrow> (bad_transaction, [], d)
           | Some tid \<Rightarrow>
               (case LoginWithPassword env pg argon2 tid (pq_Password req) d of
                  (Inl err, d) \<Rightarrow> (http_Error err, [], d)
                | (Inr user, d) \<Rightarrow> createSession env pg sha ParseAddr fmt ip agent (u_ID user) d)))"

definition auth_handler_SendOTP ::
  "call_env \<Rightarrow> pg \<Rightarrow> (byte list \<Rightarrow> byte list) \<Rightarrow> (string \<Rightarrow> uuid option) \<Rightarrow> send_otp_request result \<Rightarrow> db \<Rightarrow> send_otp_response response \<times> db" where
  "auth_handler_SendOTP env pg sha parse body d =
     (case body of
        Inl _ \<Rightarrow> (bad_body, d)
      | Inr req \<Rightarrow>
          (case parseUUID parse (oq_TransactionID req) of
             None \<Rightarrow> (bad_transaction, d)
           | Some tid \<Rightarrow>
               (case SendOTP env pg sha tid d of
                  (Inl err, d) \<Rightarrow> (http_Error err, d)
                | (Inr _, d) \<Rightarrow> (http_OK \<lparr>or_TransactionID = tid\<rparr>, d))))"

definition auth_handler_VerifyOTP ::
  "call_env \<Rightarrow> pg \<Rightarrow> (string \<Rightarrow> string) \<Rightarrow> (byte list \<Rightarrow> byte list) \<Rightarrow> (string \<Rightarrow> string option) \<Rightarrow> (time \<Rightarrow> string) \<Rightarrow> (string \<Rightarrow> uuid option)
    \<Rightarrow> string \<Rightarrow> string \<Rightarrow> verify_otp_request result \<Rightarrow> db \<Rightarrow> authentication_response response \<times> cookie list \<times> db" where
  "auth_handler_VerifyOTP env pg ul sha ParseAddr fmt parse ip agent body d =
     (case body of
        Inl _ \<Rightarrow> (bad_body, [], d)
      | Inr req \<Rightarrow>
          (case parseUUID parse (vq_TransactionID req) of
             None \<Rightarrow> (bad_transaction, [], d)
           | Some tid \<Rightarrow>
               (case VerifyOTP env pg ul sha tid (TrimSpace (vq_Code req)) d of
                  (Inl err, d) \<Rightarrow> (http_Error err, [], d)
                | (Inr user, d) \<Rightarrow> createSession env pg sha ParseAddr fmt ip agent (u_ID user) d)))"

definition auth_handler_SetPassword ::
  "call_env \<Rightarrow> pg \<Rightarrow> kdf \<Rightarrow> principal option \<Rightarrow> set_password_request result \<Rightarrow> db \<Rightarrow> authentication_response response \<times> db" where
  "auth_handler_SetPassword env pg argon2 ctx body d =
     (case body of
        Inl _ \<Rightarrow> (bad_body, d)
      | Inr req \<Rightarrow>
          (case UserIDFromContext ctx of
             None \<Rightarrow> (not_signed_in, d)
           | Some userID \<Rightarrow>
               (case SetPassword env pg argon2 userID (eq_Password req) d of
                  (Inl err, d) \<Rightarrow> (http_Error err, d)
                | (Inr user, d) \<Rightarrow> (http_OK \<lparr>ar_UserID = u_ID user, ar_SessionExpiry = []\<rparr>, d))))"

section \<open>Sessions\<close>

record session_response =
  ss_ID :: uuid
  ss_UserID :: uuid
  ss_IPAddress :: "string option"
  ss_UserAgent :: "string option"
  ss_ExpiresAt :: string
  ss_LastSeenAt :: string
  ss_CreatedAt :: string

definition session_newResponse :: "(time \<Rightarrow> string) \<Rightarrow> session \<Rightarrow> session_response" where
  "session_newResponse fmt s =
     \<lparr>ss_ID = se_ID s, ss_UserID = se_UserID s, ss_IPAddress = se_IpAddress s, ss_UserAgent = se_UserAgent s,
      ss_ExpiresAt = FormatTime fmt (se_ExpiresAt s), ss_LastSeenAt = FormatTime fmt (se_LastSeenAt s),
      ss_CreatedAt = FormatTime fmt (Some (se_CreatedAt s))\<rparr>"

text \<open>The session of the request, if it was authenticated by one.\<close>

definition handler_sessionID :: "principal option \<Rightarrow> uuid option" where
  "handler_sessionID ctx =
     (case ctx of
        None \<Rightarrow> None
      | Some p \<Rightarrow>
          if cred_Type (Credential p) \<noteq> CredentialSession \<or> cred_ID (Credential p) = uuid_Nil then None else Some (cred_ID (Credential p)))"

definition session_handler_List :: "call_env \<Rightarrow> (time \<Rightarrow> string) \<Rightarrow> principal option \<Rightarrow> db \<Rightarrow> session_response list response" where
  "session_handler_List env fmt ctx d =
     (case UserIDFromContext ctx of
        None \<Rightarrow> not_signed_in
      | Some userID \<Rightarrow>
          (case session_List env userID d of
             Inl err \<Rightarrow> http_Error err
           | Inr rows \<Rightarrow> http_OK (map (session_newResponse fmt) rows)))"

definition session_handler_Revoke ::
  "call_env \<Rightarrow> pg \<Rightarrow> (string \<Rightarrow> uuid option) \<Rightarrow> principal option \<Rightarrow> string \<Rightarrow> db \<Rightarrow> string response \<times> cookie list \<times> db" where
  "session_handler_Revoke env pg parse ctx i d =
     (case UserIDFromContext ctx of
        None \<Rightarrow> (not_signed_in, [], d)
      | Some userID \<Rightarrow>
          (case parse i of
             None \<Rightarrow> (http_Error (NewBadRequest ''invalid session id''), [], d)
           | Some sessionID \<Rightarrow>
               (case session_Revoke env pg sessionID userID d of
                  (Some err, d) \<Rightarrow> (http_Error err, [], d)
                | (None, d) \<Rightarrow>
                    (http_OK ''session revoked'', if handler_sessionID ctx = Some sessionID then [ClearCookie] else [], d))))"

definition session_handler_RevokeAll :: "call_env \<Rightarrow> pg \<Rightarrow> principal option \<Rightarrow> db \<Rightarrow> string response \<times> cookie list \<times> db" where
  "session_handler_RevokeAll env pg ctx d =
     (case UserIDFromContext ctx of
        None \<Rightarrow> (not_signed_in, [], d)
      | Some userID \<Rightarrow>
          (case session_RevokeAll env pg userID d of
             (Some err, d) \<Rightarrow> (http_Error err, [], d)
           | (None, d) \<Rightarrow> (http_OK ''logged out from all sessions'', [ClearCookie], d)))"

section \<open>Users\<close>

record user_response =
  ur_ID :: uuid
  ur_Email :: string
  ur_EmailVerified :: bool
  ur_Name :: "string option"
  ur_CreatedAt :: string
  ur_UpdatedAt :: string

definition user_newResponse :: "(time \<Rightarrow> string) \<Rightarrow> user \<Rightarrow> user_response" where
  "user_newResponse fmt u =
     \<lparr>ur_ID = u_ID u, ur_Email = u_Email u, ur_EmailVerified = u_EmailVerified u, ur_Name = u_Name u,
      ur_CreatedAt = FormatTime fmt (Some (u_CreatedAt u)), ur_UpdatedAt = FormatTime fmt (Some (u_UpdatedAt u))\<rparr>"

definition users_handler_GetMe :: "call_env \<Rightarrow> (time \<Rightarrow> string) \<Rightarrow> principal option \<Rightarrow> db \<Rightarrow> user_response response" where
  "users_handler_GetMe env fmt ctx d =
     (case UserIDFromContext ctx of
        None \<Rightarrow> not_signed_in
      | Some userID \<Rightarrow> (case GetMe env userID d of Inl err \<Rightarrow> http_Error err | Inr user \<Rightarrow> http_OK (user_newResponse fmt user)))"

definition users_handler_UpdateMe ::
  "call_env \<Rightarrow> pg \<Rightarrow> (time \<Rightarrow> string) \<Rightarrow> principal option \<Rightarrow> string option result \<Rightarrow> db \<Rightarrow> user_response response \<times> db" where
  "users_handler_UpdateMe env pg fmt ctx body d =
     (case body of
        Inl err \<Rightarrow> (http_Error err, d)
      | Inr name \<Rightarrow>
          (case UserIDFromContext ctx of
             None \<Rightarrow> (not_signed_in, d)
           | Some userID \<Rightarrow>
               (case UpdateMe env pg userID name d of
                  (Inl err, d) \<Rightarrow> (http_Error err, d)
                | (Inr user, d) \<Rightarrow> (http_OK (user_newResponse fmt user), d))))"

definition users_handler_DeleteMe :: "call_env \<Rightarrow> pg \<Rightarrow> principal option \<Rightarrow> db \<Rightarrow> string response \<times> cookie list \<times> db" where
  "users_handler_DeleteMe env pg ctx d =
     (case UserIDFromContext ctx of
        None \<Rightarrow> (not_signed_in, [], d)
      | Some userID \<Rightarrow>
          (case DeleteMe env pg userID d of
             (Some err, d) \<Rightarrow> (http_Error err, [], d)
           | (None, d) \<Rightarrow> (http_OK ''user deleted'', [ClearCookie], d)))"

section \<open>Tokens\<close>

definition pat_handler_Create ::
  "call_env \<Rightarrow> pg \<Rightarrow> (byte list \<Rightarrow> byte list) \<Rightarrow> principal option \<Rightarrow> create_request result \<Rightarrow> db \<Rightarrow> (pat_response \<times> string) response \<times> db" where
  "pat_handler_Create env pg sha ctx body d =
     (case UserIDFromContext ctx of
        None \<Rightarrow> (not_signed_in, d)
      | Some userID \<Rightarrow>
          (case body of
             Inl _ \<Rightarrow> (bad_body, d)
           | Inr req \<Rightarrow>
               (case pat_Create env pg sha userID req d of
                  (Inl err, d) \<Rightarrow> (http_Error err, d)
                | (Inr result, d) \<Rightarrow> (http_Created result, d))))"

definition pat_handler_List :: "call_env \<Rightarrow> principal option \<Rightarrow> db \<Rightarrow> pat_response list response" where
  "pat_handler_List env ctx d =
     (case UserIDFromContext ctx of
        None \<Rightarrow> not_signed_in
      | Some userID \<Rightarrow> (case pat_List env userID d of Inl err \<Rightarrow> http_Error err | Inr items \<Rightarrow> http_OK items))"

definition pat_handler_Revoke ::
  "call_env \<Rightarrow> pg \<Rightarrow> (string \<Rightarrow> uuid option) \<Rightarrow> principal option \<Rightarrow> string \<Rightarrow> db \<Rightarrow> string response \<times> db" where
  "pat_handler_Revoke env pg parse ctx i d =
     (case UserIDFromContext ctx of
        None \<Rightarrow> (not_signed_in, d)
      | Some userID \<Rightarrow>
          (case parse i of
             None \<Rightarrow> (http_Error (NewBadRequest ''invalid token ID''), d)
           | Some tokenID \<Rightarrow>
               (case pat_Revoke env pg userID tokenID d of
                  (Some err, d) \<Rightarrow> (http_Error err, d)
                | (None, d) \<Rightarrow> (http_OK ''token revoked'', d))))"

text \<open>\<open>requestIDs\<close>: the team of the path and the user, or the response that ends the request.\<close>

definition requestIDs :: "(string \<Rightarrow> uuid option) \<Rightarrow> principal option \<Rightarrow> string \<Rightarrow> error + uuid \<times> uuid" where
  "requestIDs parse ctx team =
     (case UserIDFromContext ctx of
        None \<Rightarrow> Inl (NewUnauthorized ''authentication required'')
      | Some userID \<Rightarrow>
          (case parse team of
             None \<Rightarrow> Inl (NewBadRequest ''invalid team ID'')
           | Some teamID \<Rightarrow> Inr (teamID, userID)))"

definition team_handler_Create ::
  "call_env \<Rightarrow> pg \<Rightarrow> (byte list \<Rightarrow> byte list) \<Rightarrow> (string \<Rightarrow> uuid option) \<Rightarrow> principal option \<Rightarrow> string \<Rightarrow> create_request result \<Rightarrow> db
    \<Rightarrow> (team_response \<times> string) response \<times> db" where
  "team_handler_Create env pg sha parse ctx team body d =
     (case requestIDs parse ctx team of
        Inl err \<Rightarrow> (http_Error err, d)
      | Inr (teamID, userID) \<Rightarrow>
          (case body of
             Inl _ \<Rightarrow> (bad_body, d)
           | Inr req \<Rightarrow>
               (case team_Create env pg sha teamID userID req d of
                  (Inl err, d) \<Rightarrow> (http_Error err, d)
                | (Inr result, d) \<Rightarrow> (http_Created result, d))))"

definition team_handler_List ::
  "call_env \<Rightarrow> (string \<Rightarrow> uuid option) \<Rightarrow> principal option \<Rightarrow> string \<Rightarrow> db \<Rightarrow> team_response list response" where
  "team_handler_List env parse ctx team d =
     (case requestIDs parse ctx team of
        Inl err \<Rightarrow> http_Error err
      | Inr (teamID, userID) \<Rightarrow> (case team_List env teamID userID d of Inl err \<Rightarrow> http_Error err | Inr items \<Rightarrow> http_OK items))"

definition team_handler_Revoke ::
  "call_env \<Rightarrow> pg \<Rightarrow> (string \<Rightarrow> uuid option) \<Rightarrow> principal option \<Rightarrow> string \<Rightarrow> string \<Rightarrow> db \<Rightarrow> string response \<times> db" where
  "team_handler_Revoke env pg parse ctx team i d =
     (case requestIDs parse ctx team of
        Inl err \<Rightarrow> (http_Error err, d)
      | Inr (teamID, userID) \<Rightarrow>
          (case parse i of
             None \<Rightarrow> (http_Error (NewBadRequest ''invalid token ID''), d)
           | Some tokenID \<Rightarrow>
               (case team_Revoke env pg teamID userID tokenID d of
                  (Some err, d) \<Rightarrow> (http_Error err, d)
                | (None, d) \<Rightarrow> (http_OK ''token revoked'', d))))"

section \<open>Routes\<close>

text \<open>The endpoints of the identity API with what gin hands to their handlers.\<close>

datatype endpoint =
  Healthz
| AuthStart "start_request result" | AuthPasswordLogin "password_login_request result"
| AuthSendOTP "send_otp_request result" | AuthVerifyOTP "verify_otp_request result"
| AuthSetPassword "set_password_request result"
| TokenCreate "create_request result" | TokenList | TokenRevoke string
| TeamTokenCreate string "create_request result" | TeamTokenList string | TeamTokenRevoke string string
| SessionList | SessionRevoke string | SessionRevokeAll
| UserGetMe | UserUpdateMe "string option result" | UserDeleteMe

datatype payload =
  PStart start_response | PAuth authentication_response | POtp send_otp_response
| PToken "pat_response \<times> string" | PTokens "pat_response list"
| PTeamToken "team_response \<times> string" | PTeamTokens "team_response list"
| PSessions "session_response list" | PUser user_response | PMessage string

text \<open>The answer: no content, the rejection of the middleware, or the response of a handler with its cookies.\<close>

datatype api_answer = NoContent | Unauthorized | Answer "payload response" "cookie list"

definition map_response :: "('a \<Rightarrow> 'b) \<Rightarrow> 'a response \<Rightarrow> 'b response" where
  "map_response f r =
     \<lparr>resp_status = resp_status r, resp_success = resp_success r, resp_data = map_option f (resp_data r), resp_error = resp_error r\<rparr>"

definition reply :: "('a \<Rightarrow> payload) \<Rightarrow> 'a response \<times> db \<Rightarrow> api_answer \<times> db" where
  "reply f rd = (Answer (map_response f (fst rd)) [], snd rd)"

definition reply_cookies :: "('a \<Rightarrow> payload) \<Rightarrow> 'a response \<times> cookie list \<times> db \<Rightarrow> api_answer \<times> db" where
  "reply_cookies f rcd = (case rcd of (r, cs, d) \<Rightarrow> (Answer (map_response f r) cs, d))"

text \<open>The groups with \<open>authMiddleware\<close> in the functions \<open>RegisterRoutes\<close>.\<close>

fun guarded :: "endpoint \<Rightarrow> bool" where
  "guarded Healthz = False"
| "guarded (AuthStart _) = False"
| "guarded (AuthPasswordLogin _) = False"
| "guarded (AuthSendOTP _) = False"
| "guarded (AuthVerifyOTP _) = False"
| "guarded _ = True"

text \<open>What a daemon is made of, and what surrounds one request.\<close>

record daemon =
  dm_pg :: pg
  dm_argon2 :: kdf
  dm_ul :: "string \<Rightarrow> string"
  dm_sha :: "byte list \<Rightarrow> byte list"
  dm_ParseAddr :: "string \<Rightarrow> string option"
  dm_fmt :: "time \<Rightarrow> string"
  dm_parse :: "string \<Rightarrow> uuid option"

record call =
  cl_request :: request
  cl_ip :: string
  cl_agent :: string

fun handle :: "daemon \<Rightarrow> call_env \<Rightarrow> call \<Rightarrow> principal option \<Rightarrow> endpoint \<Rightarrow> db \<Rightarrow> api_answer \<times> db" where
  "handle D env c ctx Healthz d = (NoContent, d)"
| "handle D env c ctx (AuthStart b) d = reply PStart (auth_handler_Start env (dm_pg D) (dm_ul D) b d)"
| "handle D env c ctx (AuthPasswordLogin b) d =
     reply_cookies PAuth (auth_handler_LoginWithPassword env (dm_pg D) (dm_argon2 D) (dm_sha D) (dm_ParseAddr D) (dm_fmt D) (dm_parse D)
       (cl_ip c) (cl_agent c) b d)"
| "handle D env c ctx (AuthSendOTP b) d = reply POtp (auth_handler_SendOTP env (dm_pg D) (dm_sha D) (dm_parse D) b d)"
| "handle D env c ctx (AuthVerifyOTP b) d =
     reply_cookies PAuth (auth_handler_VerifyOTP env (dm_pg D) (dm_ul D) (dm_sha D) (dm_ParseAddr D) (dm_fmt D) (dm_parse D)
       (cl_ip c) (cl_agent c) b d)"
| "handle D env c ctx (AuthSetPassword b) d = reply PAuth (auth_handler_SetPassword env (dm_pg D) (dm_argon2 D) ctx b d)"
| "handle D env c ctx (TokenCreate b) d = reply PToken (pat_handler_Create env (dm_pg D) (dm_sha D) ctx b d)"
| "handle D env c ctx TokenList d = reply PTokens (pat_handler_List env ctx d, d)"
| "handle D env c ctx (TokenRevoke i) d = reply PMessage (pat_handler_Revoke env (dm_pg D) (dm_parse D) ctx i d)"
| "handle D env c ctx (TeamTokenCreate t b) d = reply PTeamToken (team_handler_Create env (dm_pg D) (dm_sha D) (dm_parse D) ctx t b d)"
| "handle D env c ctx (TeamTokenList t) d = reply PTeamTokens (team_handler_List env (dm_parse D) ctx t d, d)"
| "handle D env c ctx (TeamTokenRevoke t i) d = reply PMessage (team_handler_Revoke env (dm_pg D) (dm_parse D) ctx t i d)"
| "handle D env c ctx SessionList d = reply PSessions (session_handler_List env (dm_fmt D) ctx d, d)"
| "handle D env c ctx (SessionRevoke i) d = reply_cookies PMessage (session_handler_Revoke env (dm_pg D) (dm_parse D) ctx i d)"
| "handle D env c ctx SessionRevokeAll d = reply_cookies PMessage (session_handler_RevokeAll env (dm_pg D) ctx d)"
| "handle D env c ctx UserGetMe d = reply PUser (users_handler_GetMe env (dm_fmt D) ctx d, d)"
| "handle D env c ctx (UserUpdateMe b) d = reply PUser (users_handler_UpdateMe env (dm_pg D) (dm_fmt D) ctx b d)"
| "handle D env c ctx UserDeleteMe d = reply_cookies PMessage (users_handler_DeleteMe env (dm_pg D) ctx d)"

text \<open>\<open>NewAuth\<close> with the three services of the modules.\<close>

definition daemon_auth :: "daemon \<Rightarrow> call_env \<Rightarrow> auth_middleware" where
  "daemon_auth D env = \<lparr>mw_sessions = True, mw_pat = Some (pat_Resolve env (dm_pg D) (dm_sha D)), mw_users = True\<rparr>"

definition serve_api :: "daemon \<Rightarrow> call_env \<Rightarrow> call \<Rightarrow> endpoint \<Rightarrow> db \<Rightarrow> api_answer \<times> db" where
  "serve_api D env c ep d =
     (if \<not> guarded ep then handle D env c None ep d
      else case auth_Handler env (dm_sha D) (daemon_auth D env) (cl_request c) d of
             (None, d) \<Rightarrow> (Unauthorized, d)
           | (Some p, d) \<Rightarrow> handle D env c (Some p) ep d)"

text \<open>The account, the sessions and the personal access tokens of a user.\<close>

definition rows_of :: "uuid \<Rightarrow> db \<Rightarrow> user list \<times> session list \<times> access_token list" where
  "rows_of uid d = (filter (\<lambda>u. u_ID u = uid) (users d), filter (\<lambda>s. se_UserID s = uid) (sessions d),
     filter (\<lambda>t. pt_UserID t = uid) (access_tokens d))"

text \<open>A daemon, and a database with a session of one user and another user, for the examples.\<close>

definition demo_daemon :: daemon where
  "demo_daemon = \<lparr>dm_pg = demo_pg, dm_argon2 = demo_kdf, dm_ul = (\<lambda>s. s), dm_sha = (\<lambda>_. []), dm_ParseAddr = (\<lambda>_. None),
     dm_fmt = (\<lambda>_. []), dm_parse = (\<lambda>_. Some 2)\<rparr>"

definition demo_two :: db where
  "demo_two = demo_signed_in\<lparr>users := users demo_signed_in @ [\<lparr>u_ID = 4, u_Email = ''d@e.f'', u_EmailVerified = True, u_Name = None,
     u_PasswordHash = None, u_DisabledAt = None, u_CreatedAt = 0, u_UpdatedAt = 0\<rparr>]\<rparr>"

definition demo_caller :: "request \<Rightarrow> call" where
  "demo_caller rq = \<lparr>cl_request = rq, cl_ip = [], cl_agent = []\<rparr>"

section \<open>What the calls of a user leave alone\<close>

lemma filter_update_where:
  assumes "\<And>r. r \<in> set rows \<Longrightarrow> P r \<Longrightarrow> \<not> Q r \<and> \<not> Q (f r)"
  shows "filter Q (update_where P f rows) = filter Q rows"
  using assms by (induction rows) (auto simp: update_where_def)

lemma rows_of_frame:
  "filter (\<lambda>u. u_ID u = uid) us = filter (\<lambda>u. u_ID u = uid) (users d) \<Longrightarrow> rows_of uid (d\<lparr>users := us\<rparr>) = rows_of uid d"
  "filter (\<lambda>s. se_UserID s = uid) ss = filter (\<lambda>s. se_UserID s = uid) (sessions d) \<Longrightarrow> rows_of uid (d\<lparr>sessions := ss\<rparr>) = rows_of uid d"
  "filter (\<lambda>t. pt_UserID t = uid) ts = filter (\<lambda>t. pt_UserID t = uid) (access_tokens d) \<Longrightarrow> rows_of uid (d\<lparr>access_tokens := ts\<rparr>) = rows_of uid d"
  "rows_of uid (d\<lparr>team_tokens := tt\<rparr>) = rows_of uid d"
  by (simp_all add: rows_of_def)

lemma commit_rows: "rows_of uid d' = rows_of uid d \<Longrightarrow> rows_of uid (snd (commit env pg name d d' r)) = rows_of uid d"
  by (rule commit_keeps [of "\<lambda>x. rows_of uid x = rows_of uid d"]) simp_all

lemma exec_rows: "rows_of uid d' = rows_of uid d \<Longrightarrow> rows_of uid (snd (exec_stmt env pg name d d')) = rows_of uid d"
  by (rule exec_keeps [of "\<lambda>x. rows_of uid x = rows_of uid d"]) simp_all

lemma update_user_rows:
  assumes "\<And>u. u_ID (f u) = u_ID u" "uid \<noteq> userID"
  shows "rows_of uid (snd (update_user env pg name userID f d)) = rows_of uid d"
  unfolding update_user_def Let_def
  by (intro commit_rows rows_of_frame filter_update_where) (use assms in \<open>auto simp: live_user_def\<close>)

text \<open>The services act on rows of the user they are called for.\<close>

named_theorems foreign_rows "what a service leaves alone"

lemma SetPassword_rows [foreign_rows]: "uid \<noteq> userID \<Longrightarrow> rows_of uid (snd (SetPassword env pg argon2 userID password d)) = rows_of uid d"
  using update_user_rows [of _ uid userID] by (auto simp: SetPassword_def SetUserPassword_def split: sum.splits)

lemma UpdateMe_rows [foreign_rows]: "uid \<noteq> userID \<Longrightarrow> rows_of uid (snd (UpdateMe env pg userID name d)) = rows_of uid d"
  using update_user_rows [of _ uid userID] by (auto simp: UpdateMe_def UpdateUserProfile_def split: option.splits)

lemma DeleteMe_rows [foreign_rows]: "uid \<noteq> userID \<Longrightarrow> rows_of uid (snd (DeleteMe env pg userID d)) = rows_of uid d"
  by (auto simp: DeleteMe_def DisableUser_def live_user_def intro!: exec_rows rows_of_frame filter_update_where)

lemma session_Revoke_rows [foreign_rows]: "uid \<noteq> userID \<Longrightarrow> rows_of uid (snd (session_Revoke env pg sid userID d)) = rows_of uid d"
  by (auto simp: session_Revoke_def RevokeSession_def intro!: exec_rows rows_of_frame filter_update_where)

lemma session_RevokeAll_rows [foreign_rows]: "uid \<noteq> userID \<Longrightarrow> rows_of uid (snd (session_RevokeAll env pg userID d)) = rows_of uid d"
  by (auto simp: session_RevokeAll_def RevokeUserSessions_def intro!: exec_rows rows_of_frame filter_update_where)

lemma pat_Create_rows [foreign_rows]: "uid \<noteq> userID \<Longrightarrow> rows_of uid (snd (pat_Create env pg sha userID req d)) = rows_of uid d"
proof -
  assume u: "uid \<noteq> userID"
  have "rows_of uid (snd (CreateToken env pg userID a b c e f d)) = rows_of uid d" for a b c e f
    unfolding CreateToken_def Let_def by (intro commit_rows rows_of_frame) (use u in simp)
  then show ?thesis by (auto simp: pat_Create_def split: option.split sum.split prod.split) (metis snd_conv)+
qed

lemma pat_Revoke_rows [foreign_rows]: "uid \<noteq> userID \<Longrightarrow> rows_of uid (snd (pat_Revoke env pg userID tid d)) = rows_of uid d"
proof -
  assume u: "uid \<noteq> userID"
  have "rows_of uid (snd (RevokeToken env pg tid userID d)) = rows_of uid d"
    unfolding RevokeToken_def by (intro exec_rows rows_of_frame) (use u in \<open>auto intro: filter_cong\<close>)
  then show ?thesis by (simp add: pat_Revoke_def)
qed

lemma team_Create_rows [foreign_rows]: "rows_of uid (snd (team_Create env pg sha teamID userID req d)) = rows_of uid d"
proof -
  have "rows_of uid (snd (CreateTeamToken env pg teamID a b c e f userID d)) = rows_of uid d" for a b c e f
    unfolding CreateTeamToken_def Let_def by (simp add: commit_rows rows_of_frame)
  then show ?thesis by (auto simp: team_Create_def split: option.split sum.split prod.split) (metis snd_conv)+
qed

lemma team_Revoke_rows [foreign_rows]: "rows_of uid (snd (team_Revoke env pg teamID userID tid d)) = rows_of uid d"
proof -
  have "rows_of uid (snd (RevokeTeamToken env pg tid teamID userID d)) = rows_of uid d"
    unfolding RevokeTeamToken_def Let_def by (simp add: commit_rows rows_of_frame)
  then show ?thesis by (auto simp: team_Revoke_def split: sum.split prod.split)
qed

text \<open>A handler leaves the tables as its service does.\<close>

lemma snd_answers [simp]:
  "snd (case x of (Inl e, d) \<Rightarrow> (f e, d) | (Inr a, d) \<Rightarrow> (g a, d)) = snd x"
  "snd (case y of (Some e, d) \<Rightarrow> (f e, d) | (None, d) \<Rightarrow> (h, d)) = snd y"
  "snd (snd (case y of (Some e, d) \<Rightarrow> (f e, cs, d) | (None, d) \<Rightarrow> (h, cs', d))) = snd y"
  by (auto split: prod.split sum.split option.split)

lemma snd_reply [simp]: "snd (reply f rd) = snd rd" "snd (reply_cookies f rcd) = snd (snd rcd)"
  by (simp_all add: reply_def reply_cookies_def split: prod.split)

lemma UserIDFromContext_Some: "UserIDFromContext (Some p) = Some u \<Longrightarrow> u = subj_ID (Subject p)"
  by (auto simp: UserIDFromContext_def split: if_splits)

lemma handle_rows:
  assumes "guarded ep" and u: "uid \<noteq> subj_ID (Subject p)"
  shows "rows_of uid (snd (handle D env c (Some p) ep d)) = rows_of uid d"
proof (cases ep)
  case (AuthSetPassword b)
  then show ?thesis using u
    by (auto simp: auth_handler_SetPassword_def dest!: UserIDFromContext_Some intro: foreign_rows split: sum.split option.split)
next
  case (TokenCreate b)
  then show ?thesis using u
    by (auto simp: pat_handler_Create_def dest!: UserIDFromContext_Some intro: foreign_rows split: sum.split option.split)
next
  case (TokenRevoke i)
  then show ?thesis using u
    by (auto simp: pat_handler_Revoke_def dest!: UserIDFromContext_Some intro: foreign_rows split: option.split)
next
  case (TeamTokenCreate t b)
  then show ?thesis by (auto simp: team_handler_Create_def foreign_rows split: sum.split)
next
  case (TeamTokenRevoke t i)
  then show ?thesis by (auto simp: team_handler_Revoke_def foreign_rows split: sum.split option.split)
next
  case (SessionRevoke i)
  then show ?thesis using u
    by (auto simp: session_handler_Revoke_def dest!: UserIDFromContext_Some intro: foreign_rows split: option.split)
next
  case SessionRevokeAll
  then show ?thesis using u
    by (auto simp: session_handler_RevokeAll_def dest!: UserIDFromContext_Some intro: foreign_rows split: option.split)
next
  case (UserUpdateMe b)
  then show ?thesis using u
    by (auto simp: users_handler_UpdateMe_def dest!: UserIDFromContext_Some intro: foreign_rows split: sum.split option.split)
next
  case UserDeleteMe
  then show ?thesis using u
    by (auto simp: users_handler_DeleteMe_def dest!: UserIDFromContext_Some intro: foreign_rows split: option.split)
qed (use assms in simp_all)

text \<open>The middleware touches at most the token it resolves, which is one of the principal's.\<close>

lemma TouchToken_rows:
  assumes "schema_ok pg d" and "row \<in> set (access_tokens d)" and "uid \<noteq> pt_UserID row"
  shows "rows_of uid (snd (TouchToken env pg (pt_ID row) d)) = rows_of uid d"
proof -
  have "t = row" if "t \<in> set (access_tokens d)" "pt_ID t = pt_ID row" for t
    using assms(1,2) that by (auto simp: schema_ok_def tokens_ok_def distinct_map dest: inj_onD)
  then show ?thesis unfolding TouchToken_def
    by (intro exec_rows rows_of_frame filter_update_where) (use assms(3) in auto)
qed

lemma pat_Resolve_rows:
  assumes "schema_ok pg d" and "pat_Resolve env pg sha input d = (r, d')"
  shows "case r of Inl _ \<Rightarrow> d' = d | Inr p \<Rightarrow> \<forall>uid. uid \<noteq> subj_ID (Subject p) \<longrightarrow> rows_of uid d' = rows_of uid d"
proof (cases "input_Type input \<noteq> CredentialPAT \<or> TrimSpace (input_Value input) = []")
  case False
  show ?thesis
  proof (cases "GetTokenByHash env (hashToken sha (input_Value input)) d")
    case (Inr row)
    then have row: "row \<in> set (access_tokens d)" using select_one_Inr [OF Inr [unfolded GetTokenByHash_def]] by simp
    obtain e d1 where t: "TouchToken env pg (pt_ID row) d = (e, d1)" by fastforce
    have "rows_of uid d1 = rows_of uid d" if "uid \<noteq> pt_UserID row" for uid
      using TouchToken_rows [OF assms(1) row that, of env] t by simp
    moreover have "d1 = d" if "e = Some err" for err
      using t that by (auto simp: TouchToken_def exec_stmt_def as_exec_def commit_def split: option.splits if_splits)
    ultimately show ?thesis using assms(2) False Inr t by (cases e) (auto simp: pat_Resolve_def)
  qed (use assms(2) False in \<open>auto simp: pat_Resolve_def\<close>)
qed (use assms(2) in \<open>auto simp: pat_Resolve_def\<close>)

lemma auth_rows:
  assumes "schema_ok (dm_pg D) d" and "auth_Handler env (dm_sha D) (daemon_auth D env) rq d = (Some p, d')"
    and "uid \<noteq> subj_ID (Subject p)"
  shows "rows_of uid d' = rows_of uid d"
proof -
  obtain bearer where b: "resolveBearer (daemon_auth D env) rq d = (bearer, d')" "bearer = None \<or> bearer = Some p"
    using assms(2) by (cases "resolveBearer (daemon_auth D env) rq d") (auto simp: auth_Handler_def Let_def split: option.splits if_splits)
  consider "bearer = None" "d' = d"
    | v r where "pat_Resolve env (dm_pg D) (dm_sha D) \<lparr>input_Type = CredentialPAT, input_Value = v\<rparr> d = (r, d')"
        "r = Inr p \<or> (\<exists>e. r = Inl e)"
    using b by (auto simp: resolveBearer_def daemon_auth_def Let_def split: if_splits prod.splits sum.splits)
  then show ?thesis
  proof cases
    case (2 v r)
    from pat_Resolve_rows [OF assms(1) this(1)] 2(2) assms(3) show ?thesis by auto
  qed simp
qed

lemma auth_session:
  assumes "auth_Handler env sha a rq d = (Some p, d')" and "mw_pat a = Some (pat_Resolve env pg sha)"
  shows "pat_holds env d p \<or> session_holds env d p"
proof -
  have "sessions (snd (resolveBearer a rq d)) = sessions d"
    using assms(2) pat_Resolve_sessions [of env pg sha _ d]
    by (auto simp: resolveBearer_def Let_def split: prod.split sum.split)
  moreover have "snd (resolveBearer a rq d) = d'"
    using assms(1) by (auto simp: auth_Handler_def Let_def split: prod.splits option.splits)
  ultimately have "sessions d' = sessions d" by simp
  then show ?thesis
    using pat_tokens.handler_sound [OF assms(1) disjI1, OF assms(2)] resolveSession_sound [of env sha a rq d' p]
    by (auto simp: session_holds_def)
qed

text \<open>The token of a session is no white space.\<close>

lemma session_token_visible: "session_generateToken env = Inr token \<Longrightarrow> TrimSpace token \<noteq> []"
proof -
  assume "session_generateToken env = Inr token"
  then obtain b where b: "rand_Read env 32 = Inr b" "token = hex_encode b"
    by (auto simp: session_generateToken_def split: sum.splits)
  have "length b = 32" using b(1) by (auto simp: rand_Read_def split: sum.splits)
  then have ne: "token \<noteq> []" using b(2) length_hex_encode [of b] by (metis length_0_conv mult_eq_0_iff zero_neq_numeral)
  have vis: "\<not> is_space (code c)" if "c \<in> set token" for c
    using that b(2) concat_hex_set [of c b] hex_digit_visible by metis
  have "\<not> is_space (code (hd token))" "\<not> is_space (code (last token))" using ne by (simp_all add: vis)
  then show ?thesis using ne hex_ascii [of b] b(2) by (simp add: TrimSpace_ascii trim_both_id)
qed

lemma createSession_cookie:
  assumes "createSession env pg sha ParseAddr fmt ip agent uid d = (r, k # ks, d')"
  shows "\<exists>s. session_Create env pg sha ParseAddr uid (non_empty ip) (non_empty agent) d = (Inr (ck_Value k, s), d')
    \<and> TrimSpace (ck_Value k) \<noteq> [] \<and> uid \<noteq> uuid_Nil \<and> ks = []"
proof -
  obtain token s where c: "session_Create env pg sha ParseAddr uid (non_empty ip) (non_empty agent) d = (Inr (token, s), d')"
      "k # ks = [SetCookie env token (TimestamptzToTime (se_ExpiresAt s))]"
    using assms by (auto simp: createSession_def Let_def split: prod.splits sum.splits)
  have "session_generateToken env = Inr token" "uid \<noteq> uuid_Nil"
    using c(1) by (auto simp: session_Create_def split: if_splits sum.splits prod.splits)
  with session_token_visible c show ?thesis by (auto simp: SetCookie_def Let_def)
qed

text \<open>The cookie of a new session admits the requests of its user.\<close>

lemma cookie_admits:
  assumes "session_Create env pg sha ParseAddr uid ip agent d = (Inr (token, s), d')" and "TrimSpace token \<noteq> []"
    and "uid \<noteq> uuid_Nil" and "down env' = (\<lambda>_. None)"
    and "wall env' \<le> wall env + sessionTTL" and "now env' < wall env + sessionTTL"
    and "u \<in> set (users d)" and "live_user uid u" and "mw_sessions a" and "mw_users a"
  shows "\<exists>p. auth_Handler env' sha a \<lparr>rq_authorization = [], rq_cookie = Some token\<rparr> d' = (Some p, d')
    \<and> UserIDFromContext (Some p) = Some uid \<and> GetMe env' uid d' = Inr u"
proof -
  have d': "schema_ok pg d'" "d' = d\<lparr>sessions := sessions d @ [s]\<rparr>" using session_Create_Inr [OF assms(1)] by blast+
  then have u: "GetUserByID env' uid d' = Inr u" using assms by (intro GetUserByID_ok) simp_all
  have "session_Get env' sha token d' = Inr s" "se_UserID s = uid"
    using session_roundtrip [OF assms(1,4,5,6)] by blast+
  then show ?thesis using u assms
    by (intro exI [of _ "\<lparr>Subject = \<lparr>subj_ID = uid, subj_Type = SubjectUser\<rparr>,
          Credential = \<lparr>cred_ID = se_ID s, cred_Type = CredentialSession\<rparr>, Assurance = AssuranceUnknown\<rparr>"])
      (auto simp: auth_Handler_def resolveBearer_def resolveSession_def userEnabled_def GetMe_def UserIDFromContext_def
        split: option.split)
qed

lemma login_users: "LoginWithPassword env pg argon2 tid password d = (Inr user, d') \<Longrightarrow> users d' = users d"
proof -
  assume "LoginWithPassword env pg argon2 tid password d = (Inr user, d')"
  from login_sound [OF this] obtain r where "MarkAuthTransactionAuthenticated env pg tid d = (Inr r, d')" by blast
  moreover have "users (snd (MarkAuthTransactionAuthenticated env pg tid d)) = users d"
    unfolding MarkAuthTransactionAuthenticated_def update_tx_def Let_def by (rule commit_keeps [of "\<lambda>x. users x = users d"]) simp_all
  ultimately show ?thesis by simp
qed

lemma password_login_cookie:
  assumes "handle D env c None (AuthPasswordLogin (Inr req)) d = (Answer r (k # ks), d')"
  shows "\<exists>tid u d1. parseUUID (dm_parse D) (pq_TransactionID req) = Some tid
    \<and> LoginWithPassword env (dm_pg D) (dm_argon2 D) tid (pq_Password req) d = (Inr u, d1)
    \<and> (\<exists>r'. createSession env (dm_pg D) (dm_sha D) (dm_ParseAddr D) (dm_fmt D) (cl_ip c) (cl_agent c) (u_ID u) d1 = (r', k # ks, d'))"
  using assms by (auto simp: auth_handler_LoginWithPassword_def reply_cookies_def split: option.splits prod.splits sum.splits)

lemma schema_add_tx:
  assumes "schema_ok pg d" and "tx_ID t \<notin> tx_ID ` set (auth_transactions d)" and "tx_row_ok (map u_ID (users d)) t"
  shows "schema_ok pg (d\<lparr>auth_transactions := auth_transactions d @ [t]\<rparr>)"
proof -
  have "ch_row_ok pg (map tx_ID (auth_transactions d @ [t])) x" if "ch_row_ok pg (map tx_ID (auth_transactions d)) x" for x
    using that by (auto simp: ch_row_ok_def ref_ok_def split: option.splits)
  then have "challenges_ok pg (d\<lparr>auth_transactions := auth_transactions d @ [t]\<rparr>)" if "challenges_ok pg d"
    using that by (auto simp: challenges_ok_def list_all_iff)
  then show ?thesis using assms by (auto simp: schema_ok_def transactions_ok_def)
qed

section \<open>Properties\<close>



text \<open>
  C10. Signing in works. When a password login is answered with a cookie, the password is right for the
  transaction, and until the thirty days are over a request with this cookie passes the middleware and
  \<open>GET /users/me\<close> answers it with the account that logged in.
\<close>

theorem signin_roundtrip:
  assumes "serve_api D env c (AuthPasswordLogin (Inr req)) d = (Answer r (k # ks), d')"
    and "down env' = (\<lambda>_. None)" and "wall env' \<le> wall env + sessionTTL" and "now env' < wall env + sessionTTL"
    and "cl_request c' = \<lparr>rq_authorization = [], rq_cookie = Some (ck_Value k)\<rparr>"
  shows "\<exists>tid u. parseUUID (dm_parse D) (pq_TransactionID req) = Some tid \<and> may_login env (dm_argon2 D) tid (pq_Password req) d u
    \<and> serve_api D env' c' UserGetMe d' = (Answer (map_response PUser (http_OK (user_newResponse (dm_fmt D) u))) [], d')"
proof -
  have "handle D env c None (AuthPasswordLogin (Inr req)) d = (Answer r (k # ks), d')" using assms(1) by (simp add: serve_api_def)
  from password_login_cookie [OF this] obtain tid u d1 r' where tid: "parseUUID (dm_parse D) (pq_TransactionID req) = Some tid"
    and l: "LoginWithPassword env (dm_pg D) (dm_argon2 D) tid (pq_Password req) d = (Inr u, d1)"
    and s: "createSession env (dm_pg D) (dm_sha D) (dm_ParseAddr D) (dm_fmt D) (cl_ip c) (cl_agent c) (u_ID u) d1 = (r', k # ks, d')"
    by blast
  have m: "may_login env (dm_argon2 D) tid (pq_Password req) d u" using login_sound [OF l] by simp
  then have u: "u \<in> set (users d1)" "live_user (u_ID u) u" using login_users [OF l] by (auto simp: may_login_def live_user_def)
  have mw: "mw_sessions (daemon_auth D env')" "mw_users (daemon_auth D env')" by (simp_all add: daemon_auth_def)
  from createSession_cookie [OF s] obtain sess
    where "session_Create env (dm_pg D) (dm_sha D) (dm_ParseAddr D) (u_ID u) (non_empty (cl_ip c)) (non_empty (cl_agent c)) d1
        = (Inr (ck_Value k, sess), d')" "TrimSpace (ck_Value k) \<noteq> []" "u_ID u \<noteq> uuid_Nil" by blast
  from cookie_admits [OF this assms(2-4) u mw] obtain p
    where "auth_Handler env' (dm_sha D) (daemon_auth D env') (cl_request c') d' = (Some p, d')"
      "UserIDFromContext (Some p) = Some (u_ID u)" "GetMe env' (u_ID u) d' = Inr u" using assms(5) by auto
  then have "serve_api D env' c' UserGetMe d' = (Answer (map_response PUser (http_OK (user_newResponse (dm_fmt D) u))) [], d')"
    by (simp add: serve_api_def users_handler_GetMe_def reply_def)
  with tid m show ?thesis by blast
qed

theorem signin_roundtrip_witness:
  "\<exists>r k ks d' u. serve_api demo_daemon demo_call (demo_caller \<lparr>rq_authorization = [], rq_cookie = None\<rparr>)
        (AuthPasswordLogin (Inr \<lparr>pq_TransactionID = [], pq_Password = ''secret''\<rparr>)) demo_db = (Answer r (k # ks), d')
     \<and> serve_api demo_daemon demo_call (demo_caller \<lparr>rq_authorization = [], rq_cookie = Some (ck_Value k)\<rparr>) UserGetMe d'
       = (Answer (map_response PUser (http_OK (user_newResponse (\<lambda>_. []) u))) [], d')"
proof -
  let ?login = "LoginWithPassword demo_call demo_pg demo_kdf 2 ''secret'' demo_db"
  let ?s = "serve_api demo_daemon demo_call (demo_caller \<lparr>rq_authorization = [], rq_cookie = None\<rparr>)
        (AuthPasswordLogin (Inr \<lparr>pq_TransactionID = [], pq_Password = ''secret''\<rparr>)) demo_db"
  have u: "fst ?login = Inr (hd (users demo_db))" by (rule login_complete) (rule demo_login)+
  then obtain d1 where d1: "?login = (Inr (hd (users demo_db)), d1)" by (metis prod.collapse)
  obtain t' where "MarkAuthTransactionAuthenticated demo_call demo_pg 2 demo_db = (Inr t', d1)" using login_sound [OF d1] by blast
  then have d1': "d1 = snd (MarkAuthTransactionAuthenticated demo_call demo_pg 2 demo_db)" by simp
  have "\<exists>token s d'. session_Create demo_call demo_pg (\<lambda>_. []) (\<lambda>_. None) 1 None None d1 = (Inr (token, s), d')"
    unfolding d1'
    by (simp add: session_Create_def session_generateToken_def rand_Read_def CreateSession_def live_user_def commit_def
      demo_call_def demo_db_def demo_pg_def uuid_Nil_def parseIP_def NullableTimestamptz_def zero_time_def sessionTTL_def
      MarkAuthTransactionAuthenticated_def update_tx_def returning_def update_where_def Let_def
      schema_ok_def users_ok_def transactions_ok_def tx_row_ok_def challenges_ok_def sessions_ok_def tokens_ok_def
      se_row_ok_def teams_ok_def tm_row_ok_def tx_states_def after_def ref_ok_def)
  then obtain r k d' where r: "?s = (Answer r [k], d')"
    using d1 by (auto simp: serve_api_def auth_handler_LoginWithPassword_def demo_daemon_def parseUUID_def demo_caller_def
        createSession_def non_empty_def reply_cookies_def demo_db_def Let_def)
  from signin_roundtrip [OF r, of demo_call "demo_caller \<lparr>rq_authorization = [], rq_cookie = Some (ck_Value k)\<rparr>"] r
  show ?thesis by (auto simp: demo_call_def sessionTTL_def demo_caller_def demo_daemon_def)
qed

text \<open>
  C39. \<open>POST /auth/start\<close> tells whether an e-mail address has an account. On a database that can be reached
  it answers 200 for the address of an enabled account and 500 for every other one, so that nobody
  without an account gets a transaction to sign up with.
\<close>

theorem start_reveals:
  assumes "schema_ok pg d" and "down env = (\<lambda>_. None)" and "gen_uuid env \<notin> tx_ID ` set (auth_transactions d)"
    and "now env < wall env + authTransactionTTL" and "wall env + authTransactionTTL \<noteq> zero_time"
    and "email = normalizeEmail ul (normalizeEmail ul (sq_Email req))" and "email \<noteq> []"
  shows "resp_status (fst (auth_handler_Start env pg ul (Inr req) d))
    = (if \<exists>u \<in> set (users d). pg_lower pg (u_Email u) = pg_lower pg email \<and> u_DisabledAt u = None then 200 else 500)"
proof (cases "GetUserByEmail env pg email d")
  case (Inl e)
  have no: "\<not> (\<exists>u \<in> set (users d). pg_lower pg (u_Email u) = pg_lower pg email \<and> u_DisabledAt u = None)" and e: "e = ErrNoRows"
    using Inl assms(2) by (auto simp: GetUserByEmail_def select_one_def filter_empty_conv split: list.splits)
  show ?thesis
    using no assms(6,7) Inl by (simp add: auth_handler_Start_def auth_Start_def http_Error_def e ErrNoRows_def)
next
  case (Inr u)
  then have u: "u \<in> set (users d)" "pg_lower pg (u_Email u) = pg_lower pg email" "u_DisabledAt u = None"
    using select_one_Inr [OF Inr [unfolded GetUserByEmail_def]] by simp_all
  let ?t = "\<lparr>tx_ID = gen_uuid env, tx_Identifier = email, tx_UserID = Some (u_ID u), tx_State = ''started'', tx_SelectedMethod = None,
    tx_ExpiresAt = Some (wall env + authTransactionTTL), tx_CreatedAt = now env, tx_UpdatedAt = now env\<rparr>"
  have "schema_ok pg (d\<lparr>auth_transactions := auth_transactions d @ [?t]\<rparr>)"
    by (rule schema_add_tx) (use assms(1,3,4) u in \<open>auto simp: tx_row_ok_def ref_ok_def tx_states_def after_def\<close>)
  then have "CreateAuthTransaction env pg email (Some (u_ID u)) (Some (wall env + authTransactionTTL)) d
      = (Inr ?t, d\<lparr>auth_transactions := auth_transactions d @ [?t]\<rparr>)"
    using assms(2) by (simp add: CreateAuthTransaction_def commit_def Let_def)
  then show ?thesis
    using u assms(5,6,7) Inr by (auto simp: auth_handler_Start_def auth_Start_def NullableTimestamptz_def http_OK_def Let_def)
qed

theorem start_reveals_witness:
  "resp_status (fst (auth_handler_Start demo_call demo_pg (\<lambda>s. s) (Inr \<lparr>sq_Email = ''x''\<rparr>) demo_db)) = 500"
proof -
  have x: "normalizeEmail (\<lambda>s. s) ''x'' = ''x''"
    by (simp add: normalizeEmail_def ToLower_def TrimSpace_ascii is_ascii_def trim_both_def is_space_def ascii_lower_def)
  show ?thesis
    using start_reveals [OF demo_login(1,3), of "''x''" "\<lambda>s. s" "\<lparr>sq_Email = ''x''\<rparr>"]
    by (simp add: x demo_db_def demo_pg_def demo_call_def authTransactionTTL_def zero_time_def)
qed

end
