(* ===== verification/Spec2Isabelle.thy ===== *)
theory Spec2Isabelle
  imports Warm_Pool Process_Runtime Exec_Bridge Proxy_Policy Snapshot_Builder Identity_Api
begin

text \<open>
  Shiyao runs commands of its users in Firecracker microVMs. The program has two servers and an agent. The
  daemon (\<open>cmd/daemon\<close>) serves the HTTP API: sign-in, sessions, tokens and sandboxes. It stores everything in
  PostgreSQL and sends a job to NATS for every sandbox that is created or deleted. The worker (\<open>cmd/worker\<close>)
  takes the jobs and drives the VM manager, which leases a network to each microVM, starts it and stops it.
  The guest agent (\<open>cmd/guest-agent\<close>) is the init process of a microVM and executes commands that reach it over
  VSOCK; the daemon bridges them to a WebSocket of the browser. A builder makes the images, an outbox publishes
  events, and a policy restricts what the egress proxy may reach.

  \<^bold>\<open>Conventions.\<close> A Go string is a \<open>string\<close>, the list of its bytes. An error is a value of the type \<open>error\<close>
  (\<open>Go_Errors\<close>), \<open>nil\<close> is \<open>None\<close>, and a result with an error is \<open>error + 'a\<close>. A struct is a record, a pointer an option, a Go map
  an association list, an integer of a fixed width a word where its width matters. Times are microseconds. A method that changes its receiver takes
  it as an argument and returns it changed. What a mutex protects is one step. Libraries, the kernel, the databases and the network are
  arguments of the definitions that call them: functions or records of functions on a state of the outside world that may
  answer anything, errors included. What a theorem needs of them is a premise of the theorem.

  \<^bold>\<open>Theories.\<close>
  \<^item> \<open>Go_Prelude\<close>, \<open>Go_Errors\<close>, \<open>Net_Addr\<close>: the language and its library as far as the program uses them: UTF-8, \<open>strings\<close>,
    \<open>strconv\<close>, hexadecimal text, \<open>path/filepath\<close>, \<open>net/netip\<close>; \<open>pkg/errors\<close> and \<open>pkg/httputil\<close>.
  \<^item> \<open>Net_Config\<close>, \<open>Ipam\<close>, \<open>Firewall\<close>, \<open>Allocation\<close>, \<open>Lease_Ledger\<close>: \<open>internal/core/network\<close>. The pool of subnets and context
    identifiers; the commands for TAP devices and nftables, and what the rules mean for a packet; the lease that ties
    them together. The locale \<open>network_lease\<close> is the contract of the interface of a lease.
  \<^item> \<open>Vmm_Config\<close>, \<open>Vmm_Instance\<close>, \<open>Vmm_Manager\<close>, \<open>Warm_Pool\<close>: \<open>internal/core/vmm\<close>. One microVM over any lease that satisfies
    \<open>vm_lease\<close>; the manager on a heap of instances; the pool of warm instances with interleaved check-ins.
  \<^item> \<open>Vsock\<close>, \<open>Guest_Agent\<close>, \<open>Guest_Exec\<close>, \<open>Exec_Bridge\<close>: \<open>internal/core/vsock\<close>, \<open>cmd/guest-agent\<close> and \<open>internal/core/websocket\<close>. The
    protocol, the confinement of commands by cgroups and limits, the execution, the ephemeral root file system and the bridge.
  \<^item> \<open>Proxy_Policy\<close>: \<open>internal/core/proxy\<close>.
  \<^item> \<open>Database\<close>, \<open>Queries\<close>: the identity tables with the constraints of \<open>migrations\<close> and each query of \<open>internal/database/sqlc\<close>. A
    statement fails without effect if the database is down or if a constraint would be violated.
  \<^item> \<open>Auth_Service\<close>, \<open>Session_Service\<close>, \<open>Token_Services\<close>, \<open>Request_Auth\<close>, \<open>Identity_Api\<close>: \<open>internal/identity\<close>, \<open>internal/authn\<close>,
    \<open>internal/authz\<close>, the middleware, and all identity endpoints behind \<open>serve_api\<close>. The locale \<open>token_resolver\<close> is the
    contract of \<open>authn.Resolver\<close>.
  \<^item> \<open>Outbox\<close>, \<open>Nats_Bus\<close>: \<open>internal/platform/outbox\<close> and \<open>internal/adapters/nats\<close>. The locale \<open>publisher\<close> is what the relay needs of a bus.
  \<^item> \<open>Sandbox_Service\<close>, \<open>Sandbox_Worker\<close>: \<open>internal/platform/sandbox\<close> and \<open>internal/runtime/worker\<close>; \<open>site_step\<close> interleaves
    the API and the worker.
  \<^item> \<open>Snapshot_Registry\<close>, \<open>Snapshot_Builder\<close>: \<open>internal/platform/snapshot\<close>. The locale \<open>object_store\<close> is the contract of \<open>Store\<close>, and
    \<open>host_relation\<close> carries a relation on the host through all the steps of a build.
  \<^item> \<open>Process_Runtime\<close>: \<open>cmd/daemon\<close>, \<open>cmd/worker\<close>, \<open>internal/config\<close>, the connections and both registries.

  \<^bold>\<open>What is shown.\<close> In every reachable state of the manager the live leases have different subnets and identifiers, and the pool
  accounts for exactly these; stopping, destroying and reconciling return what was leased or keep the VM listed for
  another attempt. The firewall rules deny guest traffic by default. A command that cannot be confined is killed and its
  cgroup removed; a failed root file system is unmounted again; what the browser receives is the output of the command; and an exchange
  ends after a bounded number of messages. Password login accepts exactly the right requests, a
  transaction signs in once, a cookie works until it expires, a revoked session or token never works again, and a
  caller of the API changes rows of its own account only. No event of the outbox is lost or changed, a claim is exclusive, and
  whatever is marked as published is on the bus. A sandbox belongs to its owner, its job takes it to a running VM, and tables and
  manager stay well-typed under any interleaving. A build publishes its manifest last and cleans up after itself, the registry
  keeps snapshots apart, and the servers release every connection they opened. Some theorems state defects: a lease that is
  lost, a pool above its capacity, codes that can never be sent, a redelivered job that marks a running sandbox as failed, devices of the
  host that a build removes, quoted values in the guest, an endpoint that tells which addresses have accounts, and
  snapshot names that leave the store.

  \<^bold>\<open>Loops and bounds.\<close> There is no fuel: every loop of the modelled code is bounded by a list or a number, and its function is
  total. \<open>chunks\<close> and \<open>parse6\<close>, which do not recurse on a part of their argument, have termination proofs. The relay is modelled
  by its runs and the servers by what happens until their signal, so that no endless loop is needed. The bound
  on the messages of an exchange follows from the limit on captured output and the size of a frame.

  \<^bold>\<open>Not modelled.\<close>
  \<^item> The accept loop of the guest agent (\<open>run\<close> in \<open>cmd/guest-agent/main.go\<close>), which serves each connection in its own
    goroutine: the model is that of one connection, with the number of running commands as an argument.
  \<^item> Decoding of HTTP requests and matching of routes by gin: a request is a value of \<open>endpoint\<close> with a body that is decoded or not.
  \<^item> \<open>cors.go\<close> and \<open>secure.go\<close> of the middleware: constant options of third-party packages.
  \<^item> \<open>cmd/cli\<close> prints fixed texts; \<open>pkg/ptr\<close> and \<open>internal/core/vmm/benchmark.go\<close> are used by nothing.
  \<^item> \<open>internal/adapters/polar\<close>, \<open>internal/enterprise\<close> and \<open>internal/cloud\<close>: declarations without behaviour, most of them behind build tags.
  \<^item> \<open>internal/database/queries\<close> is the input of sqlc, whose output is modelled. Methods of repositories that only
    forward to a query are the query. The functions of \<open>pkg/pgconv\<close> on UUIDs and texts are called by nothing.
  \<^item> Cancelled contexts appear as errors of the calls they interrupt; logging is left out.
\<close>

end
